(* ===== verification/Prelude.thy ===== *)
theory Prelude imports Complex_Main "HOL-Library.Monad_Syntax" begin

text \<open>
  The shared base of the development: identifiers, the error monad in which every handler is
  written (a Python exception is the \<open>Inl\<close> of a sum), the loops the code writes over lists,
  the dictionary idioms it uses (\<open>setdefault\<close>, \<open>dict.fromkeys\<close>), and rounding of
  decimals. The named collections \<open>bind_simps\<close> and \<open>guard_simps\<close> hold the rewrite rules
  of the monad.
\<close>

named_theorems bind_simps "rewrite rules of the error monad"
named_theorems guard_simps "what a guarded computation that succeeded says"

text \<open>A UUID is its 128-bit number; \<open>str(uuid)\<close> orders like the number (fixed-width hex).\<close>

type_synonym uuid = int

section \<open>The error monad\<close>

definition bindE :: "'e + 'a \<Rightarrow> ('a \<Rightarrow> 'e + 'b) \<Rightarrow> 'e + 'b" where
  "bindE m f = (case m of Inl e \<Rightarrow> Inl e | Inr x \<Rightarrow> f x)"

text \<open>\<open>if c: raise e\<close>, in front of the rest of the handler.\<close>

definition raise_if :: "bool \<Rightarrow> 'e \<Rightarrow> 'e + 'b \<Rightarrow> 'e + 'b" where
  "raise_if c e k = (if c then Inl e else k)"

lemma bindE_Inl [simp, bind_simps]: "bindE (Inl e) f = Inl e"
  by (simp add: bindE_def)

lemma bindE_Inr [simp, bind_simps]: "bindE (Inr x) f = f x"
  by (simp add: bindE_def)

lemma bindE_return [simp, bind_simps]: "bindE m Inr = m"
  by (cases m) simp_all

lemma bindE_assoc [bind_simps]: "bindE (bindE m f) g = bindE m (\<lambda>x. bindE (f x) g)"
  by (cases m) simp_all

lemma bindE_cong [fundef_cong]:
  "m = m' \<Longrightarrow> (\<And>x. m' = Inr x \<Longrightarrow> f x = f' x) \<Longrightarrow> bindE m f = bindE m' f'"
  by (cases m') simp_all

lemma bindE_eq_Inr [guard_simps]: "bindE m f = Inr y \<longleftrightarrow> (\<exists>x. m = Inr x \<and> f x = Inr y)"
  by (cases m) simp_all

lemma bindE_eq_Inl:
  "bindE m f = Inl e \<longleftrightarrow> m = Inl e \<or> (\<exists>x. m = Inr x \<and> f x = Inl e)"
  by (cases m) simp_all

lemma raise_if_True [simp, bind_simps]: "raise_if True e k = Inl e"
  by (simp add: raise_if_def)

lemma raise_if_False [simp, bind_simps]: "raise_if False e k = k"
  by (simp add: raise_if_def)

lemma raise_if_eq_Inr [guard_simps]: "raise_if c e k = Inr y \<longleftrightarrow> \<not> c \<and> k = Inr y"
  by (simp add: raise_if_def)

lemma raise_if_eq_Inl: "raise_if c e k = Inl e' \<longleftrightarrow> (if c then e' = e else k = Inl e')"
  by (auto simp: raise_if_def)

lemma raise_if_cong [fundef_cong]:
  "c = c' \<Longrightarrow> e = e' \<Longrightarrow> (\<not> c' \<Longrightarrow> k = k') \<Longrightarrow> raise_if c e k = raise_if c' e' k'"
  by (simp add: raise_if_def)

text \<open>\<open>for x in xs: acc = f(acc, x)\<close> where the body may raise, and \<open>[f(x) for x in xs]\<close>.\<close>

fun foldE :: "('s \<Rightarrow> 'a \<Rightarrow> 'e + 's) \<Rightarrow> 's \<Rightarrow> 'a list \<Rightarrow> 'e + 's" where
  "foldE f s [] = Inr s"
| "foldE f s (x # xs) = bindE (f s x) (\<lambda>s'. foldE f s' xs)"

fun mapE :: "('a \<Rightarrow> 'e + 'b) \<Rightarrow> 'a list \<Rightarrow> 'e + 'b list" where
  "mapE f [] = Inr []"
| "mapE f (x # xs) = bindE (f x) (\<lambda>y. bindE (mapE f xs) (\<lambda>ys. Inr (y # ys)))"

lemma foldE_append: "foldE f s (xs @ ys) = bindE (foldE f s xs) (\<lambda>s'. foldE f s' ys)"
  by (induction xs arbitrary: s) (simp_all add: bindE_assoc)

lemma foldE_invariant:
  assumes "foldE f s xs = Inr s'" and "I s"
    and "\<And>s x t. x \<in> set xs \<Longrightarrow> I s \<Longrightarrow> f s x = Inr t \<Longrightarrow> I t"
  shows "I s'"
  using assms
proof (induction xs arbitrary: s)
  case Nil
  then show ?case by simp
next
  case (Cons x xs)
  then obtain t where t: "f s x = Inr t" "foldE f t xs = Inr s'"
    by (auto simp: guard_simps)
  have "I t" using Cons.prems(3) [OF _ Cons.prems(2) t(1)] by simp
  then show ?case
    by (rule Cons.IH [OF t(2)]) (use Cons.prems(3) in auto)
qed

lemma mapE_length: "mapE f xs = Inr ys \<Longrightarrow> length ys = length xs"
  by (induction xs arbitrary: ys) (auto simp: guard_simps)

lemma mapE_nth: "mapE f xs = Inr ys \<Longrightarrow> i < length xs \<Longrightarrow> f (xs ! i) = Inr (ys ! i)"
proof (induction xs arbitrary: ys i)
  case Nil
  then show ?case by simp
next
  case (Cons x xs)
  then show ?case by (cases i) (auto simp: guard_simps)
qed

lemma mapE_list_all2: "mapE f xs = Inr ys \<longleftrightarrow> list_all2 (\<lambda>x y. f x = Inr y) xs ys"
proof (induction xs arbitrary: ys)
  case Nil
  then show ?case by auto
next
  case (Cons x xs)
  then show ?case by (cases ys) (auto simp: guard_simps)
qed

lemma mapE_Inr_iff: "(\<exists>ys. mapE f xs = Inr ys) \<longleftrightarrow> (\<forall>x\<in>set xs. \<exists>y. f x = Inr y)"
  by (induction xs) (auto simp: guard_simps)

lemma mapE_pure [simp]: "mapE (\<lambda>x. Inr (g x)) xs = Inr (map g xs)"
  by (induction xs) simp_all

text \<open>\<open>for x in xs: check(x)\<close>: the first failing element decides the error.\<close>

fun forE :: "('a \<Rightarrow> 'e + unit) \<Rightarrow> 'a list \<Rightarrow> 'e + unit" where
  "forE f [] = Inr ()"
| "forE f (x # xs) = bindE (f x) (\<lambda>_. forE f xs)"

lemma forE_Inr_iff: "forE f xs = Inr u \<longleftrightarrow> (\<forall>x\<in>set xs. f x = Inr ())"
  by (induction xs) (auto simp: guard_simps)

text \<open>Executable forms of \<open>a result is returned\<close>, for evaluation.\<close>

definition isr :: "'e + 'a \<Rightarrow> bool" where
  "isr m = (case m of Inl e \<Rightarrow> False | Inr x \<Rightarrow> True)"

definition inr_sat :: "'e + 'a \<Rightarrow> ('a \<Rightarrow> bool) \<Rightarrow> bool" where
  "inr_sat m P = (case m of Inl e \<Rightarrow> False | Inr x \<Rightarrow> P x)"

lemma isr_eq: "isr m \<longleftrightarrow> (\<exists>x. m = Inr x)"
  by (cases m) (simp_all add: isr_def)

lemma inr_sat_eq: "inr_sat m P \<longleftrightarrow> (\<exists>x. m = Inr x \<and> P x)"
  by (cases m) (simp_all add: inr_sat_def)

section \<open>Dictionary and list idioms\<close>

text \<open>\<open>list(dict.fromkeys(xs))\<close>: duplicates removed, the first occurrence kept in place.\<close>

fun dedup_from :: "'a list \<Rightarrow> 'a list \<Rightarrow> 'a list" where
  "dedup_from seen [] = []"
| "dedup_from seen (x # xs) =
     (if x \<in> set seen then dedup_from seen xs else x # dedup_from (x # seen) xs)"

definition dict_fromkeys :: "'a list \<Rightarrow> 'a list" where
  "dict_fromkeys xs = dedup_from [] xs"

lemma set_dedup_from: "set (dedup_from seen xs) = set xs - set seen"
  by (induction seen xs rule: dedup_from.induct) auto

lemma distinct_dedup_from: "distinct (dedup_from seen xs)"
  by (induction seen xs rule: dedup_from.induct) (auto simp: set_dedup_from)

lemma set_dict_fromkeys [simp]: "set (dict_fromkeys xs) = set xs"
  by (simp add: dict_fromkeys_def set_dedup_from)

lemma distinct_dict_fromkeys [simp]: "distinct (dict_fromkeys xs)"
  by (simp add: dict_fromkeys_def distinct_dedup_from)

text \<open>
  An insertion-ordered dictionary is an association list with distinct keys.
  \<open>d.setdefault(k, v)\<close> keeps the value already there; \<open>d[k] = v\<close> replaces it in place.
\<close>

definition setdefault :: "('k \<times> 'v) list \<Rightarrow> 'k \<Rightarrow> 'v \<Rightarrow> ('k \<times> 'v) list" where
  "setdefault d k v = (if map_of d k = None then d @ [(k, v)] else d)"

fun dict_set :: "('k \<times> 'v) list \<Rightarrow> 'k \<Rightarrow> 'v \<Rightarrow> ('k \<times> 'v) list" where
  "dict_set [] k v = [(k, v)]"
| "dict_set ((k', v') # d) k v = (if k' = k then (k, v) # d else (k', v') # dict_set d k v)"

lemma map_of_setdefault:
  "map_of (setdefault d k v) k' =
     (if k' = k \<and> map_of d k = None then Some v else map_of d k')"
  by (auto simp: setdefault_def map_add_def split: option.splits)

lemma keys_setdefault: "fst ` set (setdefault d k v) = insert k (fst ` set d)"
proof -
  have "map_of d k \<noteq> None \<Longrightarrow> k \<in> fst ` set d"
    by (simp add: map_of_eq_None_iff)
  then show ?thesis by (auto simp: setdefault_def)
qed

lemma distinct_keys_setdefault:
  "distinct (map fst d) \<Longrightarrow> distinct (map fst (setdefault d k v))"
  by (auto simp: setdefault_def map_of_eq_None_iff)

lemma map_of_dict_set: "map_of (dict_set d k v) = (map_of d)(k \<mapsto> v)"
  by (induction d k v rule: dict_set.induct) auto

lemma keys_dict_set: "fst ` set (dict_set d k v) = insert k (fst ` set d)"
  by (induction d k v rule: dict_set.induct) auto

lemma distinct_keys_dict_set:
  "distinct (map fst d) \<Longrightarrow> distinct (map fst (dict_set d k v))"
proof (induction d k v rule: dict_set.induct)
  case (1 k v)
  then show ?case by simp
next
  case (2 k' v' d k v)
  have "set (map fst (dict_set d k v)) = insert k (set (map fst d))"
    using keys_dict_set [of d k v] by simp
  with 2 show ?case by auto
qed

text \<open>\<open>next((x for x in xs if p(x)), None)\<close> is the library's \<^term>\<open>List.find\<close>.\<close>

lemma find_Some_set: "List.find P xs = Some x \<Longrightarrow> x \<in> set xs \<and> P x"
  by (auto simp: find_Some_iff)

lemma find_None_all: "List.find P xs = None \<Longrightarrow> x \<in> set xs \<Longrightarrow> \<not> P x"
  by (auto simp: find_None_iff)

section \<open>Decimals\<close>

text \<open>
  A \<open>Decimal\<close> is the rational it denotes. The sums and products of the pricing code have a few
  fractional digits, far below the context's precision of 28 digits, so they are exact.
  \<open>quantize(Decimal("0.01"))\<close> rounds halves to even, with \<open>ROUND_HALF_UP\<close> away from zero.
\<close>

type_synonym dec = rat

definition quantize_half_even :: "dec \<Rightarrow> dec" where
  "quantize_half_even x =
     (let n = \<lfloor>x * 100\<rfloor>; r = x * 100 - of_int n in
      of_int (if r < 1 / 2 then n else if r > 1 / 2 then n + 1 else if even n then n else n + 1) / 100)"

definition quantize_half_up :: "dec \<Rightarrow> dec" where
  "quantize_half_up x =
     (if 0 \<le> x then of_int \<lfloor>x * 100 + 1 / 2\<rfloor> / 100
      else - (of_int \<lfloor>- x * 100 + 1 / 2\<rfloor> / 100))"

lemma quantize_half_up_zero [simp]: "quantize_half_up 0 = 0"
proof -
  have "\<lfloor>1 / 2 :: rat\<rfloor> = 0" by linarith
  then show ?thesis by (simp add: quantize_half_up_def)
qed

lemma quantize_half_up_nonneg: "0 \<le> x \<Longrightarrow> 0 \<le> quantize_half_up x"
  by (simp add: quantize_half_up_def)

lemma quantize_half_up_cents: "\<exists>n::int. quantize_half_up x = of_int n / 100"
  by (auto simp: quantize_half_up_def intro: exI [of _ "- _"])

lemma quantize_half_up_close: "\<bar>quantize_half_up x - x\<bar> \<le> 1 / 200"
proof -
  have round: "\<bar>of_int \<lfloor>y + 1 / 2\<rfloor> / 100 - y / 100\<bar> \<le> 1 / 200" for y :: rat
  proof -
    have "of_int \<lfloor>y + 1 / 2\<rfloor> \<le> y + 1 / 2" "y + 1 / 2 < of_int \<lfloor>y + 1 / 2\<rfloor> + 1"
      by linarith+
    then show ?thesis unfolding abs_le_iff by linarith
  qed
  show ?thesis
    using round [of "x * 100"] round [of "- x * 100"]
    by (cases "0 \<le> x") (simp_all add: quantize_half_up_def abs_minus_commute add.commute)
qed

lemma quantize_half_up_fix [simp]: "quantize_half_up (of_int n / 100) = of_int n / 100"
proof (cases "0 \<le> n")
  case True
  have "\<lfloor>of_int n + 1 / 2 :: rat\<rfloor> = n" by linarith
  with True show ?thesis by (simp add: quantize_half_up_def)
next
  case False
  have "\<lfloor>of_int (- n) + 1 / 2 :: rat\<rfloor> = - n" by linarith
  with False show ?thesis by (simp add: quantize_half_up_def)
qed

lemma quantize_half_up_idem: "quantize_half_up (quantize_half_up x) = quantize_half_up x"
proof -
  obtain n where "quantize_half_up x = of_int n / 100" using quantize_half_up_cents by blast
  then show ?thesis by (simp only: quantize_half_up_fix)
qed

lemma quantize_half_up_mono: "x \<le> y \<Longrightarrow> quantize_half_up x \<le> quantize_half_up y"
proof (cases "0 \<le> x")
  case True
  assume "x \<le> y"
  with True show ?thesis
    by (auto simp: quantize_half_up_def intro!: divide_right_mono floor_mono)
next
  case False
  assume le: "x \<le> y"
  show ?thesis
  proof (cases "0 \<le> y")
    case True
    have "0 \<le> \<lfloor>- x * 100 + 1 / 2\<rfloor>" using False by simp
    then have "quantize_half_up x \<le> 0" using False by (simp add: quantize_half_up_def)
    moreover have "0 \<le> quantize_half_up y" using True by (rule quantize_half_up_nonneg)
    ultimately show ?thesis by linarith
  next
    case neg: False
    have "\<lfloor>- y * 100 + 1 / 2\<rfloor> \<le> \<lfloor>- x * 100 + 1 / 2\<rfloor>" using le by (intro floor_mono) simp
    then have "(of_int \<lfloor>- y * 100 + 1 / 2\<rfloor> :: rat) \<le> of_int \<lfloor>- x * 100 + 1 / 2\<rfloor>" by simp
    with False neg show ?thesis by (simp add: quantize_half_up_def)
  qed
qed

end
