(* ===== verification/Calendar.thy ===== *)
theory Calendar imports Prelude begin

text \<open>
  What the code uses of Python's \<open>datetime\<close> and \<open>zoneinfo\<close>.

  A \<open>date\<close> is its ordinal (\<open>date.toordinal()\<close>), so that comparison and \<open>timedelta\<close>
  arithmetic are those of the integers; \<open>ord2ymd\<close> and \<open>ymd2ord\<close> are the interpreter's
  conversions of the proleptic Gregorian calendar, shown here to be inverse to each other. A
  \<open>time\<close> is its microsecond of the day. A wall-clock value (a naive datetime, or an aware one
  read in its own zone) is the number of microseconds since ordinal 0, and an aware datetime is the
  instant it denotes, the wall clock of UTC. Python compares aware datetimes that share one
  \<open>tzinfo\<close> object by wall clock, any others by instant.

  A zone is the content of a tz database entry: an initial offset and the list of its transitions.
\<close>

type_synonym date = int
type_synonym tod = int
type_synonym wall = int
type_synonym instant = int

definition DAY_US :: int where "DAY_US = 86400000000"
definition HOUR_US :: int where "HOUR_US = 3600000000"
definition MINUTE_US :: int where "MINUTE_US = 60000000"

section \<open>The Gregorian calendar\<close>

definition is_leap :: "int \<Rightarrow> bool" where
  "is_leap y \<longleftrightarrow> y mod 4 = 0 \<and> (y mod 100 \<noteq> 0 \<or> y mod 400 = 0)"

definition days_before_year :: "int \<Rightarrow> int" where
  "days_before_year year =
     (let y = year - 1 in y * 365 + y div 4 - y div 100 + y div 400)"

definition month_days :: "int list" where
  "month_days = [31, 28, 31, 30, 31, 30, 31, 31, 30, 31, 30, 31]"

definition month_starts :: "int list" where
  "month_starts = [0, 31, 59, 90, 120, 151, 181, 212, 243, 273, 304, 334]"

definition month_len :: "bool \<Rightarrow> int \<Rightarrow> int" where
  "month_len leap m = month_days ! nat (m - 1) + (if m = 2 \<and> leap then 1 else 0)"

definition month_start :: "bool \<Rightarrow> int \<Rightarrow> int" where
  "month_start leap m = month_starts ! nat (m - 1) + (if m > 2 \<and> leap then 1 else 0)"

text \<open>\<open>calendar.monthrange(y, m)[1]\<close>\<close>

definition days_in_month :: "int \<Rightarrow> int \<Rightarrow> int" where
  "days_in_month y m = month_len (is_leap y) m"

definition days_before_month :: "int \<Rightarrow> int \<Rightarrow> int" where
  "days_before_month y m = month_start (is_leap y) m"

definition ymd2ord :: "int \<Rightarrow> int \<Rightarrow> int \<Rightarrow> date" where
  "ymd2ord y m d = days_before_year y + days_before_month y m + d"

text \<open>The month and the day of the month of a day of the year, counted from 0.\<close>

definition month_of_yday :: "bool \<Rightarrow> int \<Rightarrow> int \<times> int" where
  "month_of_yday leap n =
     (let month = (n + 50) div 32;
          preceding = month_start leap month
      in if preceding > n
         then (let month' = month - 1;
                   preceding' = preceding - month_len leap month'
               in (month', n - preceding' + 1))
         else (month, n - preceding + 1))"

definition ord2ymd :: "date \<Rightarrow> int \<times> int \<times> int" where
  "ord2ymd ordinal =
     (let n = ordinal - 1;
          n400 = n div 146097; n = n mod 146097;
          n100 = n div 36524; n = n mod 36524;
          n4 = n div 1461; n = n mod 1461;
          n1 = n div 365; n = n mod 365;
          year = n400 * 400 + 1 + n100 * 100 + n4 * 4 + n1
      in if n1 = 4 \<or> n100 = 4 then (year - 1, 12, 31)
         else (let leapyear = (n1 = 3 \<and> (n4 \<noteq> 24 \<or> n100 = 3));
                   (month, day) = month_of_yday leapyear n
               in (year, month, day)))"

definition date_year :: "date \<Rightarrow> int" where "date_year d = fst (ord2ymd d)"
definition date_month :: "date \<Rightarrow> int" where "date_month d = fst (snd (ord2ymd d))"
definition date_day :: "date \<Rightarrow> int" where "date_day d = snd (snd (ord2ymd d))"

definition weekday :: "date \<Rightarrow> int" where "weekday d = (d + 6) mod 7"

definition valid_ymd :: "int \<Rightarrow> int \<Rightarrow> int \<Rightarrow> bool" where
  "valid_ymd y m d \<longleftrightarrow> 1 \<le> m \<and> m \<le> 12 \<and> 1 \<le> d \<and> d \<le> days_in_month y m"

definition year_days :: "int \<Rightarrow> int" where
  "year_days y = (if is_leap y then 366 else 365)"

subsection \<open>Years\<close>

text \<open>
  With \<open>y = 400 a + 100 b + 4 c + e\<close> the divisions in \<open>days_before_year\<close> are \<open>a\<close>,
  \<open>b\<close>, \<open>c\<close> themselves.
\<close>

lemma days_before_year_cycle:
  assumes "0 \<le> b" "b \<le> 3" "0 \<le> c" "c \<le> 24" "0 \<le> e" "e \<le> 3"
  shows "days_before_year (400 * a + 100 * b + 4 * c + e + 1)
       = 146097 * a + 36524 * b + 1461 * c + 365 * e"
proof -
  define y where "y = 400 * a + 100 * b + 4 * c + e"
  have "y div 4 = 100 * a + 25 * b + c"
    by (rule int_div_pos_eq [where r = e]) (use assms in \<open>simp_all add: y_def\<close>)
  moreover have "y div 100 = 4 * a + b"
    by (rule int_div_pos_eq [where r = "4 * c + e"]) (use assms in \<open>simp_all add: y_def\<close>)
  moreover have "y div 400 = a"
    by (rule int_div_pos_eq [where r = "100 * b + 4 * c + e"]) (use assms in \<open>simp_all add: y_def\<close>)
  ultimately show ?thesis
    by (simp add: days_before_year_def Let_def y_def [symmetric]) (simp add: y_def)
qed

lemma year_cycle_exists:
  fixes y :: int
  obtains a b c e where "0 \<le> b" "b \<le> 3" "0 \<le> c" "c \<le> 24" "0 \<le> e" "e \<le> 3"
    "y = 400 * a + 100 * b + 4 * c + e + 1"
proof
  let ?n = "y - 1"
  let ?m = "?n mod 400"
  let ?k = "?m mod 100"
  have m: "0 \<le> ?m" "?m < 400" and k: "0 \<le> ?k" "?k < 100" by simp_all
  show "0 \<le> ?m div 100" "0 \<le> ?k div 4" "0 \<le> ?k mod 4" "?k mod 4 \<le> 3"
    using m k by (simp_all add: pos_imp_zdiv_nonneg_iff)
  show "?m div 100 \<le> 3" using m by linarith
  show "?k div 4 \<le> 24" using k by linarith
  show "y = 400 * (?n div 400) + 100 * (?m div 100) + 4 * (?k div 4) + ?k mod 4 + 1"
    using mult_div_mod_eq [of 400 ?n] mult_div_mod_eq [of 100 ?m] mult_div_mod_eq [of 4 ?k]
    by linarith
qed

lemma is_leap_cycle:
  assumes "0 \<le> b" "b \<le> 3" "0 \<le> c" "c \<le> 24" "0 \<le> e" "e \<le> 3"
  shows "is_leap (400 * a + 100 * b + 4 * c + e + 1) \<longleftrightarrow> e = 3 \<and> (c \<noteq> 24 \<or> b = 3)"
proof -
  define y where "y = 400 * a + 100 * b + 4 * c + e + 1"
  consider "e < 3" | "e = 3" "c < 24" | "e = 3" "c = 24" "b < 3" | "e = 3" "c = 24" "b = 3"
    using assms by linarith
  then show ?thesis unfolding y_def [symmetric]
  proof cases
    case 1
    have "y mod 4 = e + 1"
      by (rule int_mod_pos_eq [where q = "100 * a + 25 * b + c"]) (use assms 1 in \<open>simp_all add: y_def\<close>)
    with 1 assms show "is_leap y \<longleftrightarrow> e = 3 \<and> (c \<noteq> 24 \<or> b = 3)" by (simp add: is_leap_def)
  next
    case 2
    have "y mod 4 = 0"
      by (rule int_mod_pos_eq [where q = "100 * a + 25 * b + c + 1"]) (use assms 2 in \<open>simp_all add: y_def\<close>)
    moreover have "y mod 100 = 4 * c + 4"
      by (rule int_mod_pos_eq [where q = "4 * a + b"]) (use assms 2 in \<open>simp_all add: y_def\<close>)
    ultimately show "is_leap y \<longleftrightarrow> e = 3 \<and> (c \<noteq> 24 \<or> b = 3)"
      using assms 2 by (simp add: is_leap_def)
  next
    case 3
    have "y mod 100 = 0"
      by (rule int_mod_pos_eq [where q = "4 * a + b + 1"]) (use assms 3 in \<open>simp_all add: y_def\<close>)
    moreover have "y mod 400 = 100 * b + 100"
      by (rule int_mod_pos_eq [where q = a]) (use assms 3 in \<open>simp_all add: y_def\<close>)
    ultimately show "is_leap y \<longleftrightarrow> e = 3 \<and> (c \<noteq> 24 \<or> b = 3)"
      using assms 3 by (simp add: is_leap_def)
  next
    case 4
    have "y mod 4 = 0"
      by (rule int_mod_pos_eq [where q = "100 * a + 100"]) (use assms 4 in \<open>simp_all add: y_def\<close>)
    moreover have "y mod 400 = 0"
      by (rule int_mod_pos_eq [where q = "a + 1"]) (use assms 4 in \<open>simp_all add: y_def\<close>)
    ultimately show "is_leap y \<longleftrightarrow> e = 3 \<and> (c \<noteq> 24 \<or> b = 3)"
      using 4 by (simp add: is_leap_def)
  qed
qed

lemma days_before_year_Suc: "days_before_year (y + 1) = days_before_year y + year_days y"
proof -
  obtain a b c e where r: "0 \<le> b" "b \<le> 3" "0 \<le> c" "c \<le> 24" "0 \<le> e" "e \<le> 3"
    and y: "y = 400 * a + 100 * b + 4 * c + e + 1"
    by (rule year_cycle_exists)
  note this_year = days_before_year_cycle [OF r, of a, folded y]
  note leap = is_leap_cycle [OF r, of a, folded y]
  consider "e < 3" | "e = 3" "c < 24" | "e = 3" "c = 24" "b < 3" | "e = 3" "c = 24" "b = 3"
    using r by linarith
  then show ?thesis
  proof cases
    case 1
    with r y days_before_year_cycle [of b c "e + 1" a] this_year leap show ?thesis
      by (simp add: year_days_def add.commute)
  next
    case 2
    with r y days_before_year_cycle [of b "c + 1" 0 a] this_year leap show ?thesis
      by (simp add: year_days_def algebra_simps)
  next
    case 3
    with r y days_before_year_cycle [of "b + 1" 0 0 a] this_year leap show ?thesis
      by (simp add: year_days_def algebra_simps)
  next
    case 4
    with r y days_before_year_cycle [of 0 0 0 "a + 1"] this_year leap show ?thesis
      by (simp add: year_days_def algebra_simps)
  qed
qed

lemma year_days_pos: "0 < year_days y"
  by (simp add: year_days_def)

lemma days_before_year_strict_mono: "y < y' \<Longrightarrow> days_before_year y < days_before_year y'"
proof (induction y' rule: int_gr_induct)
  case base
  show ?case using days_before_year_Suc [of y] year_days_pos [of y] by simp
next
  case (step i)
  then show ?case using days_before_year_Suc [of i] year_days_pos [of i] by simp
qed

lemma days_before_year_mono: "y \<le> y' \<Longrightarrow> days_before_year y \<le> days_before_year y'"
  using days_before_year_strict_mono [of y y'] by (cases "y = y'") auto

text \<open>A day lies in exactly one year.\<close>

lemma year_unique:
  assumes "days_before_year y < d" "d \<le> days_before_year (y + 1)"
    and "days_before_year z < d" "d \<le> days_before_year (z + 1)"
  shows "y = z"
proof -
  have "\<not> y + 1 \<le> z" using days_before_year_mono [of "y + 1" z] assms by auto
  moreover have "\<not> z + 1 \<le> y" using days_before_year_mono [of "z + 1" y] assms by auto
  ultimately show ?thesis by simp
qed

subsection \<open>Months\<close>

text \<open>Both directions are finite tables, which the kernel evaluates.\<close>

definition yday_ok :: "bool \<Rightarrow> int \<Rightarrow> bool" where
  "yday_ok leap n = (case month_of_yday leap n of (m, d) \<Rightarrow>
     1 \<le> m \<and> m \<le> 12 \<and> 1 \<le> d \<and> d \<le> month_len leap m \<and> month_start leap m + d = n + 1)"

definition mday_ok :: "bool \<Rightarrow> int \<Rightarrow> int \<Rightarrow> bool" where
  "mday_ok leap m d = (d \<le> month_len leap m \<longrightarrow>
     month_of_yday leap (month_start leap m + d - 1) = (m, d) \<and>
     0 \<le> month_start leap m \<and> month_start leap m + d \<le> 365 + of_bool leap)"

lemma yday_tables:
  "list_all (yday_ok False) [0..364]" "list_all (yday_ok True) [0..365]"
  by code_simp+

lemma mday_tables:
  "list_all (\<lambda>m. list_all (mday_ok False m) [1..31]) [1..12]"
  "list_all (\<lambda>m. list_all (mday_ok True m) [1..31]) [1..12]"
  by code_simp+

lemma month_len_le_31: "1 \<le> m \<Longrightarrow> m \<le> 12 \<Longrightarrow> 28 \<le> month_len leap m \<and> month_len leap m \<le> 31"
proof -
  assume "1 \<le> m" "m \<le> 12"
  moreover have "list_all (\<lambda>m. \<forall>l\<in>{True, False}. 28 \<le> month_len l m \<and> month_len l m \<le> 31) [1..12]"
    by code_simp
  ultimately show ?thesis by (cases leap) (simp_all add: list_all_iff)
qed

lemma month_of_yday_sound:
  assumes "0 \<le> n" "n < (if leap then 366 else 365)"
  shows "yday_ok leap n"
  using yday_tables assms by (cases leap) (simp_all add: list_all_iff)

lemma month_of_yday_complete:
  assumes "1 \<le> m" "m \<le> 12" "1 \<le> d" "d \<le> month_len leap m"
  shows "month_of_yday leap (month_start leap m + d - 1) = (m, d)"
    and "0 \<le> month_start leap m" and "month_start leap m + d \<le> 365 + of_bool leap"
proof -
  have "m \<in> set [1..12]" "d \<in> set [1..31]"
    using assms month_len_le_31 [of m leap] by auto
  then have "mday_ok leap m d"
    using mday_tables by (cases leap) (simp_all add: list_all_iff)
  with assms(4) show "month_of_yday leap (month_start leap m + d - 1) = (m, d)"
    "0 \<le> month_start leap m" "month_start leap m + d \<le> 365 + of_bool leap"
    by (simp_all add: mday_ok_def)
qed

subsection \<open>The conversions are inverse to each other\<close>

text \<open>\<open>ord2ymd\<close> finds the year that holds the day, and then splits the day of that year.\<close>

lemma ord2ymd_year:
  obtains y n where "ord2ymd d = (y, month_of_yday (is_leap y) n)" "0 \<le> n" "n < year_days y"
    "d = days_before_year y + n + 1"
proof -
  define n0 where "n0 = d - 1"
  define a where "a = n0 div 146097"
  define r1 where "r1 = n0 mod 146097"
  define b where "b = r1 div 36524"
  define r2 where "r2 = r1 mod 36524"
  define c where "c = r2 div 1461"
  define r3 where "r3 = r2 mod 1461"
  define e where "e = r3 div 365"
  define n where "n = r3 mod 365"
  have r: "0 \<le> r1" "r1 < 146097" "0 \<le> r2" "r2 < 36524" "0 \<le> r3" "r3 < 1461" "0 \<le> n" "n < 365"
    by (simp_all add: r1_def r2_def r3_def n_def)
  have eqs: "n0 = 146097 * a + r1" "r1 = 36524 * b + r2" "r2 = 1461 * c + r3" "r3 = 365 * e + n"
    by (simp_all add: a_def r1_def b_def r2_def c_def r3_def e_def n_def)
  have bounds: "0 \<le> b" "b \<le> 4" "0 \<le> c" "c \<le> 24" "0 \<le> e" "e \<le> 4"
    using r eqs by linarith+
  have ord: "ord2ymd d =
      (if e = 4 \<or> b = 4 then (a * 400 + b * 100 + c * 4 + e, 12, 31)
       else (a * 400 + 1 + b * 100 + c * 4 + e, month_of_yday (e = 3 \<and> (c \<noteq> 24 \<or> b = 3)) n))"
    by (simp add: ord2ymd_def Let_def n0_def a_def r1_def b_def r2_def c_def r3_def e_def n_def
        split: prod.splits)
  show thesis
  proof (cases "e = 4 \<or> b = 4")
    case False
    then have b3: "b \<le> 3" and e3: "e \<le> 3" using bounds by linarith+
    let ?y = "400 * a + 100 * b + 4 * c + e + 1"
    note dby = days_before_year_cycle [OF bounds(1) b3 bounds(3,4,5) e3, of a]
    note leap = is_leap_cycle [OF bounds(1) b3 bounds(3,4,5) e3, of a]
    have "ord2ymd d = (?y, month_of_yday (is_leap ?y) n)"
      using False leap by (simp add: ord algebra_simps)
    moreover have "d = days_before_year ?y + n + 1" using dby eqs by (simp add: n0_def)
    moreover have "n < year_days ?y" using r by (simp add: year_days_def)
    ultimately show thesis using that r by blast
  next
    case True
    \<comment> \<open>The last day of a leap year: the 1461st day of a cycle of four years, or the last of 400.\<close>
    have last: "month_of_yday True 365 = (12, 31)" by code_simp
    show thesis
    proof (cases "b = 4")
      case True
      then have z: "c = 0" "e = 0" "n = 0" using r eqs bounds by linarith+
      let ?y = "400 * a + 100 * 3 + 4 * 24 + 3 + 1"
      have "is_leap ?y" by (subst is_leap_cycle) simp_all
      moreover have "days_before_year ?y = 146097 * a + 36524 * 3 + 1461 * 24 + 365 * 3"
        by (subst days_before_year_cycle) simp_all
      moreover have "ord2ymd d = (?y, 12, 31)" using True z ord by (simp add: algebra_simps)
      moreover have "d = days_before_year ?y + 365 + 1"
        using calculation(2) True z eqs by (simp add: n0_def)
      ultimately show thesis
        using that [of ?y 365] last by (simp add: year_days_def)
    next
      case False
      then have e4: "e = 4" and b3: "b \<le> 3" using True bounds by linarith+
      then have n0: "n = 0" using r eqs by linarith
      have c23: "c \<le> 23 \<or> b = 3" using r eqs e4 bounds by linarith
      let ?y = "400 * a + 100 * b + 4 * c + 3 + 1"
      have "is_leap ?y" using bounds b3 c23 by (subst is_leap_cycle) auto
      moreover have "days_before_year ?y = 146097 * a + 36524 * b + 1461 * c + 365 * 3"
        using bounds b3 by (subst days_before_year_cycle) simp_all
      moreover have "ord2ymd d = (?y, 12, 31)" using e4 ord by (simp add: algebra_simps)
      moreover have "d = days_before_year ?y + 365 + 1"
        using calculation(2) e4 n0 eqs by (simp add: n0_def)
      ultimately show thesis
        using that [of ?y 365] last by (simp add: year_days_def)
    qed
  qed
qed

lemma ord2ymd_valid:
  assumes "ord2ymd d = (y, m, k)"
  shows "valid_ymd y m k" and "ymd2ord y m k = d"
    and "days_before_year y < d" and "d \<le> days_before_year (y + 1)"
proof -
  obtain y' n where o: "ord2ymd d = (y', month_of_yday (is_leap y') n)" and n: "0 \<le> n" "n < year_days y'"
    and d: "d = days_before_year y' + n + 1"
    by (rule ord2ymd_year)
  with assms have y: "y' = y" and mk: "month_of_yday (is_leap y) n = (m, k)" by auto
  have "yday_ok (is_leap y) n"
    using n y by (intro month_of_yday_sound) (simp_all add: year_days_def split: if_splits)
  with mk show "valid_ymd y m k" "ymd2ord y m k = d"
    by (simp_all add: yday_ok_def valid_ymd_def days_in_month_def ymd2ord_def days_before_month_def d y)
  show "days_before_year y < d" "d \<le> days_before_year (y + 1)"
    using n d y days_before_year_Suc [of y] by simp_all
qed

lemma ymd2ord_year:
  assumes "valid_ymd y m k"
  shows "days_before_year y < ymd2ord y m k" and "ymd2ord y m k \<le> days_before_year (y + 1)"
  using assms month_of_yday_complete [of m k "is_leap y"] days_before_year_Suc [of y]
  by (auto simp: valid_ymd_def ymd2ord_def days_before_month_def days_in_month_def year_days_def
      split: if_splits)

lemma ord2ymd_ymd2ord:
  assumes "valid_ymd y m k"
  shows "ord2ymd (ymd2ord y m k) = (y, m, k)"
proof -
  let ?d = "ymd2ord y m k"
  obtain y' n where o: "ord2ymd ?d = (y', month_of_yday (is_leap y') n)" and n: "0 \<le> n" "n < year_days y'"
    and d: "?d = days_before_year y' + n + 1"
    by (rule ord2ymd_year)
  have "days_before_year y' < ?d" "?d \<le> days_before_year (y' + 1)"
    using n d days_before_year_Suc [of y'] by simp_all
  then have y: "y' = y" using ymd2ord_year [OF assms] by (rule year_unique)
  then have "n = month_start (is_leap y) m + k - 1"
    using d by (simp add: ymd2ord_def days_before_month_def)
  then show ?thesis
    using o y month_of_yday_complete(1) [of m k "is_leap y"] assms
    by (simp add: valid_ymd_def days_in_month_def)
qed

lemma date_parts:
  "valid_ymd (date_year d) (date_month d) (date_day d)"
  "ymd2ord (date_year d) (date_month d) (date_day d) = d"
  using ord2ymd_valid [of d "date_year d" "date_month d" "date_day d"]
  by (simp_all add: date_year_def date_month_def date_day_def)

lemma date_parts_ymd2ord [simp]:
  assumes "valid_ymd y m k"
  shows "date_year (ymd2ord y m k) = y" "date_month (ymd2ord y m k) = m" "date_day (ymd2ord y m k) = k"
  by (simp_all add: date_year_def date_month_def date_day_def ord2ymd_ymd2ord assms)

lemma date_year_bounds:
  "days_before_year (date_year d) < d" "d \<le> days_before_year (date_year d + 1)"
  using ord2ymd_valid [of d "date_year d" "date_month d" "date_day d"]
  by (simp_all add: date_year_def date_month_def date_day_def)

lemma date_year_mono: "d \<le> d' \<Longrightarrow> date_year d \<le> date_year d'"
proof (rule ccontr)
  assume le: "d \<le> d'" and "\<not> date_year d \<le> date_year d'"
  then have "days_before_year (date_year d' + 1) \<le> days_before_year (date_year d)"
    by (intro days_before_year_mono) simp
  then show False using le date_year_bounds [of d] date_year_bounds [of d'] by simp
qed

lemma date_month_range: "1 \<le> date_month d" "date_month d \<le> 12"
  using date_parts(1) [of d] by (simp_all add: valid_ymd_def)

text \<open>Within a year the month grows with the date.\<close>

lemma month_start_mono_table:
  "list_all (\<lambda>m. \<forall>l\<in>{True, False}. month_start l m + month_len l m \<le> month_start l (m + 1)) [1..11]"
  by code_simp

lemma month_start_step:
  "1 \<le> m \<Longrightarrow> m \<le> 11 \<Longrightarrow> month_start l m + month_len l m \<le> month_start l (m + 1)"
  using month_start_mono_table by (cases l) (simp_all add: list_all_iff)

lemma month_start_mono:
  assumes "1 \<le> m" "m < m'" "m' \<le> 12"
  shows "month_start l m + month_len l m \<le> month_start l m'"
  using assms(2,3)
proof (induction m' rule: int_gr_induct)
  case base
  then show ?case using month_start_step [of m l] assms by simp
next
  case (step i)
  then show ?case
    using month_start_step [of i l] month_len_le_31 [of i l] assms by simp
qed

lemma date_month_mono:
  assumes "d \<le> d'" "date_year d = date_year d'"
  shows "date_month d \<le> date_month d'"
proof (rule ccontr)
  assume "\<not> date_month d \<le> date_month d'"
  then have "month_start (is_leap (date_year d)) (date_month d') + month_len (is_leap (date_year d)) (date_month d')
      \<le> month_start (is_leap (date_year d)) (date_month d)"
    by (intro month_start_mono) (use date_month_range in simp_all)
  then show False
    using date_parts [of d] date_parts [of d'] assms
    by (simp add: ymd2ord_def valid_ymd_def days_before_month_def days_in_month_def)
qed

lemma weekday_range: "0 \<le> weekday d" "weekday d \<le> 6"
  using pos_mod_bound [of 7 "d + 6"] by (simp_all add: weekday_def)

lemma weekday_eq_iff: "weekday d = weekday d' \<longleftrightarrow> 7 dvd (d' - d)"
proof -
  have "(d + 6) mod 7 = (d' + 6) mod 7 \<longleftrightarrow> 7 dvd ((d + 6) - (d' + 6))"
    by (rule mod_eq_dvd_iff)
  then show ?thesis by (simp add: weekday_def dvd_diff_commute)
qed

lemma weekday_add_weeks [simp]: "weekday (d + 7 * k) = weekday d"
  by (simp add: weekday_eq_iff)

section \<open>Wall clocks and zones\<close>

definition wall_date :: "wall \<Rightarrow> date" where "wall_date w = w div DAY_US"
definition wall_time :: "wall \<Rightarrow> tod" where "wall_time w = w mod DAY_US"

text \<open>\<open>datetime.combine(day, value)\<close>\<close>

definition combine :: "date \<Rightarrow> tod \<Rightarrow> wall" where "combine d t = d * DAY_US + t"

definition valid_tod :: "tod \<Rightarrow> bool" where "valid_tod t \<longleftrightarrow> 0 \<le> t \<and> t < DAY_US"

lemma DAY_US_pos [simp]: "0 < DAY_US"
  by (simp add: DAY_US_def)

lemma wall_combine [simp]:
  assumes "valid_tod t"
  shows "wall_date (combine d t) = d" "wall_time (combine d t) = t"
  using assms by (simp_all add: wall_date_def wall_time_def combine_def valid_tod_def)

lemma combine_wall [simp]: "combine (wall_date w) (wall_time w) = w"
  by (simp add: wall_date_def wall_time_def combine_def)

lemma valid_wall_time [simp]: "valid_tod (wall_time w)"
  by (simp add: wall_time_def valid_tod_def)

lemma valid_midnight [simp]: "valid_tod 0"
  by (simp add: valid_tod_def)

lemma wall_date_mono: "w \<le> w' \<Longrightarrow> wall_date w \<le> wall_date w'"
  by (simp add: wall_date_def zdiv_mono1)

lemma wall_less_midnight: "w < combine d 0 \<longleftrightarrow> wall_date w < d"
  unfolding wall_date_def combine_def DAY_US_def by linarith

lemma midnight_le_wall: "combine d 0 \<le> w \<longleftrightarrow> d \<le> wall_date w"
  using wall_less_midnight [of w d] by linarith

text \<open>
  \<open>utcoffset_at\<close> is the offset at an instant, \<open>walloffset_at\<close> the one \<open>zoneinfo\<close> gives a
  wall clock with \<open>fold = 0\<close>: the old offset until the wall clock has passed the transition in
  both offsets.
\<close>

record zone =
  zone_base :: int
  zone_trans :: "(instant \<times> int) list"

fun utcoff_from :: "int \<Rightarrow> (instant \<times> int) list \<Rightarrow> instant \<Rightarrow> int" where
  "utcoff_from off [] u = off"
| "utcoff_from off ((t, off') # ts) u = (if t \<le> u then utcoff_from off' ts u else off)"

fun walloff_from :: "int \<Rightarrow> (instant \<times> int) list \<Rightarrow> wall \<Rightarrow> int" where
  "walloff_from off [] w = off"
| "walloff_from off ((t, off') # ts) w = (if t + max off off' \<le> w then walloff_from off' ts w else off)"

definition utcoffset_at :: "zone \<Rightarrow> instant \<Rightarrow> int" where
  "utcoffset_at z u = utcoff_from (zone_base z) (zone_trans z) u"

definition walloffset_at :: "zone \<Rightarrow> wall \<Rightarrow> int" where
  "walloffset_at z w = walloff_from (zone_base z) (zone_trans z) w"

text \<open>\<open>value.astimezone(tz)\<close>, read on its wall clock, and back with \<open>fold = 0\<close>.\<close>

definition to_local :: "zone \<Rightarrow> instant \<Rightarrow> wall" where
  "to_local z u = u + utcoffset_at z u"

definition from_local :: "zone \<Rightarrow> wall \<Rightarrow> instant" where
  "from_local z w = w - walloffset_at z w"

definition utc_zone :: zone where "utc_zone = \<lparr>zone_base = 0, zone_trans = []\<rparr>"

text \<open>
  What every tz database entry satisfies: the transitions come in order and so far apart that the
  wall-clock gaps and overlaps they cause do not meet.
\<close>

fun wf_trans :: "int \<Rightarrow> (instant \<times> int) list \<Rightarrow> bool" where
  "wf_trans off [] = True"
| "wf_trans off [(t, off')] = True"
| "wf_trans off ((t, off') # (t', off'') # ts) \<longleftrightarrow>
     t < t' \<and> t + max off off' \<le> t' + min off' off'' \<and> wf_trans off' ((t', off'') # ts)"

definition wf_zone :: "zone \<Rightarrow> bool" where
  "wf_zone z \<longleftrightarrow> wf_trans (zone_base z) (zone_trans z)"

lemma utc_zone_simps [simp]: "to_local utc_zone u = u" "from_local utc_zone w = w" "wf_zone utc_zone"
  by (simp_all add: to_local_def from_local_def utcoffset_at_def walloffset_at_def utc_zone_def wf_zone_def)

text \<open>Before the first transition the offset is the initial one.\<close>

lemma utcoff_before:
  "wf_trans off ((t, off') # ts) \<Longrightarrow> u < t \<Longrightarrow> utcoff_from off ((t, off') # ts) u = off"
  by simp

text \<open>From a transition on, no wall clock is earlier than its reading there in the new offset.\<close>

lemma wall_after_trans:
  assumes "wf_trans off ((t, off') # ts)" "t \<le> u"
  shows "t + off' \<le> u + utcoff_from off' ts u"
  using assms
proof (induction ts arbitrary: off t off')
  case Nil
  then show ?case by simp
next
  case (Cons x ts)
  obtain t1 off1 where x: "x = (t1, off1)" by (cases x)
  show ?case
  proof (cases "t1 \<le> u")
    case True
    with Cons.prems x have "t1 + off1 \<le> u + utcoff_from off1 ts u"
      by (intro Cons.IH [of off']) simp_all
    with Cons.prems x True show ?thesis by (auto simp: min_def max_def split: if_splits)
  next
    case False
    with Cons.prems x show ?thesis by simp
  qed
qed

text \<open>
  The key lemma: the instant \<open>zoneinfo\<close> computes for a wall clock is the earliest one that
  shows it, and it shows it whenever some instant does.
\<close>

lemma walloff_earliest:
  assumes "wf_trans off ts" "u + utcoff_from off ts u = w"
  shows "w - walloff_from off ts w \<le> u \<and>
    (let v = w - walloff_from off ts w in v + utcoff_from off ts v = w)"
  using assms
proof (induction off ts w rule: walloff_from.induct)
  case (1 off w)
  then show ?case by simp
next
  case (2 off t off' ts w)
  show ?case
  proof (cases "t + max off off' \<le> w")
    case True
    have tu: "t \<le> u" using 2(3) True by (auto split: if_splits)
    have wf': "wf_trans off' ts" using 2(2) by (cases ts) auto
    have ih: "w - walloff_from off' ts w \<le> u \<and>
      (let v = w - walloff_from off' ts w in v + utcoff_from off' ts v = w)"
      using 2(1) [OF True wf'] 2(3) tu by simp
    have "t \<le> w - walloff_from off' ts w"
    proof (cases ts)
      case Nil
      with True show ?thesis by simp
    next
      case (Cons x ts')
      then obtain t1 off1 where x: "ts = (t1, off1) # ts'" by (cases x) auto
      let ?v = "w - walloff_from off' ts w"
      show ?thesis
      proof (rule ccontr)
        assume "\<not> t \<le> ?v"
        then have "?v < t1" using 2(2) x by simp
        then have "utcoff_from off' ts ?v = off'" using x by simp
        then have "?v = w - off'" using ih by (simp add: Let_def)
        with True \<open>\<not> t \<le> ?v\<close> show False by simp
      qed
    qed
    with ih True show ?thesis by (simp add: Let_def)
  next
    case False
    show ?thesis
    proof (cases "t \<le> u")
      case True
      \<comment> \<open>Only a transition backwards shows again what was shown before.\<close>
      have "t + off' \<le> w" using wall_after_trans [OF 2(2) True] 2(3) True by simp
      with False have "w - off < t" by (simp add: max_def split: if_splits)
      with False True show ?thesis by (simp add: Let_def)
    next
      case before: False
      with 2(3) have "u = w - off" by simp
      with before False show ?thesis by (simp add: Let_def)
    qed
  qed
qed

lemma from_local_earliest:
  assumes "wf_zone z" "to_local z u = w"
  shows "from_local z w \<le> u" and "to_local z (from_local z w) = w"
  using walloff_earliest [of "zone_base z" "zone_trans z" u w] assms
  by (simp_all add: wf_zone_def to_local_def from_local_def utcoffset_at_def walloffset_at_def Let_def)

end
