(* ===== verification/Facility_Constants.thy ===== *)
theory Facility_Constants imports Calendar begin

text \<open>
  The enumerations and constants of the booking domain (\<open>domain/facility/constants.py\<close>), and the
  few of the organisation and system domains the booking code reads. A \<open>str\<close> enumeration is a
  datatype with the members of the source; its \<open>.value\<close> is written out where the code works with
  the text (free-text columns, error envelopes).
\<close>

section \<open>Constants\<close>

definition BOOKING_RANGE_MAX_DAYS :: int where "BOOKING_RANGE_MAX_DAYS = 62"
definition PREVIEW_QUOTE_MAX_LINES :: nat where "PREVIEW_QUOTE_MAX_LINES = 3"
definition TIMETABLE_CELL_MINUTES :: int where "TIMETABLE_CELL_MINUTES = 30"
definition TIMETABLE_CELLS_PER_DAY :: int where "TIMETABLE_CELLS_PER_DAY = 48"

definition PENDING_PAYMENT_HOLD_EXPIRED_REASON :: string where
  "PENDING_PAYMENT_HOLD_EXPIRED_REASON = ''Pending-payment hold expired''"

definition CHURCH_EMAIL_DOMAIN :: string where
  "CHURCH_EMAIL_DOMAIN = ''efcnewlife.org''"

definition BOOKING_PAYMENT_RESOURCE_CODE :: string where
  "BOOKING_PAYMENT_RESOURCE_CODE = ''facility:booking_payment''"

section \<open>Enumerations\<close>

datatype booking_type = BT_ONE_TIME | BT_RECURRING

fun booking_type_value :: "booking_type \<Rightarrow> string" where
  "booking_type_value BT_ONE_TIME = ''one_time''"
| "booking_type_value BT_RECURRING = ''recurring''"

datatype booking_status = BS_DRAFT | BS_PENDING_PAYMENT | BS_CONFIRMED | BS_CANCELLED | BS_OVERRIDDEN

fun booking_status_value :: "booking_status \<Rightarrow> string" where
  "booking_status_value BS_DRAFT = ''draft''"
| "booking_status_value BS_PENDING_PAYMENT = ''pending_payment''"
| "booking_status_value BS_CONFIRMED = ''confirmed''"
| "booking_status_value BS_CANCELLED = ''cancelled''"
| "booking_status_value BS_OVERRIDDEN = ''overridden''"

datatype lifecycle_kind = LE_CREATED | LE_CANCELLED | LE_OVERRIDDEN | LE_PAYMENT_EXPIRED

datatype my_bookings_section = MB_UPCOMING | MB_OVERRIDDEN | MB_PAST | MB_CANCELLED_OR_EXPIRED

datatype card_kind = CK_ONE_TIME | CK_SERIES

datatype slot_status = SS_CONFIRMED | SS_CANCELLED

datatype billing_unit = BU_HOURLY | BU_DAILY_FLAT | BU_PER_SLOT | BU_FLAT_PER_BOOKING

fun billing_unit_value :: "billing_unit \<Rightarrow> string" where
  "billing_unit_value BU_HOURLY = ''hourly''"
| "billing_unit_value BU_DAILY_FLAT = ''daily_flat''"
| "billing_unit_value BU_PER_SLOT = ''per_slot''"
| "billing_unit_value BU_FLAT_PER_BOOKING = ''flat_per_booking''"

datatype discount_code = DC_RECURRING_WEEKLY_MONTHLY | DC_MISSION_ALIGNED

fun discount_code_value :: "discount_code \<Rightarrow> string" where
  "discount_code_value DC_RECURRING_WEEKLY_MONTHLY = ''recurring_weekly_monthly''"
| "discount_code_value DC_MISSION_ALIGNED = ''mission_aligned''"

datatype surcharge_charge_type = CT_FLAT | CT_PER_HOUR | CT_PER_PROGRAM

fun charge_type_value :: "surcharge_charge_type \<Rightarrow> string" where
  "charge_type_value CT_FLAT = ''flat''"
| "charge_type_value CT_PER_HOUR = ''per_hour''"
| "charge_type_value CT_PER_PROGRAM = ''per_program''"

datatype override_outcome = OO_OVERRIDE_APPLIED | OO_BOOKING_CANCELLED | OO_DISPLACED

datatype blackout_kind = BK_ONE_OFF | BK_RECURRING

fun blackout_kind_value :: "blackout_kind \<Rightarrow> string" where
  "blackout_kind_value BK_ONE_OFF = ''one_off''"
| "blackout_kind_value BK_RECURRING = ''recurring''"

datatype booking_error_code =
    SCHEDULING_CONFLICT | ROOM_BLACKOUT | OUTSIDE_OPENING_HOURS
  | OVERRIDE_REVIEW_REQUIRED | OVERRIDE_REVIEW_STALE | MINISTRY_ASSOCIATION_LOCKED

datatype facility_error_code =
    ROOM_NOT_FOUND | ROOM_CODE_EXISTS | SLOT_TEMPLATE_NOT_FOUND | SLOT_TEMPLATE_OVERLAP
  | BLACKOUT_NOT_FOUND | BLACKOUT_OVERLAP | RENTAL_RATE_NOT_FOUND | RENTAL_RATE_EXISTS
  | RENTAL_RATE_TEMPLATE_NOT_FOUND | RENTAL_RATE_TEMPLATE_NAME_EXISTS
  | RENTAL_RATE_TEMPLATE_IN_USE | BOOKING_NOT_FOUND | BOOKING_INVALID_TIME_RANGE
  | BOOKING_ROOMS_REQUIRED | BOOKING_MAX_ROOMS | BOOKING_MINISTRY_INACTIVE
  | BOOKING_RANGE_WINDOW_TOO_LARGE | BOOKING_LINE_CROSS_MIDNIGHT | BOOKING_LINES_NOT_SAME_DAY
  | BOOKING_DUPLICATE_LINE | BOOKING_DRAFT_NOT_FOUND | BOOKING_SERIES_DRAFT_NOT_FOUND
  | BOOKING_SERIES_DRAFT_NOT_CONFIRMABLE | BOOKING_TITLE_INVALID | BOOKING_CANCEL_REASON_INVALID
  | AVAILABILITY_DATE_IN_PAST | RECURRING_USE_PERIOD | RECURRING_AVAILABILITY_WINDOW
  | RECURRING_MIN_OCCURRENCES | RECURRING_WEEKDAY_MISMATCH | RECURRING_DST_NONEXISTENT
  | RECURRING_WEEKLY_QUOTA | RECURRING_NOT_ELIGIBLE | RECURRING_INVALID_TIME_RANGE
  | RECURRING_INVALID_EXCLUSION | RECURRING_MINISTRY_CONFLICT | BOOKING_SERIES_NOT_FOUND
  | BOOKING_SERIES_NOT_PENDING_PAYMENT | RECURRING_INVALID_CANCELLATION_SCOPE
  | RECURRING_OCCURRENCE_REQUIRED | RECURRING_OCCURRENCE_NOT_FOUND
  | RECURRING_HISTORICAL_OCCURRENCE | BLACKOUT_IMPACT_CONFIRMATION_REQUIRED
  | BLACKOUT_IMPACT_MISMATCH

datatype org_error_code =
    MINISTRY_NOT_FOUND | MINISTRY_PRIMARY_REQUIRED | MINISTRY_SECONDARY_REQUIRED | MINISTRY_NOT_PENDING_APPROVAL
  | MINISTRY_INVALID_STATUS_FOR_SUBMIT | MINISTRY_OWNER_POSITION_REQUIRED | MINISTRY_INVALID_TARGET_AUDIENCES
  | MINISTRY_ACCESS_FORBIDDEN | MINISTRY_APPROVAL_FORBIDDEN | MINISTRY_INVALID_STATUS_FOR_UPDATE
  | POSITION_NO_INCUMBENT | POSITION_NOT_FOUND | POSITION_CODE_EXISTS

text \<open>The code an error envelope carries, when it carries one.\<close>

datatype err_code = BCode booking_error_code | FCode facility_error_code | OCode org_error_code

datatype cancellation_scope = CS_OCCURRENCE | CS_THIS_AND_FUTURE | CS_ENTIRE_SERIES

fun cancellation_scope_value :: "cancellation_scope \<Rightarrow> string" where
  "cancellation_scope_value CS_OCCURRENCE = ''occurrence''"
| "cancellation_scope_value CS_THIS_AND_FUTURE = ''this_and_future''"
| "cancellation_scope_value CS_ENTIRE_SERIES = ''entire_series''"

datatype conflict_kind = KOCCUPANCY | KBLACKOUT | KOPENING_HOURS | KWEEKLY_QUOTA | KMINISTRY

datatype cell_state = CELL_AVAILABLE | CELL_UNAVAILABLE | CELL_OVERRIDE | CELL_CLOSED

datatype occupancy_kind = OK_MINISTRY | OK_RENTAL

datatype use_period = JAN_JUN | JUL_DEC

text \<open>\<open>domain/org/constants.py\<close>, \<open>domain/system/constants.py\<close>\<close>

datatype ministry_status = MS_DRAFT | MS_PENDING_APPROVAL | MS_ACTIVE | MS_REJECTED | MS_INACTIVE

datatype member_role = MR_PRIMARY | MR_SECONDARY

datatype approval_status = AP_PENDING | AP_APPROVED | AP_REJECTED

datatype decision_channel = DC_INCUMBENT | DC_STAFF

datatype availability_unit = AU_DAYS | AU_WEEKS | AU_MONTHS

section \<open>HTTP errors\<close>

text \<open>
  The statuses of the application exceptions (\<open>exceptions/responses\<close>). \<open>ValueErr\<close> is a plain
  \<open>ValueError\<close> of a domain helper and \<open>Integrity\<close> a constraint the database refuses; they
  reach a client only where no caller converts them.
\<close>

datatype http_kind = BadRequest | Forbidden | NotFound | Conflict | ValueErr | Integrity | Internal | AttributeErr

end
