(* ===== verification/Text_Rules.thy ===== *)
theory Text_Rules imports Facility_Constants begin

text \<open>
  Text and mask rules of the booking domain: what the code uses of Python's \<open>str\<close>, the title and
  cancellation-reason rules (\<open>booking_title.py\<close>, \<open>cancellation_reason.py\<close>), the managed discount
  percentage (\<open>discount_percent.py\<close>) and the weekday bitmask of templates and blackouts
  (\<open>days_of_week_mask.py\<close>).
\<close>

section \<open>Strings\<close>

text \<open>
  A \<open>str\<close> is a list of characters, the code points up to 255. \<open>lower\<close> and \<open>strip\<close> are
  Python's on them: the Latin-1 capitals move by 32, the white space is the characters
  \<open>str.isspace\<close> accepts.
\<close>

definition lower_char :: "char \<Rightarrow> char" where
  "lower_char c =
     (let n = of_char c :: nat
      in if (65 \<le> n \<and> n \<le> 90) \<or> (192 \<le> n \<and> n \<le> 222 \<and> n \<noteq> 215) then char_of (n + 32) else c)"

definition str_lower :: "string \<Rightarrow> string" where "str_lower s = map lower_char s"

definition is_space :: "char \<Rightarrow> bool" where
  "is_space c \<longleftrightarrow>
     (let n = of_char c :: nat in (9 \<le> n \<and> n \<le> 13) \<or> (28 \<le> n \<and> n \<le> 32) \<or> n = 133 \<or> n = 160)"

definition str_strip :: "string \<Rightarrow> string" where
  "str_strip s = rev (dropWhile is_space (rev (dropWhile is_space s)))"

definition str_endswith :: "string \<Rightarrow> string \<Rightarrow> bool" where
  "str_endswith s suffix \<longleftrightarrow>
     length suffix \<le> length s \<and> drop (length s - length suffix) s = suffix"

section \<open>Titles and cancellation reasons\<close>

definition BOOKING_TITLE_MIN_LENGTH :: nat where "BOOKING_TITLE_MIN_LENGTH = 1"
definition BOOKING_TITLE_MAX_LENGTH :: nat where "BOOKING_TITLE_MAX_LENGTH = 30"
definition MEMBER_CANCELLATION_REASON_MIN_LENGTH :: nat where "MEMBER_CANCELLATION_REASON_MIN_LENGTH = 1"
definition MEMBER_CANCELLATION_REASON_MAX_LENGTH :: nat where "MEMBER_CANCELLATION_REASON_MAX_LENGTH = 250"

text \<open>
  \<open>re.search("</?[A-Za-z][^>]*>", s)\<close>: some suffix starts with an opening bracket, perhaps a slash,
  a letter, and has a closing bracket later.
\<close>

definition ascii_letter :: "char \<Rightarrow> bool" where
  "ascii_letter c \<longleftrightarrow> (let n = of_char c :: nat in (65 \<le> n \<and> n \<le> 90) \<or> (97 \<le> n \<and> n \<le> 122))"

fun letter_then_close :: "string \<Rightarrow> bool" where
  "letter_then_close [] = False"
| "letter_then_close (c # cs) \<longleftrightarrow> ascii_letter c \<and> CHR ''>'' \<in> set cs"

fun tag_at_start :: "string \<Rightarrow> bool" where
  "tag_at_start [] = False"
| "tag_at_start (c # cs) \<longleftrightarrow>
     c = CHR ''<'' \<and> letter_then_close (case cs of [] \<Rightarrow> [] | d # ds \<Rightarrow> if d = CHR ''/'' then ds else cs)"

fun has_html_tag :: "string \<Rightarrow> bool" where
  "has_html_tag [] = False"
| "has_html_tag (c # cs) \<longleftrightarrow> tag_at_start (c # cs) \<or> has_html_tag cs"

datatype title_error = TITLE_LENGTH | TITLE_NOT_PLAIN

definition normalize_booking_title :: "string \<Rightarrow> title_error + string" where
  "normalize_booking_title value =
     (let trimmed = str_strip value
      in raise_if (length trimmed < BOOKING_TITLE_MIN_LENGTH \<or> length trimmed > BOOKING_TITLE_MAX_LENGTH) TITLE_LENGTH
        (raise_if (has_html_tag trimmed) TITLE_NOT_PLAIN
          (Inr trimmed)))"

definition as_optional_booking_title :: "string option \<Rightarrow> title_error + string option" where
  "as_optional_booking_title value =
     (case value of None \<Rightarrow> Inr None
      | Some v \<Rightarrow> bindE (normalize_booking_title v) (\<lambda>t. Inr (Some t)))"

text \<open>None stands for \<open>InvalidMemberCancellationReason\<close>.\<close>

definition normalize_member_cancellation_reason :: "string \<Rightarrow> string option" where
  "normalize_member_cancellation_reason value =
     (let trimmed = str_strip value
      in if length trimmed < MEMBER_CANCELLATION_REASON_MIN_LENGTH
            \<or> length trimmed > MEMBER_CANCELLATION_REASON_MAX_LENGTH then None
         else Some trimmed)"

section \<open>Discount percentages\<close>

text \<open>
  Here the representation of a finite \<open>Decimal\<close> matters, \<open>coefficient * 10 ** exponent\<close>: the
  number of decimal places is its exponent, so that 5.000 has three.
\<close>

datatype decimal_rep = DecimalRep (coefficient: int) (exponent: int)

definition decimal_value :: "decimal_rep \<Rightarrow> dec" where
  "decimal_value a =
     (if 0 \<le> exponent a then of_int (coefficient a) * 10 ^ nat (exponent a)
      else of_int (coefficient a) / 10 ^ nat (- exponent a))"

datatype percent_error = PERCENT_OUT_OF_BOUNDS | PERCENT_TOO_PRECISE

definition normalize_discount_percent :: "decimal_rep \<Rightarrow> percent_error + decimal_rep" where
  "normalize_discount_percent amount =
     raise_if (decimal_value amount < 0 \<or> decimal_value amount > 100) PERCENT_OUT_OF_BOUNDS
       (raise_if (exponent amount < - 2) PERCENT_TOO_PRECISE
         (Inr amount))"

section \<open>Weekday masks\<close>

unbundle bit_operations_syntax

definition VALID_DAY_MASK :: int where "VALID_DAY_MASK = 127"

definition day_to_bit :: "int \<Rightarrow> int option" where
  "day_to_bit day = (if day < 0 \<or> day > 6 then None else Some (push_bit (nat day) 1))"

fun or_days :: "int \<Rightarrow> int list \<Rightarrow> int option" where
  "or_days m [] = Some m"
| "or_days m (day # days) =
     (case day_to_bit day of None \<Rightarrow> None | Some b \<Rightarrow> or_days (m OR b) days)"

definition days_to_mask :: "int list \<Rightarrow> int option" where
  "days_to_mask days =
     (if days = [] then None
      else (let unique_days = sorted_list_of_set (set days) in or_days 0 unique_days))"

definition mask_to_days :: "int \<Rightarrow> int list option" where
  "mask_to_days m =
     (if m \<le> 0 \<or> m AND NOT VALID_DAY_MASK \<noteq> 0 then None
      else Some (filter (\<lambda>day. case day_to_bit day of None \<Rightarrow> False | Some b \<Rightarrow> m AND b \<noteq> 0) [0..6]))"

definition masks_share_day :: "int \<Rightarrow> int \<Rightarrow> bool" where
  "masks_share_day left right \<longleftrightarrow> left AND right \<noteq> 0"

section \<open>Lemmas\<close>

lemma dropWhile_ends:
  "xs \<noteq> [] \<Longrightarrow> \<not> P (hd xs) \<Longrightarrow> dropWhile P xs = xs"
  by (cases xs) simp_all

lemma strip_last_hd:
  assumes "str_strip s \<noteq> []"
  shows "\<not> is_space (hd (str_strip s))" "\<not> is_space (last (str_strip s))"
proof -
  let ?d = "dropWhile is_space s"
  let ?e = "dropWhile is_space (rev ?d)"
  have e: "?e \<noteq> []" using assms by (simp add: str_strip_def)
  have "last (str_strip s) = hd ?e" by (simp add: str_strip_def last_rev)
  then show "\<not> is_space (last (str_strip s))" using hd_dropWhile [OF e] by simp
  obtain zs where zs: "rev ?d = zs @ ?e" by (metis takeWhile_dropWhile_id)
  then have "?d = rev ?e @ rev zs" by (metis rev_append rev_rev_ident)
  then have "hd ?d = hd (rev ?e @ rev zs)" by (rule arg_cong)
  then have "hd (str_strip s) = hd ?d" using e by (simp only: str_strip_def hd_append rev_is_Nil_conv if_False)
  moreover have "?d \<noteq> []" using e by (metis dropWhile.simps(1) rev.simps(1))
  ultimately show "\<not> is_space (hd (str_strip s))" using hd_dropWhile [of is_space s] by simp
qed

lemma str_strip_idem [simp]: "str_strip (str_strip s) = str_strip s"
proof (cases "str_strip s = []")
  case True
  then show ?thesis by (simp add: str_strip_def [of "[]"])
next
  case False
  note ends = strip_last_hd [OF False]
  have "dropWhile is_space (str_strip s) = str_strip s" using False ends by (simp add: dropWhile_ends)
  moreover have "dropWhile is_space (rev (str_strip s)) = rev (str_strip s)"
    using False ends by (intro dropWhile_ends) (simp_all add: hd_rev)
  ultimately show ?thesis by (simp add: str_strip_def [of "str_strip s"])
qed

lemma normalize_booking_title_Inr:
  "normalize_booking_title v = Inr t \<longleftrightarrow>
     t = str_strip v \<and> 1 \<le> length t \<and> length t \<le> 30 \<and> \<not> has_html_tag t"
  by (auto simp: normalize_booking_title_def Let_def guard_simps Suc_le_eq
      BOOKING_TITLE_MIN_LENGTH_def BOOKING_TITLE_MAX_LENGTH_def)

lemma normalize_booking_title_fix:
  "normalize_booking_title v = Inr t \<Longrightarrow> normalize_booking_title t = Inr t"
  by (clarsimp simp add: normalize_booking_title_Inr)

lemma normalize_reason_Some:
  "normalize_member_cancellation_reason v = Some t \<longleftrightarrow> t = str_strip v \<and> 1 \<le> length t \<and> length t \<le> 250"
  by (auto simp: normalize_member_cancellation_reason_def Let_def Suc_le_eq
      MEMBER_CANCELLATION_REASON_MIN_LENGTH_def MEMBER_CANCELLATION_REASON_MAX_LENGTH_def)

text \<open>A tag is an opening bracket followed by the shape of the regular expression.\<close>

lemma has_html_tag_append: "has_html_tag t \<Longrightarrow> has_html_tag (s @ t)"
  by (induction s) simp_all

lemma tag_rejected:
  assumes "ascii_letter c"
  shows "has_html_tag (s @ CHR ''<'' # c # u @ CHR ''>'' # v)"
    and "has_html_tag (s @ CHR ''<'' # CHR ''/'' # c # u @ CHR ''>'' # v)"
proof -
  have c: "c \<noteq> CHR ''/''" using assms by (auto simp: ascii_letter_def)
  show "has_html_tag (s @ CHR ''<'' # c # u @ CHR ''>'' # v)"
    by (rule has_html_tag_append) (simp add: assms c)
  show "has_html_tag (s @ CHR ''<'' # CHR ''/'' # c # u @ CHR ''>'' # v)"
    by (rule has_html_tag_append) (simp add: assms)
qed

subsection \<open>Masks\<close>

lemma or_days_bits:
  assumes "\<forall>d\<in>set days. 0 \<le> d \<and> d \<le> 6"
  shows "\<exists>m. or_days k days = Some m \<and> (\<forall>n. bit m n \<longleftrightarrow> bit k n \<or> int n \<in> set days)"
  using assms
proof (induction days arbitrary: k)
  case Nil
  then show ?case by simp
next
  case (Cons d days)
  have b: "day_to_bit d = Some (push_bit (nat d) 1)" using Cons.prems by (simp add: day_to_bit_def)
  have "bit ((2::int) ^ nat d) n \<longleftrightarrow> int n = d" for n
    using Cons.prems by (auto simp: bit_exp_iff)
  then show ?case
    using Cons.IH [of "k OR push_bit (nat d) 1"] Cons.prems
    by (auto simp: b bit_or_iff)
qed

lemma or_days_None:
  "(\<exists>d\<in>set days. d < 0 \<or> 6 < d) \<Longrightarrow> or_days k days = None"
  by (induction days arbitrary: k) (auto simp: day_to_bit_def)

lemma valid_mask_bits: "m AND NOT VALID_DAY_MASK = 0 \<longleftrightarrow> (\<forall>n. bit m n \<longrightarrow> n \<le> 6)"
proof -
  have v: "VALID_DAY_MASK = mask 7" by (simp add: VALID_DAY_MASK_def mask_eq_exp_minus_1)
  have "bit (NOT VALID_DAY_MASK) n \<longleftrightarrow> 7 \<le> n" for n
    unfolding v bit_not_iff bit_mask_iff by auto
  then have "bit (m AND NOT VALID_DAY_MASK) n \<longleftrightarrow> bit m n \<and> 7 \<le> n" for n
    by (simp add: bit_and_iff)
  then have "m AND NOT VALID_DAY_MASK = 0 \<longleftrightarrow> (\<forall>n. \<not> (bit m n \<and> 7 \<le> n))"
    by (simp add: bit_eq_iff)
  also have "\<dots> \<longleftrightarrow> (\<forall>n. bit m n \<longrightarrow> n \<le> 6)" 
  proof -
    have "\<not> 7 \<le> n \<longleftrightarrow> n \<le> 6" for n :: nat by linarith
    then show ?thesis by blast
  qed
  finally show ?thesis .
qed

lemma and_day_bit: "m AND 2 ^ n = (0::int) \<longleftrightarrow> \<not> bit m n"
  by (rule and_exp_eq_0_iff_not_bit)

lemma mask_to_days_bits:
  "mask_to_days m =
     (if m \<le> 0 \<or> m AND NOT VALID_DAY_MASK \<noteq> 0 then None
      else Some (filter (\<lambda>d. bit m (nat d)) [0..6]))"
proof -
  have "filter (\<lambda>day. case day_to_bit day of None \<Rightarrow> False | Some b \<Rightarrow> m AND b \<noteq> 0) [0..6] =
      filter (\<lambda>d. bit m (nat d)) [0..6]"
    by (rule filter_cong) (auto simp: day_to_bit_def and_day_bit)
  then show ?thesis by (simp add: mask_to_days_def)
qed

section \<open>Properties\<close>

text \<open>
  Weekday masks round-trip: encoding a list of ISO weekdays and decoding the mask returns its days
  once each in ascending order, and the encoding fails exactly on the empty list and on a day outside
  0 to 6.
\<close>

lemma days_to_mask_roundtrip:
  "case days_to_mask days of
     None \<Rightarrow> days = [] \<or> (\<exists>d\<in>set days. d < 0 \<or> 6 < d)
   | Some m \<Rightarrow> days \<noteq> [] \<and> mask_to_days m = Some (sorted_list_of_set (set days))"
proof (cases "days = [] \<or> (\<exists>d\<in>set days. d < 0 \<or> 6 < d)")
  case True
  then show ?thesis
  proof (cases "days = []")
    case False
    with True have "or_days 0 (sorted_list_of_set (set days)) = None" by (intro or_days_None) simp
    with True False show ?thesis by (simp add: days_to_mask_def)
  qed (simp add: days_to_mask_def)
next
  case False
  then have range: "\<forall>d\<in>set (sorted_list_of_set (set days)). 0 \<le> d \<and> d \<le> 6"
    by (auto simp: not_less)
  from or_days_bits [OF range, of 0] obtain m where
    m: "or_days 0 (sorted_list_of_set (set days)) = Some m" "\<And>n. bit m n \<longleftrightarrow> int n \<in> set days"
    by auto
  have small: "m AND NOT VALID_DAY_MASK = 0" using range by (auto simp: valid_mask_bits m(2))
  have "m = take_bit 7 m"
    by (rule bit_eqI) (use range in \<open>auto simp: bit_take_bit_iff m(2)\<close>)
  then have nonneg: "0 \<le> m" by (metis take_bit_nonnegative)
  have "hd days \<in> set days" "0 \<le> hd days" using False by (auto simp: not_less)
  then have "bit m (nat (hd days))" by (simp add: m(2))
  then have pos: "0 < m" using nonneg by (cases "m = 0") auto
  have "filter (\<lambda>d. bit m (nat d)) [0..6] = sorted_list_of_set (set days)"
  proof (rule sorted_distinct_set_unique)
    show "set (filter (\<lambda>d. bit m (nat d)) [0..6]) = set (sorted_list_of_set (set days))"
      using range by (auto simp: m(2))
  qed (simp_all add: sorted_wrt_filter)
  with pos small have "mask_to_days m = Some (sorted_list_of_set (set days))"
    by (simp add: mask_to_days_bits)
  with False m(1) show ?thesis by (simp add: days_to_mask_def)
qed

text \<open>
  An accepted title is 1 to 30 characters without surrounding white space and contains no HTML
  tag; it is the submitted text without its surrounding white space, normalising it again changes
  nothing, and any text with a tag in it is refused.
\<close>

lemma normalize_booking_title_correct:
  "(normalize_booking_title v = Inr t \<longrightarrow>
      t = str_strip v \<and> length t \<in> {1..30} \<and> \<not> is_space (hd t) \<and> \<not> is_space (last t) \<and>
      normalize_booking_title t = Inr t) \<and>
   (ascii_letter c \<longrightarrow> str_strip v = s @ CHR ''<'' # slash @ c # u @ CHR ''>'' # w \<longrightarrow>
      slash = [] \<or> slash = ''/'' \<longrightarrow> (\<exists>e. normalize_booking_title v = Inl e))"
proof (intro conjI impI)
  assume n: "normalize_booking_title v = Inr t"
  then have t: "t = str_strip v" "1 \<le> length t" "length t \<le> 30"
    unfolding normalize_booking_title_Inr by blast+
  then have "str_strip v \<noteq> []" by auto
  then show "t = str_strip v" "length t \<in> {1..30}" "\<not> is_space (hd t)" "\<not> is_space (last t)"
    using t strip_last_hd [of v] by simp_all
  show "normalize_booking_title t = Inr t" using n by (rule normalize_booking_title_fix)
next
  assume "ascii_letter c" "str_strip v = s @ CHR ''<'' # slash @ c # u @ CHR ''>'' # w"
    and "slash = [] \<or> slash = ''/''"
  then have "has_html_tag (str_strip v)" using tag_rejected [of c s u w] by auto
  then have "normalize_booking_title v \<noteq> Inr t'" for t' by (auto simp: normalize_booking_title_Inr)
  then show "\<exists>e. normalize_booking_title v = Inl e" by (cases "normalize_booking_title v") auto
qed

end
