(* ===== verification/Recurring_Domain.thy ===== *)
theory Recurring_Domain imports Text_Rules begin

text \<open>
  The pure date, window and hold rules of a Recurring Booking Series
  (\<open>domain/facility/recurring.py\<close>) and the My Bookings classification
  (\<open>domain/facility/my_bookings.py\<close>). A local datetime is its wall clock: the comparisons of
  \<open>is_within_availability_window\<close> and \<open>classify_my_bookings_section\<close> are between values of one
  \<open>tzinfo\<close>, which Python compares by wall clock. A helper that raises \<open>ValueError\<close> returns None.
\<close>

section \<open>Recurring Booking periods\<close>

definition use_period_for_date :: "date \<Rightarrow> use_period" where
  "use_period_for_date occurrence_date = (if date_month occurrence_date \<le> 6 then JAN_JUN else JUL_DEC)"

definition opening_date_for_period :: "use_period \<Rightarrow> int \<Rightarrow> date" where
  "opening_date_for_period period period_year =
     (if period = JAN_JUN then ymd2ord (period_year - 1) 12 1 else ymd2ord period_year 6 1)"

definition add_availability_duration :: "date \<Rightarrow> int \<Rightarrow> string \<Rightarrow> date" where
  "add_availability_duration start amount unit =
     (if unit = ''days'' then start + amount
      else if unit = ''weeks'' then start + 7 * amount
      else (let month_index = date_month start - 1 + amount;
                year = date_year start + month_index div 12;
                month = month_index mod 12 + 1;
                day = min (date_day start) (days_in_month year month)
            in ymd2ord year month day))"

definition is_within_availability_window :: "wall \<Rightarrow> date \<Rightarrow> int \<Rightarrow> string \<Rightarrow> bool" where
  "is_within_availability_window now_local opening amount unit =
     (let window_start = combine opening 0;
          window_end = combine (add_availability_duration opening amount unit) 0
      in window_start \<le> now_local \<and> now_local < window_end)"

definition is_first_occurrence_in_availability_window :: "wall \<Rightarrow> date \<Rightarrow> int \<Rightarrow> string \<Rightarrow> bool" where
  "is_first_occurrence_in_availability_window now_local first_occurrence_date amount unit =
     (let period = use_period_for_date first_occurrence_date;
          opening = opening_date_for_period period (date_year first_occurrence_date)
      in is_within_availability_window now_local opening amount unit)"

text \<open>\<open>for year in range(now.year - 1, now.year + 3): for period in RecurringUsePeriod\<close>\<close>

definition nearby_openings :: "wall \<Rightarrow> date list" where
  "nearby_openings now_local =
     concat (map (\<lambda>year. map (\<lambda>period. opening_date_for_period period year) [JAN_JUN, JUL_DEC])
       [date_year (wall_date now_local) - 1 .. date_year (wall_date now_local) + 2])"

definition is_any_recurring_period_open :: "wall \<Rightarrow> int \<Rightarrow> string \<Rightarrow> bool" where
  "is_any_recurring_period_open now_local amount unit =
     list_ex (\<lambda>opening. is_within_availability_window now_local opening amount unit)
       (nearby_openings now_local)"

definition next_recurring_opening_date :: "wall \<Rightarrow> date option" where
  "next_recurring_opening_date now_local =
     (let candidates = filter (\<lambda>opening. combine opening 0 > now_local) (nearby_openings now_local)
      in if candidates = [] then None else Some (fold min (tl candidates) (hd candidates)))"

section \<open>Occurrence dates and quota weeks\<close>

function weekly_occurrence_dates :: "date \<Rightarrow> date \<Rightarrow> date list" where
  "weekly_occurrence_dates current last_occurrence_date =
     (if current \<le> last_occurrence_date
      then current # weekly_occurrence_dates (current + 7) last_occurrence_date
      else [])"
  by pat_completeness auto
termination by (relation "measure (\<lambda>(current, last). nat (last + 1 - current))") auto

declare weekly_occurrence_dates.simps [simp del]

definition sunday_week_start :: "date \<Rightarrow> date" where
  "sunday_week_start occurrence_date = occurrence_date - (weekday occurrence_date + 1) mod 7"

section \<open>Local times and payment holds\<close>

definition localize_wall_time :: "zone \<Rightarrow> date \<Rightarrow> tod \<Rightarrow> instant option" where
  "localize_wall_time tz occurrence_date local_time =
     (let naive = combine occurrence_date local_time;
          earlier = from_local tz naive;
          roundtrip = to_local tz earlier
      in if roundtrip \<noteq> naive then None else Some earlier)"

definition NOON :: tod where "NOON = 12 * HOUR_US"

definition calendar_day_payment_hold_expires_at :: "instant \<Rightarrow> int \<Rightarrow> zone \<Rightarrow> instant option" where
  "calendar_day_payment_hold_expires_at now hold_days tz =
     (let local = to_local tz now;
          target_date = wall_date local + hold_days
      in if wall_time local < NOON then localize_wall_time tz target_date NOON
         else localize_wall_time tz (target_date + 1) 0)"

definition is_pending_payment_hold_active :: "instant option \<Rightarrow> instant \<Rightarrow> bool" where
  "is_pending_payment_hold_active payment_hold_expires_at now =
     (case payment_hold_expires_at of None \<Rightarrow> True | Some expires \<Rightarrow> expires > now)"

definition is_logically_occupying :: "booking_status \<Rightarrow> instant option \<Rightarrow> instant \<Rightarrow> bool" where
  "is_logically_occupying booking_status payment_hold_expires_at now =
     (if booking_status = BS_CONFIRMED then True
      else if booking_status \<noteq> BS_PENDING_PAYMENT then False
      else is_pending_payment_hold_active payment_hold_expires_at now)"

section \<open>Member mail addresses\<close>

definition is_church_email :: "string option \<Rightarrow> string \<Rightarrow> bool" where
  "is_church_email email domain =
     (case email of None \<Rightarrow> False
      | Some e \<Rightarrow>
          if CHR ''@'' \<notin> set e then False
          else str_lower (rev (takeWhile (\<lambda>c. c \<noteq> CHR ''@'') (rev e))) = str_lower domain)"

definition is_test_booker_allowlisted :: "string option \<Rightarrow> string list \<Rightarrow> string list \<Rightarrow> bool" where
  "is_test_booker_allowlisted email email_addresses email_suffixes =
     (case email of None \<Rightarrow> False
      | Some e \<Rightarrow>
          if e = [] then False
          else (let candidate = str_lower (str_strip e)
                in if candidate \<in> set email_addresses then True
                   else list_ex (str_endswith candidate) email_suffixes))"

section \<open>My Bookings\<close>

definition classify_my_bookings_section ::
  "booking_status \<Rightarrow> instant \<Rightarrow> instant option \<Rightarrow> instant \<Rightarrow> zone \<Rightarrow> my_bookings_section option" where
  "classify_my_bookings_section status end_at payment_hold_expires_at now facility_tz =
     (if status = BS_OVERRIDDEN then Some MB_OVERRIDDEN
      else if status = BS_CANCELLED then Some MB_CANCELLED_OR_EXPIRED
      else if status = BS_PENDING_PAYMENT \<and> \<not> is_pending_payment_hold_active payment_hold_expires_at now
      then Some MB_CANCELLED_OR_EXPIRED
      else if status \<notin> {BS_CONFIRMED, BS_PENDING_PAYMENT} then None
      else if to_local facility_tz end_at > to_local facility_tz now then Some MB_UPCOMING
      else Some MB_PAST)"

section \<open>Lemmas\<close>

subsection \<open>Occurrence dates\<close>

lemma set_weekly_occurrence_dates:
  "set (weekly_occurrence_dates a b) = {d. a \<le> d \<and> d \<le> b \<and> 7 dvd (d - a)}"
proof (induction a b rule: weekly_occurrence_dates.induct)
  case (1 a b)
  show ?case
  proof (cases "a \<le> b")
    case True
    have split: "a \<le> d \<and> d \<le> b \<and> 7 dvd (d - a) \<longleftrightarrow>
        d = a \<or> (a + 7 \<le> d \<and> d \<le> b \<and> 7 dvd (d - (a + 7)))" for d
    proof -
      have "7 dvd (d - a) \<longleftrightarrow> 7 dvd (d - (a + 7))"
        using dvd_add_left_iff [of 7 7 "d - (a + 7)"] by (simp add: algebra_simps)
      moreover have "a < d \<Longrightarrow> 7 dvd (d - a) \<Longrightarrow> a + 7 \<le> d"
        using zdvd_imp_le [of 7 "d - a"] by simp
      ultimately show ?thesis using True by auto
    qed
    show ?thesis
      unfolding weekly_occurrence_dates.simps [of a b]
      using True 1 by (auto simp: split)
  next
    case False
    then show ?thesis by (auto simp: weekly_occurrence_dates.simps [of a b])
  qed
qed

lemma sorted_weekly_occurrence_dates: "sorted_wrt (<) (weekly_occurrence_dates a b)"
proof (induction a b rule: weekly_occurrence_dates.induct)
  case (1 a b)
  then show ?case
    by (subst weekly_occurrence_dates.simps) (auto simp: set_weekly_occurrence_dates)
qed

lemma distinct_weekly_occurrence_dates [simp]: "distinct (weekly_occurrence_dates a b)"
  using sorted_weekly_occurrence_dates [of a b] by (simp add: strict_sorted_iff)

lemma weekday_weekly_occurrence_dates:
  "d \<in> set (weekly_occurrence_dates a b) \<Longrightarrow> weekday d = weekday a"
  by (simp add: set_weekly_occurrence_dates weekday_eq_iff dvd_diff_commute)

lemma sunday_week_start_bounds:
  "sunday_week_start d \<le> d" "d \<le> sunday_week_start d + 6" "weekday (sunday_week_start d) = 6"
proof -
  have "(d + 6 + 1) mod 7 = d mod 7" by (simp add: add.assoc)
  then have s: "sunday_week_start d = d - d mod 7"
    by (simp add: sunday_week_start_def weekday_def mod_add_left_eq)
  show "sunday_week_start d \<le> d" "d \<le> sunday_week_start d + 6" unfolding s by simp_all
  have "d - d mod 7 = 7 * (d div 7)" by (simp add: minus_mod_eq_mult_div)
  then show "weekday (sunday_week_start d) = 6" unfolding s weekday_def by simp
qed

lemma sunday_week_start_unique:
  assumes "s \<le> d" "d \<le> s + 6" "weekday s = 6"
  shows "sunday_week_start d = s"
proof -
  have "7 dvd (sunday_week_start d - s)"
    using sunday_week_start_bounds(3) [of d] assms(3) by (metis weekday_eq_iff)
  then obtain k where k: "sunday_week_start d - s = 7 * k" by (auto simp: dvd_def)
  have "- 1 < k" "k < 1" using k sunday_week_start_bounds(1,2) [of d] assms(1,2) by linarith+
  then have "k = 0" by simp
  with k show ?thesis by simp
qed

subsection \<open>Periods\<close>

lemma opening_year:
  "date_year (opening_date_for_period JAN_JUN y) = y - 1"
  "date_year (opening_date_for_period JUL_DEC y) = y"
  by (simp_all add: opening_date_for_period_def valid_ymd_def days_in_month_def month_len_def month_days_def)

lemma opening_year_range:
  "y - 1 \<le> date_year (opening_date_for_period p y)" "date_year (opening_date_for_period p y) \<le> y"
  by (cases p; simp add: opening_year)+

lemma date_year_less: "date_year d < date_year d' \<Longrightarrow> d < d'"
  using date_year_mono [of d' d] by linarith

lemma set_nearby_openings:
  "set (nearby_openings now) =
     {opening_date_for_period p y | p y.
        date_year (wall_date now) - 1 \<le> y \<and> y \<le> date_year (wall_date now) + 2}"
proof -
  have range: "set [JAN_JUN, JUL_DEC] = UNIV" using use_period.exhaust by auto
  have "set (nearby_openings now) =
      (\<Union>y\<in>{date_year (wall_date now) - 1 .. date_year (wall_date now) + 2}.
        (\<lambda>p. opening_date_for_period p y) ` UNIV)"
    unfolding nearby_openings_def set_concat set_map range set_upto image_image by simp
  then show ?thesis by auto blast
qed

lemma within_window_iff:
  "is_within_availability_window now opening amount unit \<longleftrightarrow>
     opening \<le> wall_date now \<and> wall_date now < add_availability_duration opening amount unit"
  by (simp add: is_within_availability_window_def Let_def midnight_le_wall wall_less_midnight)

lemma year_plus_365: "date_year (d + 365) \<le> date_year d + 1"
proof -
  have "days_before_year (date_year d + 1 + 1) = days_before_year (date_year d + 1) + year_days (date_year d + 1)"
    by (rule days_before_year_Suc)
  moreover have "365 \<le> year_days (date_year d + 1)" by (simp add: year_days_def)
  ultimately have "d + 365 \<le> days_before_year (date_year d + 2)"
    using date_year_bounds(2) [of d] by (simp add: add.commute)
  then show ?thesis
    using date_year_bounds(1) [of "d + 365"] days_before_year_mono [of "date_year d + 2" "date_year (d + 365)"]
    by linarith
qed

lemma fold_min_list: "fold min xs (x :: int) = Min (insert x (set xs))"
  using Min.set_eq_fold [of x xs] by simp

subsection \<open>Localisation\<close>

lemma localize_wall_time_Some:
  assumes "localize_wall_time tz d t = Some u"
  shows "to_local tz u = combine d t"
  using assms by (auto simp: localize_wall_time_def Let_def split: if_splits)

lemma localize_wall_time_Some_parts:
  assumes "localize_wall_time tz d t = Some u" "valid_tod t"
  shows "wall_date (to_local tz u) = d" "wall_time (to_local tz u) = t"
  using localize_wall_time_Some [OF assms(1)] assms(2) by simp_all

lemma localize_wall_time_earliest:
  assumes "wf_zone tz" "to_local tz v = combine d t"
  shows "\<exists>u. localize_wall_time tz d t = Some u \<and> u \<le> v"
  using from_local_earliest [OF assms] by (simp add: localize_wall_time_def Let_def)

subsection \<open>Holds\<close>

lemma is_pending_payment_hold_active_simps [simp]:
  "is_pending_payment_hold_active None now"
  "is_pending_payment_hold_active (Some e) now \<longleftrightarrow> now < e"
  by (simp_all add: is_pending_payment_hold_active_def)

lemma is_logically_occupying_iff:
  "is_logically_occupying s h now \<longleftrightarrow>
     s = BS_CONFIRMED \<or> s = BS_PENDING_PAYMENT \<and> is_pending_payment_hold_active h now"
  by (auto simp: is_logically_occupying_def)

lemma hold_wall_span:
  assumes "calendar_day_payment_hold_expires_at now hold_days tz = Some e"
  shows "to_local tz now + hold_days * DAY_US < to_local tz e"
    and "to_local tz e \<le> to_local tz now + hold_days * DAY_US + NOON"
proof -
  define l where "l = to_local tz now"
  have l: "wall_date l * DAY_US + wall_time l = l" using combine_wall [of l] by (simp add: combine_def)
  have t: "0 \<le> wall_time l" "wall_time l < DAY_US" using valid_wall_time [of l] by (simp_all add: valid_tod_def)
  have noon: "2 * NOON = DAY_US" "0 < NOON" by (simp_all add: NOON_def HOUR_US_def DAY_US_def)
  have "to_local tz e = (if wall_time l < NOON then combine (wall_date l + hold_days) NOON
      else combine (wall_date l + hold_days + 1) 0)"
    using assms localize_wall_time_Some
    by (auto simp: calendar_day_payment_hold_expires_at_def Let_def l_def split: if_splits)
  then have "l + hold_days * DAY_US < to_local tz e \<and> to_local tz e \<le> l + hold_days * DAY_US + NOON"
    using l t noon by (auto simp: combine_def distrib_right split: if_splits)
  then show "to_local tz now + hold_days * DAY_US < to_local tz e"
    and "to_local tz e \<le> to_local tz now + hold_days * DAY_US + NOON"
    by (simp_all add: l_def)
qed

section \<open>Properties\<close>

text \<open>
  C33. A local time is localised exactly when the facility's clocks show it at some instant, and then
  to the earliest such instant: an ambiguous time takes the earlier offset, a time skipped by the
  clocks raises.
\<close>

theorem localize_wall_time_exact:
  assumes "wf_zone tz"
  shows "localize_wall_time tz d t = Some u \<longleftrightarrow>
    to_local tz u = combine d t \<and> (\<forall>v. to_local tz v = combine d t \<longrightarrow> u \<le> v)"
proof
  assume some: "localize_wall_time tz d t = Some u"
  have "u \<le> v" if "to_local tz v = combine d t" for v
    using localize_wall_time_earliest [OF assms that] some by simp
  then show "to_local tz u = combine d t \<and> (\<forall>v. to_local tz v = combine d t \<longrightarrow> u \<le> v)"
    using localize_wall_time_Some [OF some] by blast
next
  assume r: "to_local tz u = combine d t \<and> (\<forall>v. to_local tz v = combine d t \<longrightarrow> u \<le> v)"
  then obtain u' where u': "localize_wall_time tz d t = Some u'" "u' \<le> u"
    using localize_wall_time_earliest [OF assms] by blast
  with r have "u \<le> u'" using localize_wall_time_Some [OF u'(1)] by blast
  with u' show "localize_wall_time tz d t = Some u" by simp
qed

text \<open>Toronto around the two clock changes of 2026: one second after the first the clocks show 3:00.\<close>

definition toronto_2026 :: zone where
  "toronto_2026 =
     \<lparr>zone_base = - 5 * HOUR_US,
      zone_trans = [(combine (ymd2ord 2026 3 8) (7 * HOUR_US), - 4 * HOUR_US),
                    (combine (ymd2ord 2026 11 1) (6 * HOUR_US), - 5 * HOUR_US)]\<rparr>"

lemma wf_toronto_2026: "wf_zone toronto_2026"
  by code_simp

theorem localize_wall_time_exact_witness:
  "localize_wall_time toronto_2026 (ymd2ord 2026 11 1) HOUR_US =
     Some (combine (ymd2ord 2026 11 1) (5 * HOUR_US)) \<and>
   localize_wall_time toronto_2026 (ymd2ord 2026 3 8) (2 * HOUR_US) = None \<and>
   {v. to_local toronto_2026 v = combine (ymd2ord 2026 11 1) HOUR_US} \<subseteq>
     {combine (ymd2ord 2026 11 1) (5 * HOUR_US)..}"
proof -
  have a: "localize_wall_time toronto_2026 (ymd2ord 2026 11 1) HOUR_US =
      Some (combine (ymd2ord 2026 11 1) (5 * HOUR_US))" by code_simp
  have b: "localize_wall_time toronto_2026 (ymd2ord 2026 3 8) (2 * HOUR_US) = None" by code_simp
  from a b localize_wall_time_exact [OF wf_toronto_2026, of "ymd2ord 2026 11 1" HOUR_US
      "combine (ymd2ord 2026 11 1) (5 * HOUR_US)"]
  show ?thesis by blast
qed

text \<open>
  The search over nearby years loses nothing: with a window of at most a year, Recurring Booking
  is announced as open exactly when the window of some period of some year contains the local day.
\<close>

lemma is_any_recurring_period_open_complete:
  assumes "\<And>opening. add_availability_duration opening amount unit \<le> opening + 365"
  shows "is_any_recurring_period_open now amount unit \<longleftrightarrow>
    (\<exists>p y. opening_date_for_period p y \<le> wall_date now \<and>
       wall_date now < add_availability_duration (opening_date_for_period p y) amount unit)"
proof
  assume "is_any_recurring_period_open now amount unit"
  then show "\<exists>p y. opening_date_for_period p y \<le> wall_date now \<and>
       wall_date now < add_availability_duration (opening_date_for_period p y) amount unit"
    by (auto simp: is_any_recurring_period_open_def list_ex_iff set_nearby_openings within_window_iff)
next
  assume "\<exists>p y. opening_date_for_period p y \<le> wall_date now \<and>
       wall_date now < add_availability_duration (opening_date_for_period p y) amount unit"
  then obtain p y where py: "opening_date_for_period p y \<le> wall_date now"
      "wall_date now < add_availability_duration (opening_date_for_period p y) amount unit"
    by blast
  let ?o = "opening_date_for_period p y" and ?Y = "date_year (wall_date now)"
  have "?Y \<le> date_year (?o + 365)" using py(2) assms [of ?o] by (intro date_year_mono) simp
  then have hi: "?Y - 1 \<le> y" using year_plus_365 [of ?o] opening_year_range(2) [of p y] by simp
  have lo: "y \<le> ?Y + 2" using date_year_mono [OF py(1)] opening_year_range(1) [of y p] by simp
  have "?o \<in> set (nearby_openings now)" using hi lo by (auto simp: set_nearby_openings)
  then show "is_any_recurring_period_open now amount unit"
    using py by (auto simp: is_any_recurring_period_open_def list_ex_iff within_window_iff)
qed

text \<open>
  The next opening shown to a member exists and is the first opening of any period in any year
  that is still ahead of the local clock.
\<close>

lemma next_recurring_opening_date_first:
  "\<exists>next p y. next_recurring_opening_date now = Some next \<and> next = opening_date_for_period p y \<and>
     wall_date now < next \<and>
     (\<forall>p' y'. wall_date now < opening_date_for_period p' y' \<longrightarrow> next \<le> opening_date_for_period p' y')"
proof -
  let ?Y = "date_year (wall_date now)" and ?o = opening_date_for_period
  define cs where "cs = filter (\<lambda>opening. combine opening 0 > now) (nearby_openings now)"
  have ahead: "now < combine d 0 \<longleftrightarrow> wall_date now < d" for d by (rule wall_less_midnight)
  have set_cs: "set cs = {?o p y | p y. ?Y - 1 \<le> y \<and> y \<le> ?Y + 2 \<and> wall_date now < ?o p y}"
    by (auto simp: cs_def set_nearby_openings ahead)
  have last: "?o JAN_JUN (?Y + 2) \<in> set cs"
    unfolding set_cs using date_year_less [of "wall_date now" "?o JAN_JUN (?Y + 2)"]
    by (simp add: opening_year) (use order_refl in fastforce)
  then have ne: "cs \<noteq> []" by auto
  then have "fold min (tl cs) (hd cs) = Min (set cs)"
    by (cases cs) (simp_all add: fold_min_list)
  then have nxt: "next_recurring_opening_date now = Some (Min (set cs))"
    using ne by (simp add: next_recurring_opening_date_def cs_def [symmetric])
  have mem: "Min (set cs) \<in> set cs" using ne by (simp add: Min_in)
  have least: "Min (set cs) \<le> ?o p y" if "wall_date now < ?o p y" for p y
  proof (cases "?Y - 1 \<le> y \<and> y \<le> ?Y + 2")
    case True
    with that have "?o p y \<in> set cs" unfolding set_cs by blast
    then show ?thesis by simp
  next
    case False
    have "\<not> y < ?Y - 1"
      using that date_year_mono [of "wall_date now" "?o p y"] opening_year_range(2) [of p y] by simp
    with False have "date_year (?o JAN_JUN (?Y + 2)) < date_year (?o p y)"
      using opening_year_range(1) [of y p] by (simp add: opening_year)
    then have "?o JAN_JUN (?Y + 2) < ?o p y" by (rule date_year_less)
    moreover have "Min (set cs) \<le> ?o JAN_JUN (?Y + 2)" using last by simp
    ultimately show ?thesis by simp
  qed
  from mem obtain p y where "Min (set cs) = ?o p y" "wall_date now < ?o p y"
    unfolding set_cs by auto
  with nxt least show ?thesis by metis
qed


lemma toronto_2026_spread: "utcoffset_at toronto_2026 u - utcoffset_at toronto_2026 v \<le> HOUR_US"
  by (simp add: utcoffset_at_def toronto_2026_def HOUR_US_def)


end
