(* ===== verification/Rate_Rules.thy ===== *)
theory Rate_Rules imports Facility_Constants begin

text \<open>
  The declarative rules that decide whether a rental rate applies
  (\<open>domain/facility/rate_applicability.py\<close>). A stored rule is the JSON object as pydantic reads it:
  a tree of the model classes, or \<open>App_Malformed\<close> where the type adapter raises
  \<open>ValidationError\<close>. An empty or absent object never gets here, \<open>coerce_applicability_from_db\<close>
  turns it into None.
\<close>

datatype rule_node =
    HoursGteRule dec
  | HoursLtRule dec
  | HoursRangeRule (range_min: dec) (range_max: dec) (range_max_exclusive: bool)
  | AllRule "rule_node list"
  | AnyRule "rule_node list"
  | NotRule rule_node

datatype applicability = App_Rule rule_node | App_Malformed

text \<open>What the models accept: \<open>validate_bounds\<close> of a range, at least one child of a combination.\<close>

fun valid_rule :: "rule_node \<Rightarrow> bool" where
  "valid_rule (HoursGteRule v) = True"
| "valid_rule (HoursLtRule v) = True"
| "valid_rule (HoursRangeRule mn mx ex) \<longleftrightarrow> \<not> (mn < 0 \<or> mx < 0) \<and> \<not> mn \<ge> mx"
| "valid_rule (AllRule children) \<longleftrightarrow> children \<noteq> [] \<and> list_all valid_rule children"
| "valid_rule (AnyRule children) \<longleftrightarrow> children \<noteq> [] \<and> list_all valid_rule children"
| "valid_rule (NotRule child) = valid_rule child"

text \<open>\<open>RateSelectionContext\<close> carries the billed hours only.\<close>

fun eval_node :: "rule_node \<Rightarrow> dec \<Rightarrow> bool" where
  "eval_node (HoursGteRule v) billed_hours = (billed_hours \<ge> v)"
| "eval_node (HoursLtRule v) billed_hours = (billed_hours < v)"
| "eval_node (HoursRangeRule mn mx ex) billed_hours =
     (if billed_hours < mn then False
      else if ex then billed_hours < mx
      else billed_hours \<le> mx)"
| "eval_node (AllRule children) billed_hours = list_all (\<lambda>child. eval_node child billed_hours) children"
| "eval_node (AnyRule children) billed_hours = list_ex (\<lambda>child. eval_node child billed_hours) children"
| "eval_node (NotRule child) billed_hours = (\<not> eval_node child billed_hours)"

definition matches_applicability :: "applicability option \<Rightarrow> dec \<Rightarrow> bool" where
  "matches_applicability rule billed_hours =
     (case rule of None \<Rightarrow> True
      | Some App_Malformed \<Rightarrow> False
      | Some (App_Rule node) \<Rightarrow> eval_node node billed_hours)"

section \<open>Lemmas\<close>

text \<open>A range is the conjunction of its bounds; the combinators obey De Morgan's law.\<close>

lemma eval_range:
  "eval_node (HoursRangeRule mn mx True) h =
     eval_node (AllRule [HoursGteRule mn, HoursLtRule mx]) h"
  by auto

lemma eval_not_all:
  "eval_node (NotRule (AllRule rs)) h = eval_node (AnyRule (map NotRule rs)) h"
  by (induction rs) auto

lemma eval_not_any:
  "eval_node (NotRule (AnyRule rs)) h = eval_node (AllRule (map NotRule rs)) h"
  by (induction rs) auto

text \<open>A valid half-open range is never empty, and consecutive ranges tile the hours.\<close>

lemma valid_range_nonempty:
  "valid_rule (HoursRangeRule mn mx ex) \<Longrightarrow> eval_node (HoursRangeRule mn mx ex) mn"
  by simp

lemma ranges_tile:
  assumes "valid_rule (HoursRangeRule a b True)" "valid_rule (HoursRangeRule b c True)"
  shows "eval_node (HoursRangeRule a c True) h \<longleftrightarrow>
    (eval_node (HoursRangeRule a b True) h \<noteq> eval_node (HoursRangeRule b c True) h)"
  using assms by auto

lemma malformed_never_matches [simp]: "\<not> matches_applicability (Some App_Malformed) h"
  by (simp add: matches_applicability_def)

lemma no_rule_matches [simp]: "matches_applicability None h"
  by (simp add: matches_applicability_def)

end
