(* ===== verification/Facility_Model.thy ===== *)
theory Facility_Model imports Recurring_Domain Rate_Rules begin

text \<open>
  The data of the booking application: the table rows (\<open>models/facility\<close>, \<open>models/org\<close>), the
  commands (\<open>application/facility/commands.py\<close>) and results (\<open>application/facility/results.py\<close>).
  A field keeps the name of its column behind a prefix of the record. Audit columns that no
  operation reads are left out.
\<close>

section \<open>Rows\<close>

record booking =
  bk_id :: uuid
  bk_user_id :: uuid
  bk_title :: string
  bk_series_id :: "uuid option"
  bk_facility_id :: "uuid option"
  bk_ministry_id :: "uuid option"
  bk_booking_type :: booking_type
  bk_start_at :: instant
  bk_end_at :: instant
  bk_status :: booking_status
  bk_is_mission_aligned :: bool
  bk_billed_hours :: "dec option"
  bk_subtotal_amount :: "dec option"
  bk_discount_percent :: "dec option"
  bk_discount_amount :: "dec option"
  bk_surcharge_amount :: "dec option"
  bk_quoted_amount :: "dec option"
  bk_currency :: "string option"
  bk_cancelled_at :: "instant option"
  bk_cancelled_by_id :: "uuid option"
  bk_cancel_reason :: "string option"
  bk_remark :: "string option"
  bk_created_at :: instant
  bk_is_deleted :: bool

record room_line =
  rl_id :: uuid
  rl_booking_id :: uuid
  rl_facility_id :: uuid
  rl_sequence :: int
  rl_start_at :: instant
  rl_end_at :: instant
  rl_billed_hours :: "dec option"
  rl_rental_rate_name :: "string option"
  rl_billing_unit :: "string option"
  rl_unit_amount :: "dec option"
  rl_currency :: "string option"
  rl_applicability :: "applicability option"
  rl_is_default :: "bool option"
  rl_line_subtotal :: "dec option"

record slot =
  sl_id :: uuid
  sl_booking_id :: uuid
  sl_facility_id :: uuid
  sl_start_at :: instant
  sl_end_at :: instant
  sl_status :: slot_status

record series =
  se_id :: uuid
  se_user_id :: uuid
  se_title :: string
  se_ministry_id :: "uuid option"
  se_first_occurrence_date :: date
  se_last_occurrence_date :: date
  se_local_start_time :: tod
  se_local_end_time :: tod
  se_status :: booking_status
  se_payment_hold_expires_at :: "instant option"
  se_billed_hours :: "dec option"
  se_subtotal_amount :: "dec option"
  se_discount_percent :: "dec option"
  se_discount_amount :: "dec option"
  se_surcharge_amount :: "dec option"
  se_quoted_amount :: "dec option"
  se_currency :: "string option"
  se_is_mission_aligned :: bool
  se_is_priority :: bool
  se_remark :: "string option"
  se_updated_by_id :: "uuid option"
  se_created_at :: instant
  se_is_deleted :: bool

record override_log =
  ol_id :: uuid
  ol_facility_booking_id :: uuid
  ol_overridden_booking_id :: "uuid option"
  ol_overridden_by_id :: uuid
  ol_facility_id :: uuid
  ol_outcome :: override_outcome
  ol_reason :: "string option"

text \<open>The people: \<open>auth.user\<close> with its profile, and the translated texts of a ministry.\<close>

record user_row =
  us_id :: uuid
  us_email :: string
  us_preferred_name :: "string option"
  us_first_name :: "string option"
  us_last_name :: "string option"
  us_has_profile :: bool
  us_is_deleted :: bool

record translation =
  tr_locale_id :: uuid
  tr_name :: string
  tr_description :: "string option"
  tr_remark :: "string option"
  tr_schedule_note :: "string option"

record ministry =
  mi_id :: uuid
  mi_owner_position_id :: "uuid option"
  mi_ministry_type_id :: "uuid option"
  mi_status :: ministry_status
  mi_has_priority_booking :: bool
  mi_is_active :: bool
  mi_sequence :: dec
  mi_submitted_at :: "instant option"
  mi_submitted_by_id :: "uuid option"
  mi_approved_at :: "instant option"
  mi_approved_by_id :: "uuid option"
  mi_rejected_at :: "instant option"
  mi_rejected_by_id :: "uuid option"
  mi_rejection_reason :: "string option"
  mi_translations :: "translation list"
  mi_is_deleted :: bool

record ministry_member =
  mm_ministry_id :: uuid
  mm_user_id :: uuid
  mm_role :: member_role
  mm_remark :: "string option"
  mm_contact_email :: "string option"

record ministry_approval =
  ma_id :: uuid
  ma_ministry_id :: uuid
  ma_owner_position_id :: "uuid option"
  ma_status :: approval_status
  ma_requested_by_id :: "uuid option"
  ma_resolved_by_id :: "uuid option"
  ma_decided_at :: "instant option"
  ma_comment :: "string option"

record ministry_schedule =
  mh_ministry_id :: uuid
  mh_days_of_week_mask :: "int option"
  mh_start_time :: "tod option"
  mh_end_time :: "tod option"
  mh_effective_from :: "date option"
  mh_effective_to :: "date option"
  mh_sequence :: dec

text \<open>\<open>team\<close> and \<open>office\<close> are stored with every translation of a position.\<close>

record position_translation =
  pt_locale_id :: uuid
  pt_team :: string
  pt_office :: string
  pt_name :: string

record position =
  po_id :: uuid
  po_code :: string
  po_can_own_ministry :: bool
  po_is_active :: bool
  po_sequence :: dec
  po_translations :: "position_translation list"
  po_is_deleted :: bool

record position_assignment =
  pa_position_id :: uuid
  pa_user_id :: uuid
  pa_start_at :: instant
  pa_end_at :: "instant option"

record locale_row =
  lo_id :: uuid
  lo_is_active :: bool
  lo_is_deleted :: bool

text \<open>A row of the catalogs of ministry types and target audiences.\<close>

record catalog_row =
  ct_id :: uuid
  ct_code :: string
  ct_is_active :: bool

record room_row =
  rm_id :: uuid
  rm_code :: string
  rm_room_number :: "string option"
  rm_capacity :: "int option"
  rm_sequence :: dec
  rm_translations :: "translation list"
  rm_is_active :: bool
  rm_is_deleted :: bool

record slot_template =
  st_id :: uuid
  st_facility_id :: uuid
  st_name :: string
  st_days_of_week_mask :: int
  st_start_time :: tod
  st_end_time :: tod
  st_slot_duration_minutes :: int
  st_is_active :: bool
  st_effective_from :: "date option"
  st_effective_to :: "date option"
  st_is_deleted :: bool

record blackout =
  bo_id :: uuid
  bo_facility_id :: "uuid option"
  bo_name :: string
  bo_reason :: string
  bo_kind :: string
  bo_blackout_date :: "date option"
  bo_days_of_week_mask :: "int option"
  bo_start_time :: tod
  bo_end_time :: tod
  bo_is_active :: bool
  bo_effective_from :: "date option"
  bo_effective_to :: "date option"
  bo_is_deleted :: bool

record rate_template =
  rt_id :: uuid
  rt_name :: string
  rt_billing_unit :: string
  rt_applicability :: "applicability option"
  rt_unit_amount :: dec
  rt_currency :: string
  rt_is_default :: bool
  rt_is_active :: bool
  rt_is_deleted :: bool

record rate_binding =
  rb_id :: uuid
  rb_facility_id :: uuid
  rb_template_id :: uuid
  rb_is_active :: bool
  rb_is_deleted :: bool

record discount_rule =
  dr_id :: uuid
  dr_code :: string
  dr_percent_off :: dec
  dr_description :: "string option"
  dr_is_active :: bool
  dr_is_deleted :: bool

record surcharge =
  su_id :: uuid
  su_code :: string
  su_charge_type :: string
  su_unit_amount :: dec
  su_currency :: string
  su_applies_to_booking_type :: "string option"
  su_remark :: "string option"
  su_is_active :: bool
  su_is_deleted :: bool

record file_row =
  fi_id :: uuid
  fi_content_type :: "string option"
  fi_is_deleted :: bool

record file_association =
  fa_file_id :: uuid
  fa_resource_id :: uuid
  fa_resource_name :: string
  fa_sequence :: nat

record draft_row =
  df_id :: uuid
  df_user_id :: uuid
  df_title :: string
  df_date :: date
  df_ministry_id :: "uuid option"

record draft_line =
  dl_id :: uuid
  dl_draft_id :: uuid
  dl_facility_id :: uuid
  dl_start_at :: instant
  dl_end_at :: instant
  dl_sequence :: int

record series_draft =
  sd_id :: uuid
  sd_user_id :: uuid
  sd_title :: "string option"
  sd_ministry_id :: "uuid option"
  sd_first_occurrence_date :: date
  sd_last_occurrence_date :: date
  sd_local_start_time :: tod
  sd_local_end_time :: tod
  sd_is_mission_aligned :: bool
  sd_remark :: "string option"
  sd_surcharge_codes :: "string list"
  sd_excluded_dates :: "date list"

record series_draft_room =
  dm_id :: uuid
  dm_series_draft_id :: uuid
  dm_facility_id :: uuid
  dm_sequence :: int

section \<open>Commands\<close>

record room_line_command =
  rc_facility_id :: uuid
  rc_start_at :: "instant option"
  rc_end_at :: "instant option"
  rc_sequence :: int

record create_booking_command =
  cb_title :: "string option"
  cb_start_at :: instant
  cb_end_at :: instant
  cb_ministry_id :: "uuid option"
  cb_user_id :: "uuid option"
  cb_rooms :: "room_line_command list"
  cb_surcharge_codes :: "string list"
  cb_remark :: "string option"
  cb_booking_draft_id :: "uuid option"
  cb_enforce_opening_hours :: bool
  cb_allow_priority_override :: bool
  cb_override_review_token :: "string option"

text \<open>None in \<open>ub_ministry_id\<close>: the field was not submitted (\<open>model_fields_set\<close>).\<close>

record update_booking_command =
  ub_title :: string
  ub_ministry_id :: "uuid option option"
  ub_surcharge_codes :: "string list"

record cancel_booking_command =
  xb_scope :: string
  xb_cancel_reason :: "string option"

record update_title_command =
  ut_title :: string

record cancel_series_command =
  xs_scope :: string
  xs_occurrence_id :: "uuid option"
  xs_cancel_reason :: "string option"

record create_series_command =
  cs_title :: "string option"
  cs_user_id :: "uuid option"
  cs_ministry_id :: "uuid option"
  cs_first_occurrence_date :: date
  cs_last_occurrence_date :: date
  cs_local_start_time :: tod
  cs_local_end_time :: tod
  cs_rooms :: "room_line_command list"
  cs_surcharge_codes :: "string list"
  cs_remark :: "string option"
  cs_excluded_dates :: "date list"
  cs_enforce_opening_hours :: bool
  cs_require_override_review :: bool
  cs_override_review_token :: "string option"

record preview_line_command =
  pl_facility_id :: uuid
  pl_start_at :: instant
  pl_end_at :: instant

record member_preview_command =
  mp_ministry_id :: "uuid option"
  mp_currency :: string
  mp_surcharge_codes :: "string list"
  mp_lines :: "preview_line_command list"

record quote_line_command =
  ql_facility_id :: uuid
  ql_billed_hours :: dec

record preview_quote_command =
  pq_booking_type :: booking_type
  pq_currency :: string
  pq_as_of_date :: "date option"
  pq_room_lines :: "quote_line_command list"
  pq_surcharge_codes :: "string list"
  pq_ministry_id :: "uuid option"
  pq_booker_id :: "uuid option"

record eligibility_command =
  ec_booking_type :: booking_type
  ec_ministry_id :: "uuid option"
  ec_booker_id :: "uuid option"

record range_query_command =
  rq_date_from :: instant
  rq_date_to :: instant
  rq_include_cancelled :: bool

record browse_query_command =
  bq_section :: my_bookings_section
  bq_page :: nat
  bq_page_size :: nat

definition changes_ministry_association :: "update_booking_command \<Rightarrow> uuid option \<Rightarrow> bool" where
  "changes_ministry_association command stored_ministry_id =
     (case ub_ministry_id command of None \<Rightarrow> False
      | Some submitted \<Rightarrow> submitted \<noteq> stored_ministry_id)"

section \<open>Results\<close>

record rate_result =
  rr_id :: uuid
  rr_facility_id :: "uuid option"
  rr_template_id :: uuid
  rr_is_active :: bool
  rr_unit_amount :: dec
  rr_currency :: string
  rr_template_name :: "string option"
  rr_billing_unit :: "string option"
  rr_applicability :: "applicability option"
  rr_is_default :: bool
  rr_template_is_active :: bool

record eligibility_result =
  el_discount_code :: "string option"
  el_discount_percent :: dec
  el_is_free_ministry :: bool

record quote_line_result =
  qr_facility_id :: uuid
  qr_billed_hours :: dec
  qr_rental_rate_name :: "string option"
  qr_billing_unit :: "string option"
  qr_unit_amount :: "dec option"
  qr_currency :: string
  qr_applicability :: "applicability option"
  qr_is_default :: bool
  qr_line_subtotal :: dec

record quote_result =
  qt_subtotal_amount :: dec
  qt_discount_code :: "string option"
  qt_discount_percent :: dec
  qt_discount_amount :: dec
  qt_surcharge_amount :: dec
  qt_quoted_amount :: dec
  qt_currency :: string
  qt_is_free_ministry :: bool
  qt_room_lines :: "quote_line_result list"

record released_interval =
  ri_facility_id :: uuid
  ri_start_at :: instant
  ri_end_at :: instant

record override_impact =
  im_booking_id :: uuid
  im_is_series_occurrence :: bool
  im_start_at :: instant
  im_end_at :: instant
  im_released_intervals :: "released_interval list"

record booking_conflict =
  bc_facility_id :: uuid
  bc_start_at :: instant
  bc_end_at :: instant
  bc_kind :: conflict_kind
  bc_ministry_name :: "string option"
  bc_contact_display_name :: "string option"
  bc_contact_email :: "string option"

record occupying =
  oc_booking_id :: uuid
  oc_user_id :: uuid
  oc_ministry_id :: "uuid option"
  oc_ministry_name :: "string option"
  oc_facility_ids :: "uuid list"
  oc_start_at :: instant
  oc_end_at :: instant
  oc_booker_display_name :: "string option"
  oc_booker_email :: "string option"
  oc_series_id :: "uuid option"

record series_conflict =
  sc_occurrence_date :: date
  sc_kind :: conflict_kind
  sc_facility_ids :: "uuid list"
  sc_is_overridable :: bool
  sc_occupying_bookings :: "occupying list"
  sc_ministry_id :: "uuid option"
  sc_ministry_steward_display_name :: "string option"
  sc_ministry_steward_email :: "string option"
  sc_booker_display_name :: "string option"
  sc_booker_email :: "string option"

record occurrence_result =
  or_id :: uuid
  or_title :: string
  or_start_at :: instant
  or_end_at :: instant
  or_status :: booking_status
  or_quoted_amount :: "dec option"
  or_currency :: "string option"
  or_facility_ids :: "uuid list"
  or_is_free_ministry :: bool

record series_result =
  sr_id :: uuid
  sr_title :: string
  sr_user_id :: uuid
  sr_user_email :: "string option"
  sr_user_display_name :: "string option"
  sr_ministry_id :: "uuid option"
  sr_ministry_name :: "string option"
  sr_remark :: "string option"
  sr_first_occurrence_date :: date
  sr_last_occurrence_date :: date
  sr_local_start_time :: tod
  sr_local_end_time :: tod
  sr_status :: booking_status
  sr_payment_hold_expires_at :: "instant option"
  sr_quoted_amount :: dec
  sr_currency :: string
  sr_occurrence_count :: nat
  sr_is_priority :: bool
  sr_is_free_ministry :: bool
  sr_confirmed_by_id :: "uuid option"
  sr_created_at :: "instant option"
  sr_occurrences :: "occurrence_result list"

record blackout_impact_item =
  bi_id :: uuid
  bi_series_id :: uuid
  bi_start_at :: instant
  bi_end_at :: instant
  bi_status :: booking_status
  bi_facility_ids :: "uuid list"
  bi_ministry_id :: "uuid option"

record blackout_impact =
  bx_confirmation_required :: bool
  bx_items :: "blackout_impact_item list"

record override_notification_item =
  ni_booking_id :: uuid
  ni_booker_id :: uuid
  ni_occurrence_date :: date
  ni_facility_ids :: "uuid list"
  ni_church_activity_booking_id :: uuid

record override_notification =
  nt_series_id :: "uuid option"
  nt_ministry_id :: uuid
  nt_church_activity_name :: string
  nt_church_activity_name_zh :: string
  nt_actor_id :: uuid
  nt_items :: "override_notification_item list"

definition affected_booker_ids :: "override_notification \<Rightarrow> uuid list" where
  "affected_booker_ids n =
     foldl (\<lambda>seen item. if ni_booker_id item \<in> set seen then seen else seen @ [ni_booker_id item]) [] (nt_items n)"

record expiry_notification =
  xn_series_id :: uuid
  xn_booker_id :: uuid
  xn_quoted_amount :: dec
  xn_currency :: string
  xn_occurrences :: "occurrence_result list"

section \<open>Exceptions\<close>

text \<open>
  What an error envelope shows besides its code: the room it is about and the conflicts, in the form
  the service serialises them (one-time conflicts, or the member-safe form of series conflicts).
\<close>

record member_safe_conflict =
  ms_occurrence_date :: date
  ms_kind :: conflict_kind
  ms_facility_ids :: "uuid list"
  ms_is_overridable :: bool
  ms_ministry_id :: "uuid option"
  ms_ministry_steward_display_name :: "string option"
  ms_ministry_steward_email :: "string option"
  ms_booker_display_name :: "string option"
  ms_booker_email :: "string option"

datatype err_context =
    CtxNone
  | CtxId uuid
  | CtxConflicts uuid "booking_conflict list"
  | CtxSeriesConflicts "uuid option" "(uuid \<times> string option \<times> string option) option" "member_safe_conflict list"
  | CtxDraft uuid "err_code option" "member_safe_conflict list"
  | CtxText string
  | CtxBinding uuid uuid

record exn =
  ex_kind :: http_kind
  ex_code :: "err_code option"
  ex_context :: err_context

abbreviation raise_exn :: "http_kind \<Rightarrow> err_code option \<Rightarrow> err_context \<Rightarrow> exn" where
  "raise_exn k c x \<equiv> \<lparr>ex_kind = k, ex_code = c, ex_context = x\<rparr>"

abbreviation bad_request :: "facility_error_code \<Rightarrow> exn" where
  "bad_request c \<equiv> raise_exn BadRequest (Some (FCode c)) CtxNone"

abbreviation bad_request_plain :: exn where
  "bad_request_plain \<equiv> raise_exn BadRequest None CtxNone"

abbreviation forbidden :: exn where
  "forbidden \<equiv> raise_exn Forbidden None CtxNone"

abbreviation not_found :: "facility_error_code \<Rightarrow> err_context \<Rightarrow> exn" where
  "not_found c x \<equiv> raise_exn NotFound (Some (FCode c)) x"

end
