(* ===== verification/Facility_Db.thy ===== *)
theory Facility_Db imports Facility_Model "HOL-Library.Char_ord" "HOL-Library.List_Lexorder" begin

text \<open>
  The state the services share: \<open>db\<close> is the content of the tables, \<open>env\<close> what a request sees
  besides them (the user and request contexts, the clocks, the settings). The read operations of the
  ministry, rental and room repositories follow; a query is a filter and an ordering of rows, its
  unordered result comes in table order, and an \<open>order_by\<close> of text is by code point.

  Three clocks are kept apart, as in the code: \<open>en_now_utc\<close> of the services, \<open>en_sql_now\<close> of the
  database (\<open>now()\<close>, the start of the transaction) and \<open>en_repo_now\<close> of the repositories.
  \<open>uuid4()\<close> takes the next number of a supply.
\<close>

section \<open>The database and the request\<close>

datatype hook = HookOverride override_notification

text \<open>The tables only the administration of rooms and ministries reads and writes.\<close>

record org_tables =
  og_approvals :: "ministry_approval list"
  og_schedules :: "ministry_schedule list"
  og_ministry_types :: "catalog_row list"
  og_audiences :: "catalog_row list"
  og_ministry_audiences :: "(uuid \<times> uuid) list"
  og_positions :: "position list"
  og_assignments :: "position_assignment list"
  og_locales :: "locale_row list"

record db =
  db_bookings :: "booking list"
  db_lines :: "room_line list"
  db_slots :: "slot list"
  db_series :: "series list"
  db_override_logs :: "override_log list"
  db_drafts :: "draft_row list"
  db_draft_lines :: "draft_line list"
  db_series_drafts :: "series_draft list"
  db_series_draft_rooms :: "series_draft_room list"
  db_users :: "user_row list"
  db_rooms :: "room_row list"
  db_ministries :: "ministry list"
  db_members :: "ministry_member list"
  db_org :: org_tables
  db_slot_templates :: "slot_template list"
  db_blackouts :: "blackout list"
  db_rate_templates :: "rate_template list"
  db_rate_bindings :: "rate_binding list"
  db_discount_rules :: "discount_rule list"
  db_surcharges :: "surcharge list"
  db_files :: "file_row list"
  db_file_associations :: "file_association list"
  db_default_locale_id :: "uuid option"
  db_after_commit :: "hook list"
  db_next_uuid :: uuid

record facility_settings =
  set_facility_timezone :: zone
  set_max_booking_lines :: int
  set_pending_payment_hold_days :: int
  set_min_recurring_booking_weeks :: int
  set_window_amount :: int
  set_window_unit :: string
  set_test_window_override :: bool
  set_allowlist_addresses :: "string list"
  set_allowlist_suffixes :: "string list"

record env =
  en_user_id :: "uuid option"
  en_user_email :: "string option"
  en_locale_id :: "uuid option"
  en_now_utc :: instant
  en_sql_now :: instant
  en_repo_now :: instant
  en_is_prod :: bool
  en_settings :: facility_settings

text \<open>A handler reads the request and the tables; raising discards the writes (rollback).\<close>

type_synonym 'a handler = "env \<Rightarrow> db \<Rightarrow> exn + ('a \<times> db)"

definition fresh_uuid :: "db \<Rightarrow> uuid \<times> db" where
  "fresh_uuid s = (db_next_uuid s, s\<lparr>db_next_uuid := db_next_uuid s + 1\<rparr>)"

section \<open>Names\<close>

text \<open>\<open>max\<close> of a column over a group: NULL when there is nothing to take it of.\<close>

definition sql_max :: "string list \<Rightarrow> string option" where
  "sql_max xs = (case xs of [] \<Rightarrow> None | x # xs' \<Rightarrow> Some (fold max xs' x))"

text \<open>\<open>coalesce\<close> takes the first value that is not NULL.\<close>

fun coalesce :: "'a option list \<Rightarrow> 'a option" where
  "coalesce [] = None"
| "coalesce (Some x # xs) = Some x"
| "coalesce (None # xs) = coalesce xs"

definition ministry_name_fallback :: "db \<Rightarrow> uuid option \<Rightarrow> translation list \<Rightarrow> string option" where
  "ministry_name_fallback s locale_id trs =
     (let name_in = (\<lambda>l. sql_max (map tr_name (filter (\<lambda>t. Some (tr_locale_id t) = l) trs)));
          default_locale_name = (if db_default_locale_id s = None then None else name_in (db_default_locale_id s));
          any_name = sql_max (map tr_name trs)
      in if locale_id \<noteq> None then coalesce [name_in locale_id, default_locale_name, any_name]
         else coalesce [default_locale_name, any_name])"

definition find_ministry :: "db \<Rightarrow> uuid \<Rightarrow> ministry option" where
  "find_ministry s i = List.find (\<lambda>m. mi_id m = i) (db_ministries s)"

text \<open>The scalar subquery a booking row selects its ministry's name with.\<close>

definition ministry_name_subquery :: "db \<Rightarrow> uuid option \<Rightarrow> uuid option \<Rightarrow> string option" where
  "ministry_name_subquery s locale_id ministry_id =
     (case ministry_id of None \<Rightarrow> None
      | Some i \<Rightarrow>
          (case find_ministry s i of None \<Rightarrow> None
           | Some m \<Rightarrow> ministry_name_fallback s locale_id (mi_translations m)))"

definition find_user :: "db \<Rightarrow> uuid \<Rightarrow> user_row option" where
  "find_user s i = List.find (\<lambda>u. us_id u = i) (db_users s)"

definition sql_trim :: "string \<Rightarrow> string" where
  "sql_trim x = rev (dropWhile (\<lambda>c. c = CHR '' '') (rev (dropWhile (\<lambda>c. c = CHR '' '') x)))"

definition nullif_empty :: "string \<Rightarrow> string option" where
  "nullif_empty x = (if x = [] then None else Some x)"

definition profile_field :: "user_row \<Rightarrow> (user_row \<Rightarrow> string option) \<Rightarrow> string option" where
  "profile_field u f = (if us_has_profile u then f u else None)"

definition display_name_expr :: "user_row \<Rightarrow> string option" where
  "display_name_expr u =
     (let text = (\<lambda>f. case profile_field u f of None \<Rightarrow> [] | Some x \<Rightarrow> x)
      in coalesce [profile_field u us_preferred_name,
                   nullif_empty (sql_trim (text us_first_name @ '' '' @ text us_last_name)),
                   Some (us_email u)])"

text \<open>\<open>get_sensitive_by_id\<close> joins the profile; only the mail address is read here.\<close>

definition user_sensitive_email :: "db \<Rightarrow> uuid \<Rightarrow> string option" where
  "user_sensitive_email s user_id =
     map_option us_email
       (List.find (\<lambda>u. us_id u = user_id \<and> us_has_profile u \<and> \<not> us_is_deleted u) (db_users s))"

text \<open>Python's \<open>a or b\<close> on optional text: None and the empty text are false.\<close>

definition truthy :: "string option \<Rightarrow> bool" where
  "truthy x \<longleftrightarrow> x \<noteq> None \<and> x \<noteq> Some []"

definition py_or :: "string option \<Rightarrow> string option \<Rightarrow> string option" where
  "py_or a b = (if truthy a then a else b)"

section \<open>Ministries\<close>

definition ministry_get_status :: "db \<Rightarrow> uuid \<Rightarrow> ministry_status option" where
  "ministry_get_status s ministry_id =
     map_option mi_status
       (List.find (\<lambda>m. mi_id m = ministry_id \<and> \<not> mi_is_deleted m) (db_ministries s))"

definition is_user_booking_member :: "db \<Rightarrow> uuid \<Rightarrow> uuid \<Rightarrow> bool" where
  "is_user_booking_member s ministry_id user_id =
     list_ex (\<lambda>m. mm_ministry_id m = ministry_id \<and> mm_user_id m = user_id \<and>
                mm_role m \<in> {MR_PRIMARY, MR_SECONDARY}) (db_members s)"

record member_result =
  mr_user_id :: uuid
  mr_role :: member_role
  mr_contact_email :: "string option"
  mr_email :: "string option"
  mr_display_name :: "string option"

definition ministry_list_members :: "db \<Rightarrow> uuid \<Rightarrow> member_result list" where
  "ministry_list_members s ministry_id =
     map (\<lambda>m. case find_user s (mm_user_id m) of
            None \<Rightarrow> \<lparr>mr_user_id = mm_user_id m, mr_role = mm_role m, mr_contact_email = mm_contact_email m,
                       mr_email = None, mr_display_name = None\<rparr>
          | Some u \<Rightarrow> \<lparr>mr_user_id = mm_user_id m, mr_role = mm_role m, mr_contact_email = mm_contact_email m,
                       mr_email = Some (us_email u), mr_display_name = coalesce [profile_field u us_preferred_name, Some (us_email u)]\<rparr>)
       (filter (\<lambda>m. mm_ministry_id m = ministry_id) (db_members s))"

definition list_owned_active :: "db \<Rightarrow> uuid \<Rightarrow> uuid list" where
  "list_owned_active s user_id =
     map mi_id
       (sort_key mi_sequence
         (filter (\<lambda>m. is_user_booking_member s (mi_id m) user_id \<and> \<not> mi_is_deleted m \<and> mi_status m = MS_ACTIVE)
           (db_ministries s)))"

definition primary_steward_contact :: "db \<Rightarrow> uuid \<Rightarrow> string option \<times> string option" where
  "primary_steward_contact s ministry_id =
     (case List.find (\<lambda>m. mr_role m = MR_PRIMARY) (ministry_list_members s ministry_id) of
        None \<Rightarrow> (None, None)
      | Some primary \<Rightarrow> (py_or (mr_display_name primary) (mr_email primary), mr_email primary))"

definition EN_LOCALE_ID :: uuid where "EN_LOCALE_ID = 0x019dd0c869fa765787bb3b7255f5c5ae"
definition ZH_TW_LOCALE_ID :: uuid where "ZH_TW_LOCALE_ID = 0x019dd0c875407601bfd17939ce75c16a"
definition ZH_CN_LOCALE_ID :: uuid where "ZH_CN_LOCALE_ID = 0x019dd0c87c12727f878f16807adf39e8"

definition resolve_bilingual_activity_names :: "translation list \<Rightarrow> string option \<Rightarrow> string \<times> string" where
  "resolve_bilingual_activity_names trs fallback_name =
     (let by_locale = (\<lambda>l. map_of (rev (map (\<lambda>t. (tr_locale_id t, tr_name t))
                                         (filter (\<lambda>t. tr_name t \<noteq> []) trs))) l);
          fallback = str_strip (if truthy fallback_name then the fallback_name else ''Church Activity'');
          english_name = (case by_locale EN_LOCALE_ID of Some n \<Rightarrow> n | None \<Rightarrow> fallback);
          chinese_name = (case by_locale ZH_TW_LOCALE_ID of Some n \<Rightarrow> n
                          | None \<Rightarrow> (case by_locale ZH_CN_LOCALE_ID of Some n \<Rightarrow> n | None \<Rightarrow> english_name))
      in (english_name, chinese_name))"

section \<open>Rates, discounts and surcharges\<close>

definition room_exists_by_id :: "db \<Rightarrow> uuid \<Rightarrow> bool" where
  "room_exists_by_id s room_id = list_ex (\<lambda>r. rm_id r = room_id \<and> \<not> rm_is_deleted r) (db_rooms s)"

text \<open>\<open>coalesce(translated name, code)\<close>, the code alone without a locale.\<close>

definition room_display_name :: "uuid option \<Rightarrow> room_row \<Rightarrow> string" where
  "room_display_name locale_id r =
     (case locale_id of None \<Rightarrow> rm_code r
      | Some l \<Rightarrow> (case List.find (\<lambda>t. tr_locale_id t = l) (rm_translations r) of
                   None \<Rightarrow> rm_code r | Some t \<Rightarrow> tr_name t))"

text \<open>\<open>_rate_select\<close>: a binding joined with its template.\<close>

definition rate_of_binding :: "rate_binding \<Rightarrow> rate_template \<Rightarrow> rate_result" where
  "rate_of_binding b t =
     \<lparr>rr_id = rb_id b, rr_facility_id = Some (rb_facility_id b), rr_template_id = rb_template_id b,
      rr_is_active = rb_is_active b, rr_unit_amount = rt_unit_amount t, rr_currency = rt_currency t,
      rr_template_name = Some (rt_name t), rr_billing_unit = Some (rt_billing_unit t),
      rr_applicability = rt_applicability t, rr_is_default = rt_is_default t,
      rr_template_is_active = rt_is_active t\<rparr>"

definition list_active_rates_for_facility :: "db \<Rightarrow> uuid \<Rightarrow> date option \<Rightarrow> rate_result list" where
  "list_active_rates_for_facility s facility_id as_of_date =
     concat (map (\<lambda>b. map (rate_of_binding b)
                        (filter (\<lambda>t. rt_id t = rb_template_id b \<and> \<not> rt_is_deleted t \<and> rt_is_active t)
                          (db_rate_templates s)))
       (filter (\<lambda>b. \<not> rb_is_deleted b \<and> rb_is_active b \<and> rb_facility_id b = facility_id)
         (db_rate_bindings s)))"

definition list_templates :: "db \<Rightarrow> bool \<Rightarrow> rate_template list" where
  "list_templates s active_only =
     sort_key rt_name
       (filter (\<lambda>t. \<not> rt_is_deleted t \<and> (active_only \<longrightarrow> rt_is_active t)) (db_rate_templates s))"

definition template_to_rate_candidate :: "rate_template \<Rightarrow> rate_result" where
  "template_to_rate_candidate t =
     \<lparr>rr_id = rt_id t, rr_facility_id = None, rr_template_id = rt_id t,
      rr_is_active = rt_is_active t, rr_unit_amount = rt_unit_amount t, rr_currency = rt_currency t,
      rr_template_name = Some (rt_name t), rr_billing_unit = Some (rt_billing_unit t),
      rr_applicability = rt_applicability t, rr_is_default = rt_is_default t,
      rr_template_is_active = rt_is_active t\<rparr>"

definition list_discount_rules :: "db \<Rightarrow> discount_rule list" where
  "list_discount_rules s =
     sort_key dr_code (filter (\<lambda>r. \<not> dr_is_deleted r) (db_discount_rules s))"

definition list_surcharges :: "db \<Rightarrow> surcharge list" where
  "list_surcharges s = sort_key su_code (filter (\<lambda>u. \<not> su_is_deleted u) (db_surcharges s))"

section \<open>Templates and blackouts of a day\<close>

unbundle bit_operations_syntax

definition list_active_for_day :: "db \<Rightarrow> uuid \<Rightarrow> int \<Rightarrow> slot_template list" where
  "list_active_for_day s facility_id day_of_week =
     (let day_bit = push_bit (nat day_of_week) 1
      in sort_key st_start_time
           (filter (\<lambda>t. \<not> st_is_deleted t \<and> st_is_active t \<and> st_facility_id t = facility_id \<and>
                      st_days_of_week_mask t AND day_bit \<noteq> 0) (db_slot_templates s)))"

definition list_active_for_room_day :: "db \<Rightarrow> uuid \<Rightarrow> date \<Rightarrow> blackout list" where
  "list_active_for_room_day s facility_id target_date =
     (let day_bit = push_bit (nat (weekday target_date)) 1
      in sort_key bo_start_time
           (filter (\<lambda>b. \<not> bo_is_deleted b \<and> bo_is_active b \<and>
                (bo_facility_id b = Some facility_id \<or> bo_facility_id b = None) \<and>
                ((bo_kind b = blackout_kind_value BK_ONE_OFF \<and> bo_blackout_date b = Some target_date) \<or>
                 (bo_kind b = blackout_kind_value BK_RECURRING \<and>
                  (case bo_days_of_week_mask b of None \<Rightarrow> False | Some m \<Rightarrow> m AND day_bit \<noteq> 0) \<and>
                  (case bo_effective_from b of None \<Rightarrow> True | Some d \<Rightarrow> d \<le> target_date) \<and>
                  (case bo_effective_to b of None \<Rightarrow> True | Some d \<Rightarrow> d \<ge> target_date))))
             (db_blackouts s)))"

section \<open>Drafts\<close>

definition draft_get_detail :: "db \<Rightarrow> uuid \<Rightarrow> draft_row option" where
  "draft_get_detail s draft_id = List.find (\<lambda>d. df_id d = draft_id) (db_drafts s)"

definition draft_delete :: "db \<Rightarrow> uuid \<Rightarrow> db" where
  "draft_delete s draft_id =
     s\<lparr>db_draft_lines := filter (\<lambda>l. dl_draft_id l \<noteq> draft_id) (db_draft_lines s),
       db_drafts := filter (\<lambda>d. df_id d \<noteq> draft_id) (db_drafts s)\<rparr>"

section \<open>Lemmas\<close>

lemma coalesce_eq_None: "coalesce xs = None \<longleftrightarrow> (\<forall>x\<in>set xs. x = None)"
  by (induction xs rule: coalesce.induct) auto

lemma display_name_Some: "display_name_expr u \<noteq> None"
  by (simp add: display_name_expr_def Let_def coalesce_eq_None)

lemma sql_max_None: "sql_max xs = None \<longleftrightarrow> xs = []"
  by (simp add: sql_max_def split: list.splits)

lemma ministry_name_None: "ministry_name_fallback s l trs = None \<longleftrightarrow> trs = []"
  by (auto simp: ministry_name_fallback_def Let_def coalesce_eq_None sql_max_None)

lemma set_list_owned_active:
  "i \<in> set (list_owned_active s user_id) \<longleftrightarrow>
     (\<exists>m\<in>set (db_ministries s). mi_id m = i \<and> is_user_booking_member s i user_id \<and>
        \<not> mi_is_deleted m \<and> mi_status m = MS_ACTIVE)"
  by (auto simp: list_owned_active_def)

lemma fresh_uuid_simps [simp]:
  "fst (fresh_uuid s) = db_next_uuid s"
  "db_next_uuid (snd (fresh_uuid s)) = db_next_uuid s + 1"
  by (simp_all add: fresh_uuid_def)

end
