(* ===== verification/Sample_Data.thy ===== *)
theory Sample_Data imports Facility_Db begin

text \<open>
  A small campus the witnesses run the operations on: two rooms open from 8:00 to 22:00 every day, an
  hourly rate and a half-day rate, two members, and a Priority Ministry whose primary steward is the
  first of them. The facility keeps UTC, so that instants read as wall clocks.
\<close>

definition member_id :: uuid where "member_id = 1"
definition steward_id :: uuid where "steward_id = 2"
definition hall_id :: uuid where "hall_id = 10"
definition chapel_id :: uuid where "chapel_id = 11"
definition priority_ministry_id :: uuid where "priority_ministry_id = 20"
definition deacon_position_id :: uuid where "deacon_position_id = 80"

definition sample_hourly :: rate_template where
  "sample_hourly = \<lparr>rt_id = 30, rt_name = ''Hourly'', rt_billing_unit = ''hourly'', rt_applicability = None,
     rt_unit_amount = 1001 / 100, rt_currency = ''CAD'', rt_is_default = True, rt_is_active = True,
     rt_is_deleted = False\<rparr>"

definition sample_half_day :: rate_template where
  "sample_half_day = \<lparr>rt_id = 31, rt_name = ''Half day'', rt_billing_unit = ''daily_flat'',
     rt_applicability = Some (App_Rule (HoursGteRule 4)),
     rt_unit_amount = 80, rt_currency = ''CAD'', rt_is_default = False, rt_is_active = True,
     rt_is_deleted = False\<rparr>"

definition sample_template :: "uuid \<Rightarrow> uuid \<Rightarrow> slot_template" where
  "sample_template i room = \<lparr>st_id = i, st_facility_id = room, st_name = ''Daytime'', st_days_of_week_mask = 127,
     st_start_time = 8 * HOUR_US, st_end_time = 22 * HOUR_US, st_slot_duration_minutes = 30,
     st_is_active = True, st_effective_from = None, st_effective_to = None, st_is_deleted = False\<rparr>"

definition sample_user :: "uuid \<Rightarrow> string \<Rightarrow> user_row" where
  "sample_user i mail = \<lparr>us_id = i, us_email = mail, us_preferred_name = None, us_first_name = Some ''Ann'',
     us_last_name = Some ''Lee'', us_has_profile = True, us_is_deleted = False\<rparr>"

definition sample_room :: "uuid \<Rightarrow> string \<Rightarrow> dec \<Rightarrow> room_row" where
  "sample_room i code position = \<lparr>rm_id = i, rm_code = code, rm_room_number = None, rm_capacity = Some 80, rm_sequence = position,
     rm_translations = [], rm_is_active = True, rm_is_deleted = False\<rparr>"

definition sample_ministry :: "uuid \<Rightarrow> ministry_status \<Rightarrow> bool \<Rightarrow> string \<Rightarrow> ministry" where
  "sample_ministry i status has_priority name = \<lparr>mi_id = i, mi_owner_position_id = Some deacon_position_id, mi_ministry_type_id = None,
     mi_status = status, mi_has_priority_booking = has_priority, mi_is_active = True, mi_sequence = 1,
     mi_submitted_at = None, mi_submitted_by_id = None, mi_approved_at = None, mi_approved_by_id = None,
     mi_rejected_at = None, mi_rejected_by_id = None, mi_rejection_reason = None,
     mi_translations = [\<lparr>tr_locale_id = EN_LOCALE_ID, tr_name = name, tr_description = None, tr_remark = None,
       tr_schedule_note = None\<rparr>],
     mi_is_deleted = False\<rparr>"

definition sample_org :: org_tables where
  "sample_org = \<lparr>og_approvals = [], og_schedules = [], og_ministry_types = [], og_audiences = [], og_ministry_audiences = [],
     og_positions = [\<lparr>po_id = deacon_position_id, po_code = ''DEACON_YOUTH'', po_can_own_ministry = True, po_is_active = True,
       po_sequence = 1, po_translations = [], po_is_deleted = False\<rparr>],
     og_assignments = [\<lparr>pa_position_id = deacon_position_id, pa_user_id = steward_id, pa_start_at = 0, pa_end_at = None\<rparr>],
     og_locales = [\<lparr>lo_id = EN_LOCALE_ID, lo_is_active = True, lo_is_deleted = False\<rparr>]\<rparr>"

definition sample_db :: db where
  "sample_db = \<lparr>db_bookings = [], db_lines = [], db_slots = [], db_series = [], db_override_logs = [],
     db_drafts = [], db_draft_lines = [], db_series_drafts = [], db_series_draft_rooms = [],
     db_users = [sample_user member_id ''ann@efcnewlife.org'', sample_user steward_id ''bob@efcnewlife.org''],
     db_rooms = [sample_room hall_id ''HALL'' 1, sample_room chapel_id ''CHAPEL'' 2],
     db_ministries = [sample_ministry priority_ministry_id MS_ACTIVE True ''Youth''],
     db_members = [\<lparr>mm_ministry_id = priority_ministry_id, mm_user_id = steward_id, mm_role = MR_PRIMARY,
                    mm_remark = None, mm_contact_email = None\<rparr>],
     db_org = sample_org,
     db_slot_templates = [sample_template 40 hall_id, sample_template 41 chapel_id],
     db_blackouts = [], db_rate_templates = [sample_hourly, sample_half_day], db_rate_bindings = [],
     db_discount_rules = [\<lparr>dr_id = 50, dr_code = ''recurring_weekly_monthly'', dr_percent_off = 20, dr_description = None,
                           dr_is_active = True, dr_is_deleted = False\<rparr>],
     db_surcharges = [\<lparr>su_id = 60, su_code = ''audio_system'', su_charge_type = ''per_hour'',
                       su_unit_amount = 1001 / 100, su_currency = ''CAD'', su_applies_to_booking_type = None, su_remark = None,
                       su_is_active = True, su_is_deleted = False\<rparr>],
     db_files = [], db_file_associations = [], db_default_locale_id = Some EN_LOCALE_ID, db_after_commit = [], db_next_uuid = 1000\<rparr>"

definition sample_settings :: facility_settings where
  "sample_settings = \<lparr>set_facility_timezone = utc_zone, set_max_booking_lines = 3,
     set_pending_payment_hold_days = 2, set_min_recurring_booking_weeks = 2,
     set_window_amount = 2, set_window_unit = ''months'', set_test_window_override = False,
     set_allowlist_addresses = [], set_allowlist_suffixes = []\<rparr>"

definition moment :: "int \<Rightarrow> int \<Rightarrow> int \<Rightarrow> int \<Rightarrow> int \<Rightarrow> instant" where
  "moment y m d h mi = combine (ymd2ord y m d) (h * HOUR_US + mi * MINUTE_US)"

definition sample_env :: "uuid \<Rightarrow> instant \<Rightarrow> env" where
  "sample_env user_id now = \<lparr>en_user_id = Some user_id, en_user_email = None, en_locale_id = None,
     en_now_utc = now, en_sql_now = now, en_repo_now = now, en_is_prod = True,
     en_settings = sample_settings\<rparr>"

end
