(* ===== verification/Booking_Lines.thy ===== *)
theory Booking_Lines imports Sample_Data begin

text \<open>
  Validation of the room lines of a proposal (\<open>booking_line_validation.py\<close>): each line's interval,
  the envelope, the primary room, and the checks of \<open>validate_booking_lines\<close> in their order.
\<close>

record resolved_line =
  ln_facility_id :: uuid
  ln_start_at :: instant
  ln_end_at :: instant
  ln_sequence :: int

definition resolve_booking_lines :: "room_line_command list \<Rightarrow> instant \<Rightarrow> instant \<Rightarrow> resolved_line list" where
  "resolve_booking_lines rooms header_start header_end =
     map (\<lambda>line. \<lparr>ln_facility_id = rc_facility_id line,
                  ln_start_at = (case rc_start_at line of None \<Rightarrow> header_start | Some t \<Rightarrow> t),
                  ln_end_at = (case rc_end_at line of None \<Rightarrow> header_end | Some t \<Rightarrow> t),
                  ln_sequence = rc_sequence line\<rparr>) rooms"

text \<open>\<open>min\<close> and \<open>max\<close> of a non-empty sequence; \<open>min(..., key=...)\<close> keeps the first minimum.\<close>

definition envelope_interval :: "resolved_line list \<Rightarrow> instant \<times> instant" where
  "envelope_interval lines =
     (fold min (map ln_start_at (tl lines)) (ln_start_at (hd lines)),
      fold max (map ln_end_at (tl lines)) (ln_end_at (hd lines)))"

definition primary_facility_id :: "resolved_line list \<Rightarrow> uuid" where
  "primary_facility_id lines =
     ln_facility_id
       (foldl (\<lambda>best line. if ln_sequence line < ln_sequence best then line else best) (hd lines) (tl lines))"

definition line_key :: "resolved_line \<Rightarrow> uuid \<times> instant \<times> instant" where
  "line_key line = (ln_facility_id line, ln_start_at line, ln_end_at line)"

definition validate_line ::
  "zone \<Rightarrow> date list \<times> (uuid \<times> instant \<times> instant) list \<Rightarrow> resolved_line \<Rightarrow>
     exn + date list \<times> (uuid \<times> instant \<times> instant) list" where
  "validate_line local_tz acc line =
     (case acc of (calendar_days, seen) \<Rightarrow>
       raise_if (ln_end_at line \<le> ln_start_at line) (bad_request BOOKING_INVALID_TIME_RANGE)
         (let start_date = wall_date (to_local local_tz (ln_start_at line));
              end_date = wall_date (to_local local_tz (ln_end_at line))
          in raise_if (start_date \<noteq> end_date) (bad_request BOOKING_LINE_CROSS_MIDNIGHT)
               (raise_if (line_key line \<in> set seen) (bad_request BOOKING_DUPLICATE_LINE)
                 (Inr (List.insert start_date calendar_days, line_key line # seen)))))"

definition validate_booking_lines :: "resolved_line list \<Rightarrow> zone \<Rightarrow> exn + unit" where
  "validate_booking_lines lines local_tz =
     bindE (foldE (validate_line local_tz) ([], []) lines) (\<lambda>(calendar_days, seen).
       raise_if (length calendar_days > 1) (bad_request BOOKING_LINES_NOT_SAME_DAY)
         (Inr ()))"

text \<open>\<open>delta.total_seconds() / 3600\<close>, rounded half to even to two places.\<close>

definition billed_hours :: "instant \<Rightarrow> instant \<Rightarrow> dec" where
  "billed_hours start_at end_at = quantize_half_even (of_int (end_at - start_at) / 1000000 / 3600)"

section \<open>Lemmas\<close>

lemma envelope_fold:
  "fold min xs (x :: int) = Min (insert x (set xs))" "fold max xs (x :: int) = Max (insert x (set xs))"
  using Min.set_eq_fold [of x xs] Max.set_eq_fold [of x xs] by simp_all

lemma envelope_contains:
  assumes "l \<in> set lines"
  shows "fst (envelope_interval lines) \<le> ln_start_at l" "ln_end_at l \<le> snd (envelope_interval lines)"
  using assms by (cases lines; auto simp: envelope_interval_def envelope_fold)+

lemma envelope_attained:
  assumes "lines \<noteq> []"
  shows "\<exists>l\<in>set lines. fst (envelope_interval lines) = ln_start_at l"
    and "\<exists>l\<in>set lines. snd (envelope_interval lines) = ln_end_at l"
proof -
  obtain l ls where lines: "lines = l # ls" using assms by (cases lines) auto
  have "Min (ln_start_at ` set lines) \<in> ln_start_at ` set lines"
    "Max (ln_end_at ` set lines) \<in> ln_end_at ` set lines"
    by (rule Min_in Max_in; simp add: lines)+
  then show "\<exists>l\<in>set lines. fst (envelope_interval lines) = ln_start_at l"
    and "\<exists>l\<in>set lines. snd (envelope_interval lines) = ln_end_at l"
    by (auto simp: lines envelope_interval_def envelope_fold)
qed

lemma first_min_mem:
  "foldl (\<lambda>best x. if k x < k best then x else best) b xs \<in> insert b (set xs)"
  by (induction xs arbitrary: b) auto

lemma primary_facility_mem: "lines \<noteq> [] \<Longrightarrow> primary_facility_id lines \<in> ln_facility_id ` set lines"
  using first_min_mem [of ln_sequence "hd lines" "tl lines"]
  by (cases lines) (auto simp: primary_facility_id_def)

lemma validate_line_Inr:
  "validate_line tz (days, seen) l = Inr acc \<longleftrightarrow>
     ln_start_at l < ln_end_at l \<and>
     wall_date (to_local tz (ln_start_at l)) = wall_date (to_local tz (ln_end_at l)) \<and>
     line_key l \<notin> set seen \<and>
     acc = (List.insert (wall_date (to_local tz (ln_start_at l))) days, line_key l # seen)"
  by (auto simp: validate_line_def Let_def guard_simps not_le)

lemma validate_fold_Inr:
  "foldE (validate_line tz) (days, seen) ls = Inr acc \<longleftrightarrow>
     (\<forall>l\<in>set ls. ln_start_at l < ln_end_at l \<and>
        wall_date (to_local tz (ln_start_at l)) = wall_date (to_local tz (ln_end_at l))) \<and>
     distinct (map line_key ls) \<and> set (map line_key ls) \<inter> set seen = {} \<and>
     acc = (fold List.insert (map (\<lambda>l. wall_date (to_local tz (ln_start_at l))) ls) days,
            rev (map line_key ls) @ seen)"
proof (induction ls arbitrary: days seen)
  case Nil
  then show ?case by auto
next
  case (Cons l ls)
  show ?case by (auto simp: guard_simps validate_line_Inr Cons.IH)
qed

lemma fold_insert_props:
  "set (fold List.insert xs days) = set xs \<union> set days"
  "distinct days \<Longrightarrow> distinct (fold List.insert xs days)"
  by (induction xs arbitrary: days) auto

lemma distinct_short_iff: "distinct xs \<Longrightarrow> \<not> length xs > 1 \<longleftrightarrow> (\<exists>d. \<forall>x\<in>set xs. x = d)"
  by (cases xs; cases "tl xs") auto

lemma validate_booking_lines_Inr:
  "validate_booking_lines lines tz = Inr u \<longleftrightarrow>
     (\<forall>l\<in>set lines. ln_start_at l < ln_end_at l \<and>
        wall_date (to_local tz (ln_start_at l)) = wall_date (to_local tz (ln_end_at l))) \<and>
     distinct (map line_key lines) \<and>
     (\<exists>d. \<forall>l\<in>set lines. wall_date (to_local tz (ln_start_at l)) = d)"
  using distinct_short_iff [OF fold_insert_props(2) [of "[]" "map (\<lambda>l. wall_date (to_local tz (ln_start_at l))) lines"]]
  by (auto simp: validate_booking_lines_def guard_simps validate_fold_Inr fold_insert_props)

lemma validate_line_error:
  "validate_line tz (days, seen) l = Inl err \<longleftrightarrow>
     err = (if ln_end_at l \<le> ln_start_at l then bad_request BOOKING_INVALID_TIME_RANGE
            else if wall_date (to_local tz (ln_start_at l)) \<noteq> wall_date (to_local tz (ln_end_at l))
            then bad_request BOOKING_LINE_CROSS_MIDNIGHT else bad_request BOOKING_DUPLICATE_LINE) \<and>
     (ln_end_at l \<le> ln_start_at l \<or>
      wall_date (to_local tz (ln_start_at l)) \<noteq> wall_date (to_local tz (ln_end_at l)) \<or>
      line_key l \<in> set seen)"
  by (auto simp: validate_line_def Let_def raise_if_eq_Inl)

section \<open>Properties\<close>

text \<open>
  Room lines are accepted exactly when every line is a non-empty interval within one local day, no
  line is repeated, and all of them fall on the same local day; the header of the booking is then the
  tightest interval containing every line.
\<close>

lemma validate_booking_lines_iff:
  "(validate_booking_lines lines tz = Inr () \<longleftrightarrow>
     (\<forall>l\<in>set lines. ln_start_at l < ln_end_at l \<and>
        wall_date (to_local tz (ln_start_at l)) = wall_date (to_local tz (ln_end_at l))) \<and>
     distinct (map line_key lines) \<and>
     (\<exists>d. \<forall>l\<in>set lines. wall_date (to_local tz (ln_start_at l)) = d)) \<and>
   (lines \<noteq> [] \<longrightarrow>
     (\<forall>a b. (\<forall>l\<in>set lines. a \<le> ln_start_at l \<and> ln_end_at l \<le> b) \<longleftrightarrow>
        a \<le> fst (envelope_interval lines) \<and> snd (envelope_interval lines) \<le> b))"
proof (intro conjI impI allI)
  fix a b
  assume "lines \<noteq> []"
  from envelope_attained [OF this] envelope_contains [of _ lines]
  show "(\<forall>l\<in>set lines. a \<le> ln_start_at l \<and> ln_end_at l \<le> b) \<longleftrightarrow>
      a \<le> fst (envelope_interval lines) \<and> snd (envelope_interval lines) \<le> b"
    by (metis order_trans)
qed (rule validate_booking_lines_Inr)

text \<open>
  Two lines of one booking may overlap in the same room as long as they are not identical: only exact
  repetition is refused.
\<close>

lemma overlapping_lines_accepted:
  "validate_booking_lines
     [\<lparr>ln_facility_id = hall_id, ln_start_at = moment 2026 5 4 10 0, ln_end_at = moment 2026 5 4 12 0, ln_sequence = 0\<rparr>,
      \<lparr>ln_facility_id = hall_id, ln_start_at = moment 2026 5 4 11 0, ln_end_at = moment 2026 5 4 12 0, ln_sequence = 1\<rparr>]
     utc_zone = Inr ()"
  by code_simp

end
