(* ===== verification/Booking_Store.thy ===== *)
theory Booking_Store imports Booking_Lines "HOL-Library.Product_Lexorder" begin

text \<open>
  The booking, series and override-log repositories (\<open>booking_repository.py\<close>,
  \<open>recurring_booking_repository.py\<close>, \<open>override_log_repository.py\<close>): queries are filters of the
  tables, updates rewrite the rows their \<open>where\<close> selects, and an insert refuses a row that breaks a
  constraint of \<open>models/facility\<close>. \<open>occupancy\<close> is the abstraction the rest of the development
  reasons with: which booking holds which room from when to when at a time of the database clock.
\<close>

section \<open>Rows and constraints\<close>

definition update_where :: "('a \<Rightarrow> bool) \<Rightarrow> ('a \<Rightarrow> 'a) \<Rightarrow> 'a list \<Rightarrow> 'a list" where
  "update_where p f xs = map (\<lambda>x. if p x then f x else x) xs"

definition find_booking :: "db \<Rightarrow> uuid \<Rightarrow> booking option" where
  "find_booking s booking_id = List.find (\<lambda>b. bk_id b = booking_id) (db_bookings s)"

definition find_series :: "db \<Rightarrow> uuid \<Rightarrow> series option" where
  "find_series s series_id = List.find (\<lambda>x. se_id x = series_id) (db_series s)"

definition title_length_ok :: "string \<Rightarrow> bool" where
  "title_length_ok title \<longleftrightarrow>
     length (sql_trim title) \<ge> BOOKING_TITLE_MIN_LENGTH \<and> length title \<le> BOOKING_TITLE_MAX_LENGTH"

definition fk :: "('a \<Rightarrow> uuid) \<Rightarrow> 'a list \<Rightarrow> uuid option \<Rightarrow> bool" where
  "fk key rows ref = (case ref of None \<Rightarrow> True | Some i \<Rightarrow> list_ex (\<lambda>r. key r = i) rows)"

definition booking_constraints :: "db \<Rightarrow> booking \<Rightarrow> bool" where
  "booking_constraints s b \<longleftrightarrow>
     bk_end_at b > bk_start_at b \<and> title_length_ok (bk_title b) \<and>
     fk us_id (db_users s) (Some (bk_user_id b)) \<and> fk se_id (db_series s) (bk_series_id b) \<and>
     fk rm_id (db_rooms s) (bk_facility_id b) \<and> fk mi_id (db_ministries s) (bk_ministry_id b)"

definition room_line_constraints :: "db \<Rightarrow> room_line \<Rightarrow> bool" where
  "room_line_constraints s r \<longleftrightarrow>
     rl_end_at r > rl_start_at r \<and> fk bk_id (db_bookings s) (Some (rl_booking_id r)) \<and>
     fk rm_id (db_rooms s) (Some (rl_facility_id r))"

definition slot_constraints :: "db \<Rightarrow> slot \<Rightarrow> bool" where
  "slot_constraints s r \<longleftrightarrow>
     sl_end_at r > sl_start_at r \<and> fk bk_id (db_bookings s) (Some (sl_booking_id r)) \<and>
     fk rm_id (db_rooms s) (Some (sl_facility_id r))"

definition series_constraints :: "db \<Rightarrow> series \<Rightarrow> bool" where
  "series_constraints s x \<longleftrightarrow>
     se_last_occurrence_date x \<ge> se_first_occurrence_date x \<and>
     se_local_end_time x > se_local_start_time x \<and> title_length_ok (se_title x) \<and>
     fk us_id (db_users s) (Some (se_user_id x)) \<and> fk mi_id (db_ministries s) (se_ministry_id x)"

definition integrity :: exn where "integrity = raise_exn Integrity None CtxNone"

section \<open>Occupancy\<close>

text \<open>\<open>_active_occupancy_clause\<close>: the series is outer-joined, \<open>now\<close> is the database clock.\<close>

definition joined_hold :: "db \<Rightarrow> booking \<Rightarrow> instant option" where
  "joined_hold s b =
     (case bk_series_id b of None \<Rightarrow> None
      | Some i \<Rightarrow> (case find_series s i of None \<Rightarrow> None | Some x \<Rightarrow> se_payment_hold_expires_at x))"

definition active_occupancy_clause :: "db \<Rightarrow> instant \<Rightarrow> booking \<Rightarrow> bool" where
  "active_occupancy_clause s sql_now b \<longleftrightarrow>
     bk_status b = BS_CONFIRMED \<or>
     bk_status b = BS_PENDING_PAYMENT \<and>
       (case joined_hold s b of None \<Rightarrow> True | Some expires \<Rightarrow> expires > sql_now)"

text \<open>The slots of a room that overlap \<open>[start_at, end_at)\<close> and still count, with their booking.\<close>

definition occupying_rows :: "db \<Rightarrow> instant \<Rightarrow> uuid \<Rightarrow> instant \<Rightarrow> instant \<Rightarrow> (slot \<times> booking) list" where
  "occupying_rows s sql_now facility_id start_at end_at =
     concat (map (\<lambda>sl. map (Pair sl)
         (filter (\<lambda>b. bk_id b = sl_booking_id sl \<and> \<not> bk_is_deleted b \<and> active_occupancy_clause s sql_now b)
           (db_bookings s)))
       (filter (\<lambda>sl. sl_facility_id sl = facility_id \<and> sl_status sl = SS_CONFIRMED \<and>
                  sl_start_at sl < end_at \<and> sl_end_at sl > start_at) (db_slots s)))"

definition has_confirmed_slot_overlap ::
  "db \<Rightarrow> instant \<Rightarrow> uuid \<Rightarrow> instant \<Rightarrow> instant \<Rightarrow> uuid option \<Rightarrow> bool" where
  "has_confirmed_slot_overlap s sql_now facility_id start_at end_at exclude_booking_id =
     (length (filter (\<lambda>(sl, b). case exclude_booking_id of None \<Rightarrow> True | Some x \<Rightarrow> sl_booking_id sl \<noteq> x)
        (occupying_rows s sql_now facility_id start_at end_at)) > 0)"

text \<open>The join with the booker drops a row whose user is gone, which the foreign key excludes.\<close>

definition list_occupying_slots ::
  "db \<Rightarrow> instant \<Rightarrow> uuid \<Rightarrow> instant \<Rightarrow> instant \<Rightarrow> uuid option \<Rightarrow> occupying list" where
  "list_occupying_slots s sql_now facility_id start_at end_at locale_id =
     concat (map (\<lambda>(sl, b).
         case find_user s (bk_user_id b) of
           None \<Rightarrow> []
         | Some u \<Rightarrow>
             [\<lparr>oc_booking_id = bk_id b, oc_user_id = bk_user_id b, oc_ministry_id = bk_ministry_id b,
               oc_ministry_name = ministry_name_subquery s locale_id (bk_ministry_id b),
               oc_facility_ids = [sl_facility_id sl], oc_start_at = bk_start_at b, oc_end_at = bk_end_at b,
               oc_booker_display_name = display_name_expr u, oc_booker_email = Some (us_email u),
               oc_series_id = bk_series_id b\<rparr>])
       (occupying_rows s sql_now facility_id start_at end_at))"

text \<open>The order in which the advisory locks of the rooms are taken.\<close>

definition lock_rooms :: "uuid list \<Rightarrow> uuid list" where
  "lock_rooms facility_ids = sorted_list_of_set (set facility_ids)"

definition list_live_slot_intervals :: "db \<Rightarrow> uuid list \<Rightarrow> uuid \<Rightarrow> released_interval list" where
  "list_live_slot_intervals s booking_ids booking_id =
     (if booking_id \<notin> set booking_ids then []
      else map (\<lambda>sl. \<lparr>ri_facility_id = sl_facility_id sl, ri_start_at = sl_start_at sl, ri_end_at = sl_end_at sl\<rparr>)
        (sort_key (\<lambda>sl. (sl_start_at sl, sl_facility_id sl))
          (filter (\<lambda>sl. sl_booking_id sl = booking_id \<and> sl_status sl = SS_CONFIRMED) (db_slots s))))"

section \<open>Writes\<close>

definition release_slots :: "uuid \<Rightarrow> db \<Rightarrow> db" where
  "release_slots booking_id s =
     s\<lparr>db_slots := update_where (\<lambda>sl. sl_booking_id sl = booking_id) (\<lambda>sl. sl\<lparr>sl_status := SS_CANCELLED\<rparr>) (db_slots s)\<rparr>"

definition override_booking :: "instant \<Rightarrow> uuid \<Rightarrow> uuid option \<Rightarrow> string option \<Rightarrow> db \<Rightarrow> db" where
  "override_booking now booking_id overridden_by_id reason s =
     release_slots booking_id
       (s\<lparr>db_bookings := update_where (\<lambda>b. bk_id b = booking_id)
            (\<lambda>b. b\<lparr>bk_status := BS_OVERRIDDEN, bk_cancelled_at := Some now, bk_cancelled_by_id := overridden_by_id,
                   bk_cancel_reason := reason\<rparr>) (db_bookings s)\<rparr>)"

definition cancel_booking :: "instant \<Rightarrow> uuid \<Rightarrow> uuid option \<Rightarrow> string option \<Rightarrow> bool \<Rightarrow> db \<Rightarrow> db" where
  "cancel_booking now booking_id cancelled_by_id cancel_reason cancel_slots s =
     (let s' = s\<lparr>db_bookings := update_where (\<lambda>b. bk_id b = booking_id)
            (\<lambda>b. b\<lparr>bk_status := BS_CANCELLED, bk_cancelled_at := Some now, bk_cancelled_by_id := cancelled_by_id,
                   bk_cancel_reason := cancel_reason\<rparr>) (db_bookings s)\<rparr>
      in if cancel_slots then release_slots booking_id s' else s')"

definition update_booking_title :: "uuid \<Rightarrow> string \<Rightarrow> db \<Rightarrow> exn + db" where
  "update_booking_title booking_id title s =
     raise_if (\<not> title_length_ok title \<and> list_ex (\<lambda>b. bk_id b = booking_id) (db_bookings s)) integrity
       (Inr (s\<lparr>db_bookings := update_where (\<lambda>b. bk_id b = booking_id) (\<lambda>b. b\<lparr>bk_title := title\<rparr>) (db_bookings s)\<rparr>))"

definition insert_booking :: "booking \<Rightarrow> db \<Rightarrow> exn + db" where
  "insert_booking b s =
     raise_if (\<not> booking_constraints s b) integrity
       (Inr (s\<lparr>db_bookings := db_bookings s @ [b]\<rparr>))"

definition replace_booking_rooms :: "uuid \<Rightarrow> room_line list \<Rightarrow> db \<Rightarrow> exn + db" where
  "replace_booking_rooms booking_id room_rows s =
     raise_if (\<not> list_all (room_line_constraints s) room_rows) integrity
       (Inr (s\<lparr>db_lines := filter (\<lambda>r. rl_booking_id r \<noteq> booking_id) (db_lines s) @ room_rows\<rparr>))"

definition replace_booking_slots :: "uuid \<Rightarrow> slot list \<Rightarrow> db \<Rightarrow> exn + db" where
  "replace_booking_slots booking_id slot_rows s =
     raise_if (\<not> list_all (slot_constraints s) slot_rows) integrity
       (Inr (s\<lparr>db_slots := filter (\<lambda>sl. sl_booking_id sl \<noteq> booking_id) (db_slots s) @ slot_rows\<rparr>))"

definition insert_series :: "series \<Rightarrow> db \<Rightarrow> exn + db" where
  "insert_series x s =
     raise_if (\<not> series_constraints s x) integrity
       (Inr (s\<lparr>db_series := db_series s @ [x]\<rparr>))"

definition update_series :: "uuid \<Rightarrow> (series \<Rightarrow> series) \<Rightarrow> db \<Rightarrow> db" where
  "update_series series_id f s =
     s\<lparr>db_series := update_where (\<lambda>x. se_id x = series_id \<and> \<not> se_is_deleted x) f (db_series s)\<rparr>"

definition confirm_pending_series_bookings :: "uuid \<Rightarrow> db \<Rightarrow> db" where
  "confirm_pending_series_bookings series_id s =
     s\<lparr>db_bookings := update_where
         (\<lambda>b. bk_series_id b = Some series_id \<and> bk_status b = BS_PENDING_PAYMENT \<and> \<not> bk_is_deleted b)
         (\<lambda>b. b\<lparr>bk_status := BS_CONFIRMED\<rparr>) (db_bookings s)\<rparr>"

definition insert_logs :: "override_log list \<Rightarrow> db \<Rightarrow> db" where
  "insert_logs rows s = s\<lparr>db_override_logs := db_override_logs s @ rows\<rparr>"

section \<open>Reads\<close>

definition booking_exists_by_id :: "db \<Rightarrow> uuid \<Rightarrow> bool" where
  "booking_exists_by_id s booking_id =
     list_ex (\<lambda>b. bk_id b = booking_id \<and> \<not> bk_is_deleted b) (db_bookings s)"

record detail_line =
  ln_row :: room_line
  ln_facility_name :: "string option"
  ln_facility_code :: string

record booking_detail =
  dt_row :: booking
  dt_user_email :: string
  dt_user_display_name :: "string option"
  dt_ministry_name :: "string option"
  dt_payment_hold_expires_at :: "instant option"
  dt_rooms :: "detail_line list"
  dt_slots :: "slot list"

text \<open>The lines of a booking, joined with their room.\<close>

definition fetch_booking_rooms :: "db \<Rightarrow> uuid \<Rightarrow> uuid option \<Rightarrow> detail_line list" where
  "fetch_booking_rooms s booking_id locale_id =
     concat (map (\<lambda>r. map (\<lambda>m. \<lparr>ln_row = r, ln_facility_name = Some (room_display_name locale_id m), ln_facility_code = rm_code m\<rparr>)
                        (filter (\<lambda>m. rm_id m = rl_facility_id r) (db_rooms s)))
       (sort_key rl_sequence (filter (\<lambda>r. rl_booking_id r = booking_id) (db_lines s))))"

definition fetch_booking_slots :: "db \<Rightarrow> uuid \<Rightarrow> slot list" where
  "fetch_booking_slots s booking_id =
     sort_key sl_start_at (filter (\<lambda>sl. sl_booking_id sl = booking_id) (db_slots s))"

definition booking_get_detail :: "db \<Rightarrow> uuid \<Rightarrow> uuid option \<Rightarrow> booking_detail option" where
  "booking_get_detail s booking_id locale_id =
     (case List.find (\<lambda>b. bk_id b = booking_id \<and> \<not> bk_is_deleted b) (db_bookings s) of
        None \<Rightarrow> None
      | Some b \<Rightarrow>
          (case find_user s (bk_user_id b) of
             None \<Rightarrow> None
           | Some u \<Rightarrow> Some \<lparr>dt_row = b, dt_user_email = us_email u, dt_user_display_name = display_name_expr u,
                 dt_ministry_name = ministry_name_subquery s locale_id (bk_ministry_id b),
                 dt_payment_hold_expires_at = joined_hold s b,
                 dt_rooms = fetch_booking_rooms s booking_id locale_id, dt_slots = fetch_booking_slots s booking_id\<rparr>))"

definition list_rental_occurrence_starts :: "db \<Rightarrow> instant \<Rightarrow> uuid \<Rightarrow> instant \<Rightarrow> instant \<Rightarrow> instant list" where
  "list_rental_occurrence_starts s sql_now user_id range_start range_end =
     map bk_start_at
       (filter (\<lambda>b. bk_user_id b = user_id \<and> bk_ministry_id b = None \<and> \<not> bk_is_deleted b \<and>
                  active_occupancy_clause s sql_now b \<and> bk_start_at b \<ge> range_start \<and> bk_start_at b < range_end)
         (db_bookings s))"

definition list_live_future_series_occurrences :: "db \<Rightarrow> instant \<Rightarrow> instant \<Rightarrow> blackout_impact_item list" where
  "list_live_future_series_occurrences s sql_now now =
     (let rows = sort_key (\<lambda>(sl, b). (bk_start_at b, bk_id b))
            (concat (map (\<lambda>sl. map (Pair sl)
                (filter (\<lambda>b. bk_id b = sl_booking_id sl \<and> bk_series_id b \<noteq> None \<and> \<not> bk_is_deleted b \<and>
                           bk_start_at b > now \<and> active_occupancy_clause s sql_now b) (db_bookings s)))
              (filter (\<lambda>sl. sl_status sl = SS_CONFIRMED) (db_slots s))));
          items = foldl (\<lambda>d (sl, b).
            let existing = (case map_of d (bk_id b) of None \<Rightarrow> [] | Some i \<Rightarrow> bi_facility_ids i);
                facility_ids = (if sl_facility_id sl \<in> set existing then existing else existing @ [sl_facility_id sl])
            in dict_set d (bk_id b)
                 \<lparr>bi_id = bk_id b, bi_series_id = the (bk_series_id b), bi_start_at = bk_start_at b,
                  bi_end_at = bk_end_at b, bi_status = bk_status b, bi_facility_ids = facility_ids,
                  bi_ministry_id = bk_ministry_id b\<rparr>) [] rows
      in map snd items)"

definition list_series_occurrences :: "db \<Rightarrow> uuid \<Rightarrow> occurrence_result list" where
  "list_series_occurrences s series_id =
     map (\<lambda>b. \<lparr>or_id = bk_id b, or_title = bk_title b, or_start_at = bk_start_at b, or_end_at = bk_end_at b,
               or_status = bk_status b, or_quoted_amount = bk_quoted_amount b, or_currency = bk_currency b,
               or_facility_ids = map (\<lambda>l. rl_facility_id (ln_row l)) (fetch_booking_rooms s (bk_id b) None),
               or_is_free_ministry = bk_is_mission_aligned b\<rparr>)
       (sort_key bk_start_at
         (filter (\<lambda>b. bk_series_id b = Some series_id \<and> \<not> bk_is_deleted b) (db_bookings s)))"

text \<open>
  \<open>_to_series_result\<close> of a row that selects only the series' own columns; \<open>get_by_id\<close> also
  selects what is joined to it.
\<close>

definition to_series_result :: "series \<Rightarrow> series_result" where
  "to_series_result x =
     \<lparr>sr_id = se_id x, sr_title = se_title x, sr_user_id = se_user_id x, sr_user_email = None,
      sr_user_display_name = None, sr_ministry_id = se_ministry_id x, sr_ministry_name = None, sr_remark = None,
      sr_first_occurrence_date = se_first_occurrence_date x, sr_last_occurrence_date = se_last_occurrence_date x,
      sr_local_start_time = se_local_start_time x, sr_local_end_time = se_local_end_time x,
      sr_status = se_status x, sr_payment_hold_expires_at = se_payment_hold_expires_at x,
      sr_quoted_amount = (case se_quoted_amount x of None \<Rightarrow> 0 | Some a \<Rightarrow> a),
      sr_currency = (if truthy (se_currency x) then the (se_currency x) else ''CAD''),
      sr_occurrence_count = 0, sr_is_priority = se_is_priority x, sr_is_free_ministry = False,
      sr_confirmed_by_id = (if se_status x \<noteq> BS_CONFIRMED then None else se_updated_by_id x),
      sr_created_at = None, sr_occurrences = []\<rparr>"

definition series_get_by_id :: "db \<Rightarrow> uuid \<Rightarrow> uuid option \<Rightarrow> series_result option" where
  "series_get_by_id s series_id locale_id =
     (case List.find (\<lambda>x. se_id x = series_id \<and> \<not> se_is_deleted x) (db_series s) of
        None \<Rightarrow> None
      | Some x \<Rightarrow>
          (case find_user s (se_user_id x) of
             None \<Rightarrow> None
           | Some u \<Rightarrow> Some ((to_series_result x)
               \<lparr>sr_user_email := Some (us_email u), sr_user_display_name := display_name_expr u,
                sr_ministry_name := ministry_name_subquery s locale_id (se_ministry_id x), sr_remark := se_remark x,
                sr_is_free_ministry := se_is_mission_aligned x, sr_created_at := Some (se_created_at x)\<rparr>)))"

definition list_expired_pending_series :: "db \<Rightarrow> instant \<Rightarrow> series_result list" where
  "list_expired_pending_series s now =
     map to_series_result
       (sort_key (\<lambda>x. the (se_payment_hold_expires_at x))
         (filter (\<lambda>x. \<not> se_is_deleted x \<and> se_status x = BS_PENDING_PAYMENT \<and>
                    (case se_payment_hold_expires_at x of None \<Rightarrow> False | Some h \<Rightarrow> h \<le> now)) (db_series s)))"

definition actionable_pending_hold_clause :: "instant \<Rightarrow> series \<Rightarrow> bool" where
  "actionable_pending_hold_clause now x =
     (case se_payment_hold_expires_at x of None \<Rightarrow> True | Some h \<Rightarrow> h > now)"

text \<open>\<open>order_by(... .asc().nullslast())\<close>: the series with a hold first, by hold.\<close>

definition list_pending_payment_series :: "db \<Rightarrow> instant \<Rightarrow> series list" where
  "list_pending_payment_series s now =
     sort_key (\<lambda>x. case se_payment_hold_expires_at x of None \<Rightarrow> (1 :: int, 0) | Some h \<Rightarrow> (0, h))
       (filter (\<lambda>x. \<not> se_is_deleted x \<and> se_status x = BS_PENDING_PAYMENT \<and> actionable_pending_hold_clause now x)
         (db_series s))"

definition fetch_range :: "db \<Rightarrow> range_query_command \<Rightarrow> booking list" where
  "fetch_range s model =
     sort_key bk_start_at
       (filter (\<lambda>b. \<not> bk_is_deleted b \<and> bk_start_at b < rq_date_to model \<and> bk_end_at b > rq_date_from model \<and>
                  (\<not> rq_include_cancelled model \<longrightarrow> bk_status b \<noteq> BS_CANCELLED) \<and>
                  find_user s (bk_user_id b) \<noteq> None)
         (db_bookings s))"

definition list_participant_bookings :: "db \<Rightarrow> uuid \<Rightarrow> uuid list \<Rightarrow> booking list" where
  "list_participant_bookings s user_id ministry_ids =
     sort_key (\<lambda>b. (bk_start_at b, bk_id b))
       (filter (\<lambda>b. \<not> bk_is_deleted b \<and> bk_status b \<noteq> BS_DRAFT \<and>
                  (bk_user_id b = user_id \<or> (\<exists>i\<in>set ministry_ids. bk_ministry_id b = Some i)))
         (db_bookings s))"

end
