(* ===== verification/Occupancy.thy ===== *)
theory Occupancy imports Booking_Store begin

text \<open>
  What the tables promise about rooms. \<open>occupancy s t\<close> is the set of room intervals that bookings
  hold at time \<open>t\<close> of the database clock. The locale \<open>room_ledger\<close> states what the services rely on
  -- time only releases, releasing a booking removes exactly its intervals, booking adds at most the
  intervals asked for -- and proves once that exclusive use of the rooms survives each kind of step. It
  is interpreted on the repository's override and on its cancellation.
\<close>

type_synonym holding = "uuid \<times> uuid \<times> instant \<times> instant"

definition occupancy :: "db \<Rightarrow> instant \<Rightarrow> holding set" where
  "occupancy s t =
     {(bk_id b, sl_facility_id sl, sl_start_at sl, sl_end_at sl) | sl b.
        sl \<in> set (db_slots s) \<and> sl_status sl = SS_CONFIRMED \<and> b \<in> set (db_bookings s) \<and>
        bk_id b = sl_booking_id sl \<and> \<not> bk_is_deleted b \<and> active_occupancy_clause s t b}"

definition clash :: "holding \<Rightarrow> holding \<Rightarrow> bool" where
  "clash x y \<longleftrightarrow>
     (case (x, y) of ((i, f, a, b), (i', f', a', b')) \<Rightarrow> i \<noteq> i' \<and> f = f' \<and> a < b' \<and> a' < b)"

definition exclusive :: "holding set \<Rightarrow> bool" where
  "exclusive H \<longleftrightarrow> (\<forall>x\<in>H. \<forall>y\<in>H. \<not> clash x y)"

lemma clash_sym: "clash x y \<longleftrightarrow> clash y x"
  by (auto simp: clash_def split: prod.splits)

lemma exclusive_mono: "exclusive H \<Longrightarrow> H' \<subseteq> H \<Longrightarrow> exclusive H'"
  unfolding exclusive_def by blast

lemma exclusive_Un:
  "exclusive (H \<union> N) \<longleftrightarrow> exclusive H \<and> exclusive N \<and> (\<forall>x\<in>H. \<forall>y\<in>N. \<not> clash x y)"
  unfolding exclusive_def using clash_sym by blast

lemma exclusive_same_booking: "(\<And>x. x \<in> H \<Longrightarrow> fst x = i) \<Longrightarrow> exclusive H"
  unfolding exclusive_def clash_def by (auto split: prod.splits) (metis fst_conv)

section \<open>The ledger contract\<close>

locale room_ledger =
  fixes occ :: "'s \<Rightarrow> instant \<Rightarrow> holding set"
    and release :: "uuid \<Rightarrow> 's \<Rightarrow> 's"
    and book :: "'r \<Rightarrow> 's \<Rightarrow> 's"
    and wants :: "'r \<Rightarrow> holding set"
  assumes decay: "t \<le> t' \<Longrightarrow> occ s t' \<subseteq> occ s t"
    and occ_release: "occ (release i s) t = {x \<in> occ s t. fst x \<noteq> i}"
    and occ_book: "occ (book r s) t \<subseteq> occ s t \<union> wants r"
begin

lemma exclusive_later: "exclusive (occ s t) \<Longrightarrow> t \<le> t' \<Longrightarrow> exclusive (occ s t')"
  by (rule exclusive_mono [OF _ decay])

lemma exclusive_release: "exclusive (occ s t) \<Longrightarrow> exclusive (occ (release i s) t)"
  by (erule exclusive_mono) (auto simp: occ_release)

lemma occ_release_all: "occ (fold release is s) t = {x \<in> occ s t. fst x \<notin> set is}"
  by (induction "is" arbitrary: s) (auto simp: occ_release)

text \<open>
  Displacing: a booking goes in, and every holder its intervals clash with goes out.
\<close>

lemma exclusive_displace:
  assumes "exclusive (occ s t)" "exclusive (wants r)"
    and "\<And>x y. x \<in> occ s t \<Longrightarrow> y \<in> wants r \<Longrightarrow> clash x y \<Longrightarrow> fst x \<in> set is"
  shows "exclusive (occ (fold release is (book r s)) t)"
proof -
  have "occ (fold release is (book r s)) t \<subseteq> {x \<in> occ s t. fst x \<notin> set is} \<union> wants r"
    using occ_book [of r s t] by (auto simp: occ_release_all)
  moreover have "exclusive ({x \<in> occ s t. fst x \<notin> set is} \<union> wants r)"
    unfolding exclusive_Un
  proof (intro conjI ballI)
    show "exclusive {x \<in> occ s t. fst x \<notin> set is}" by (rule exclusive_mono [OF assms(1)]) auto
    show "\<not> clash x y" if "x \<in> {x \<in> occ s t. fst x \<notin> set is}" "y \<in> wants r" for x y
      using that assms(3) by blast
  qed (rule assms(2))
  ultimately show ?thesis by (rule exclusive_mono [rotated])
qed

lemma exclusive_book:
  assumes "exclusive (occ s t)" "exclusive (wants r)"
    and "\<And>x y. x \<in> occ s t \<Longrightarrow> y \<in> wants r \<Longrightarrow> \<not> clash x y"
  shows "exclusive (occ (book r s) t)"
  using exclusive_displace [of s t r "[]"] assms by auto

end

section \<open>The repository as a ledger\<close>

lemma active_later: "active_occupancy_clause s t' b \<Longrightarrow> t \<le> t' \<Longrightarrow> active_occupancy_clause s t b"
  by (auto simp: active_occupancy_clause_def split: option.splits)

lemma set_update_where: "set (update_where p f xs) = (\<lambda>x. if p x then f x else x) ` set xs"
  by (auto simp: update_where_def)

lemma filter_update_where:
  "(\<And>x. k (f x) = k x) \<Longrightarrow>
   filter (\<lambda>x. k x \<noteq> i) (update_where (\<lambda>x. k x = i) f xs) = filter (\<lambda>x. k x \<noteq> i) xs"
  by (induction xs) (auto simp: update_where_def)

lemma map_update_where: "(\<And>x. k (f x) = k x) \<Longrightarrow> map k (update_where p f xs) = map k xs"
  by (simp add: update_where_def)

lemma active_cong_series:
  "db_series s' = db_series s \<Longrightarrow> active_occupancy_clause s' t b = active_occupancy_clause s t b"
proof -
  assume "db_series s' = db_series s"
  then have "joined_hold s' b = joined_hold s b"
    by (simp add: joined_hold_def find_series_def split: option.split)
  then show ?thesis by (simp add: active_occupancy_clause_def)
qed

lemma occupancy_mem:
  "(i, f, a, e) \<in> occupancy s t \<longleftrightarrow>
     (\<exists>sl\<in>set (db_slots s). \<exists>b\<in>set (db_bookings s).
        sl_status sl = SS_CONFIRMED \<and> bk_id b = sl_booking_id sl \<and> \<not> bk_is_deleted b \<and>
        active_occupancy_clause s t b \<and> bk_id b = i \<and> sl_facility_id sl = f \<and> sl_start_at sl = a \<and> sl_end_at sl = e)"
  by (auto simp: occupancy_def)

lemma occupancyI:
  "sl \<in> set (db_slots s) \<Longrightarrow> b \<in> set (db_bookings s) \<Longrightarrow> sl_status sl = SS_CONFIRMED \<Longrightarrow>
   bk_id b = sl_booking_id sl \<Longrightarrow> \<not> bk_is_deleted b \<Longrightarrow> active_occupancy_clause s t b \<Longrightarrow>
   (sl_booking_id sl, sl_facility_id sl, sl_start_at sl, sl_end_at sl) \<in> occupancy s t"
  by (auto simp: occupancy_mem)

text \<open>A booking row and the slots written with it; \<open>place\<close> is what three successful inserts do.\<close>

type_synonym placement = "booking \<times> room_line list \<times> slot list"

definition place :: "placement \<Rightarrow> db \<Rightarrow> db" where
  "place p s =
     (case p of (b, lines, slots) \<Rightarrow>
       s\<lparr>db_bookings := db_bookings s @ [b],
         db_lines := filter (\<lambda>r. rl_booking_id r \<noteq> bk_id b) (db_lines s) @ lines,
         db_slots := filter (\<lambda>sl. sl_booking_id sl \<noteq> bk_id b) (db_slots s) @ slots\<rparr>)"

definition placement_ok :: "placement \<Rightarrow> bool" where
  "placement_ok p \<longleftrightarrow> (case p of (b, lines, slots) \<Rightarrow> \<forall>sl\<in>set slots. sl_booking_id sl = bk_id b)"

text \<open>What a placement asks for; a placement with slots of other bookings asks for everything.\<close>

definition placement_wants :: "placement \<Rightarrow> holding set" where
  "placement_wants p =
     (case p of (b, lines, slots) \<Rightarrow>
       if placement_ok p then {(bk_id b, sl_facility_id sl, sl_start_at sl, sl_end_at sl) | sl. sl \<in> set slots}
       else UNIV)"

lemma occupancy_decay: "t \<le> t' \<Longrightarrow> occupancy s t' \<subseteq> occupancy s t"
  unfolding occupancy_def using active_later by blast

lemma occupancy_place: "occupancy (place p s) t \<subseteq> occupancy s t \<union> placement_wants p"
proof
  fix x
  assume x: "x \<in> occupancy (place p s) t"
  obtain b lines slots where p: "p = (b, lines, slots)" by (cases p)
  have act: "active_occupancy_clause (place p s) t c = active_occupancy_clause s t c" for c
    by (rule active_cong_series) (simp add: place_def p)
  show "x \<in> occupancy s t \<union> placement_wants p"
  proof (cases "placement_ok p")
    case True
    with x show ?thesis
      unfolding occupancy_def act by (auto simp: place_def p placement_ok_def placement_wants_def)
  qed (simp add: placement_wants_def p)
qed

lemma occupancy_status_change:
  assumes "\<And>b. bk_id (f b) = bk_id b" "\<And>b. bk_status (f b) \<notin> {BS_CONFIRMED, BS_PENDING_PAYMENT}"
    and "db_series s' = db_series s"
    and "db_bookings s' = update_where (\<lambda>b. bk_id b = i) f (db_bookings s)"
    and "db_slots s' = db_slots s \<or>
         db_slots s' = update_where (\<lambda>sl. sl_booking_id sl = i) (\<lambda>sl. sl\<lparr>sl_status := SS_CANCELLED\<rparr>) (db_slots s)"
  shows "occupancy s' t = {x \<in> occupancy s t. fst x \<noteq> i}"
proof -
  have act: "active_occupancy_clause s' t b = active_occupancy_clause s t b" for b
    by (rule active_cong_series) (rule assms(3))
  have dead: "\<not> active_occupancy_clause s t (f b)" for b
    using assms(2) [of b] by (auto simp: active_occupancy_clause_def)
  show ?thesis
    using assms(5) unfolding occupancy_def act assms(4)
    by (auto simp: set_update_where dead assms(1) split: if_splits) (metis (no_types, lifting))+
qed

lemma occupancy_override: "occupancy (override_booking now i by_id reason s) t = {x \<in> occupancy s t. fst x \<noteq> i}"
  by (rule occupancy_status_change [where f = "\<lambda>b. b\<lparr>bk_status := BS_OVERRIDDEN, bk_cancelled_at := Some now,
      bk_cancelled_by_id := by_id, bk_cancel_reason := reason\<rparr>"])
     (simp_all add: override_booking_def release_slots_def)

lemma occupancy_cancel: "occupancy (cancel_booking now i by_id reason cs s) t = {x \<in> occupancy s t. fst x \<noteq> i}"
  by (rule occupancy_status_change [where f = "\<lambda>b. b\<lparr>bk_status := BS_CANCELLED, bk_cancelled_at := Some now,
      bk_cancelled_by_id := by_id, bk_cancel_reason := reason\<rparr>"])
     (simp_all add: cancel_booking_def release_slots_def Let_def)

interpretation override_ledger: room_ledger occupancy "\<lambda>i. override_booking now i by_id reason" place placement_wants
  by unfold_locales (simp_all add: occupancy_decay occupancy_override occupancy_place)

interpretation cancel_ledger: room_ledger occupancy "\<lambda>i. cancel_booking now i by_id reason cs" place placement_wants
  by unfold_locales (simp_all add: occupancy_decay occupancy_cancel occupancy_place)

section \<open>Confirming and updating a series\<close>

text \<open>
  Confirming the pending occurrences of a series whose hold is still active adds nothing to what the
  rooms already owe it.
\<close>

definition hold_active :: "db \<Rightarrow> uuid \<Rightarrow> instant \<Rightarrow> bool" where
  "hold_active s series_id t \<longleftrightarrow>
     (case find_series s series_id of None \<Rightarrow> True
      | Some x \<Rightarrow> is_pending_payment_hold_active (se_payment_hold_expires_at x) t)"

lemma active_pending_hold:
  assumes "bk_status b = BS_PENDING_PAYMENT" "bk_series_id b = Some i" "hold_active s i t"
  shows "active_occupancy_clause s t b"
  using assms
  by (auto simp: active_occupancy_clause_def joined_hold_def hold_active_def is_pending_payment_hold_active_def
      split: option.splits)

lemma find_update_where:
  assumes "\<And>x. se_id (f x) = se_id x"
  shows "List.find (\<lambda>x. se_id x = i) (update_where p f xs) =
    map_option (\<lambda>x. if p x then f x else x) (List.find (\<lambda>x. se_id x = i) xs)"
  using assms by (induction xs) (auto simp: update_where_def)

lemma find_series_update:
  "(\<And>x. se_id (f x) = se_id x) \<Longrightarrow>
   find_series (update_series i f s) j =
     map_option (\<lambda>x. if se_id x = i \<and> \<not> se_is_deleted x then f x else x) (find_series s j)"
  by (simp add: find_series_def update_series_def find_update_where)

lemma find_series_id: "find_series s i = Some x \<Longrightarrow> se_id x = i"
  by (auto simp: find_series_def dest: find_Some_set)

lemma joined_hold_update_series:
  assumes "\<And>x. se_id (f x) = se_id x" "bk_series_id b \<noteq> Some i"
  shows "joined_hold (update_series i f s) b = joined_hold s b"
  using assms
  by (auto simp: joined_hold_def find_series_update dest: find_series_id split: option.splits)

text \<open>
  An update of series \<open>i\<close> can only touch the occupancy of its own pending occurrences; where its hold
  is active, or none of them is pending, nothing is added.
\<close>

lemma occupancy_update_series:
  assumes "\<And>x. se_id (f x) = se_id x"
    and "hold_active s i t \<or> (\<forall>b\<in>set (db_bookings s). bk_series_id b = Some i \<longrightarrow> bk_is_deleted b \<or> bk_status b \<noteq> BS_PENDING_PAYMENT)"
  shows "occupancy (update_series i f s) t \<subseteq> occupancy s t"
proof -
  have "active_occupancy_clause s t b"
    if b: "b \<in> set (db_bookings s)" "\<not> bk_is_deleted b" and a: "active_occupancy_clause (update_series i f s) t b" for b
  proof (cases "bk_series_id b = Some i")
    case True
    with assms(2) b a active_pending_hold [of b i s t] show ?thesis
      by (auto simp: active_occupancy_clause_def)
  next
    case False
    with a show ?thesis by (simp add: active_occupancy_clause_def joined_hold_update_series [OF assms(1)])
  qed
  then show ?thesis by (auto simp: occupancy_def update_series_def)
qed

lemma confirm_keeps_series: "db_series (confirm_pending_series_bookings i s) = db_series s"
  by (simp add: confirm_pending_series_bookings_def)

lemma occupancy_confirm:
  assumes "hold_active s i t"
  shows "occupancy (confirm_pending_series_bookings i s) t \<subseteq> occupancy s t"
proof -
  have act: "active_occupancy_clause (confirm_pending_series_bookings i s) t b = active_occupancy_clause s t b" for b
    by (rule active_cong_series) (rule confirm_keeps_series)
  have "\<exists>c\<in>set (db_bookings s). bk_id c = bk_id b \<and> \<not> bk_is_deleted c \<and> active_occupancy_clause s t c"
    if b: "b \<in> set (db_bookings (confirm_pending_series_bookings i s))" "\<not> bk_is_deleted b"
      "active_occupancy_clause s t b" for b
  proof -
    from b(1) obtain c where c: "c \<in> set (db_bookings s)"
        "b = (if bk_series_id c = Some i \<and> bk_status c = BS_PENDING_PAYMENT \<and> \<not> bk_is_deleted c
              then c\<lparr>bk_status := BS_CONFIRMED\<rparr> else c)"
      by (auto simp: confirm_pending_series_bookings_def set_update_where)
    with b active_pending_hold [OF _ _ assms, of c] show ?thesis by (auto split: if_splits)
  qed
  moreover have "db_slots (confirm_pending_series_bookings i s) = db_slots s"
    by (simp add: confirm_pending_series_bookings_def)
  ultimately show ?thesis unfolding subset_eq by (fastforce simp: occupancy_mem act)
qed

section \<open>Queries against the abstraction\<close>

lemma occupying_rows_iff:
  "(sl, b) \<in> set (occupying_rows s t f a e) \<longleftrightarrow>
     sl \<in> set (db_slots s) \<and> b \<in> set (db_bookings s) \<and> bk_id b = sl_booking_id sl \<and> sl_facility_id sl = f \<and>
     sl_status sl = SS_CONFIRMED \<and> sl_start_at sl < e \<and> a < sl_end_at sl \<and> \<not> bk_is_deleted b \<and>
     active_occupancy_clause s t b"
  by (auto simp: occupying_rows_def)

definition bookers_exist :: "db \<Rightarrow> bool" where
  "bookers_exist s \<longleftrightarrow> (\<forall>b\<in>set (db_bookings s). find_user s (bk_user_id b) \<noteq> None)"

lemma occupancy_reported:
  assumes "bookers_exist s" "(i, f, a', e') \<in> occupancy s t" "a' < e" "a < e'"
  shows "\<exists>row\<in>set (list_occupying_slots s t f a e l). oc_booking_id row = i"
proof -
  from assms(2) obtain sl b where
    sb: "sl \<in> set (db_slots s)" "b \<in> set (db_bookings s)" "bk_id b = i" "bk_id b = sl_booking_id sl"
      "sl_status sl = SS_CONFIRMED" "\<not> bk_is_deleted b" "active_occupancy_clause s t b"
      "sl_facility_id sl = f" "sl_start_at sl = a'" "sl_end_at sl = e'"
    by (auto simp: occupancy_def)
  then have row: "(sl, b) \<in> set (occupying_rows s t f a e)"
    using assms(3,4) by (simp add: occupying_rows_iff)
  obtain u where "find_user s (bk_user_id b) = Some u"
    using assms(1) sb(2) by (auto simp: bookers_exist_def)
  with row sb(3) show ?thesis unfolding list_occupying_slots_def by force
qed

lemma reported_occupancy:
  assumes "row \<in> set (list_occupying_slots s t f a e l)"
  shows "\<exists>sl b. (sl, b) \<in> set (occupying_rows s t f a e) \<and> oc_booking_id row = bk_id b \<and>
    oc_ministry_id row = bk_ministry_id b \<and> oc_start_at row = bk_start_at b \<and> oc_end_at row = bk_end_at b \<and>
    oc_user_id row = bk_user_id b \<and> oc_series_id row = bk_series_id b"
  using assms by (fastforce simp: list_occupying_slots_def split: option.splits)

section \<open>Properties\<close>

text \<open>
  The overlap query answers for the abstraction: a room interval is reported as taken exactly when
  some holding of another booking overlaps it.
\<close>

lemma has_confirmed_slot_overlap_iff:
  "has_confirmed_slot_overlap s t f a e exclude \<longleftrightarrow>
     (\<exists>(i, f', a', e')\<in>occupancy s t. f' = f \<and> a' < e \<and> a < e' \<and> exclude \<noteq> Some i)"
proof -
  have "has_confirmed_slot_overlap s t f a e exclude \<longleftrightarrow>
      (\<exists>r\<in>set (occupying_rows s t f a e). exclude \<noteq> Some (sl_booking_id (fst r)))"
  proof -
    have "(case r of (sl, b) \<Rightarrow> case exclude of None \<Rightarrow> True | Some x \<Rightarrow> sl_booking_id sl \<noteq> x) \<longleftrightarrow>
        exclude \<noteq> Some (sl_booking_id (fst r))" for r :: "slot \<times> booking"
      by (cases exclude) (auto split: prod.splits)
    then show ?thesis
      unfolding has_confirmed_slot_overlap_def length_greater_0_conv filter_empty_conv by simp
  qed
  also have "\<dots> \<longleftrightarrow> (\<exists>sl b. (sl, b) \<in> set (occupying_rows s t f a e) \<and> exclude \<noteq> Some (sl_booking_id sl))"
    by (metis fst_conv surj_pair)
  also have "\<dots> \<longleftrightarrow> (\<exists>i a' e'. (i, f, a', e') \<in> occupancy s t \<and> a' < e \<and> a < e' \<and> exclude \<noteq> Some i)"
  proof (intro iffI; elim exE conjE)
    fix sl b
    assume r: "(sl, b) \<in> set (occupying_rows s t f a e)" and x: "exclude \<noteq> Some (sl_booking_id sl)"
    then have "(sl_booking_id sl, f, sl_start_at sl, sl_end_at sl) \<in> occupancy s t"
      using occupancyI [of sl s b t] by (auto simp: occupying_rows_iff)
    with r x show "\<exists>i a' e'. (i, f, a', e') \<in> occupancy s t \<and> a' < e \<and> a < e' \<and> exclude \<noteq> Some i"
      unfolding occupying_rows_iff by blast
  next
    fix i a' e'
    assume "(i, f, a', e') \<in> occupancy s t" "a' < e" "a < e'" "exclude \<noteq> Some i"
    then show "\<exists>sl b. (sl, b) \<in> set (occupying_rows s t f a e) \<and> exclude \<noteq> Some (sl_booking_id sl)"
      by (auto simp: occupancy_mem occupying_rows_iff) blast
  qed
  finally show ?thesis by auto
qed

end
