(* ===== verification/Review_Token.thy ===== *)
theory Review_Token imports Sample_Data "HOL-Library.Multiset" begin

text \<open>
  The signed acknowledgement of a Priority Ministry override (\<open>priority_override.py\<close>): canonical
  texts of a proposal and of an impact, their digests, the token and its check. Texts, base64 and the
  JSON body are written out; SHA-256, HMAC and the decoding of a body a client sends are parameters,
  gathered in \<open>crypto\<close>. What is assumed of them stands in the statements: no collision among the texts
  digested, and that decoding an issued body gives its payload back.
\<close>

section \<open>Texts\<close>

definition DEC_DIGITS :: string where "DEC_DIGITS = ''0123456789''"
definition HEX_DIGITS :: string where "HEX_DIGITS = ''0123456789abcdef''"

definition dec_digit :: "int \<Rightarrow> char" where "dec_digit n = DEC_DIGITS ! nat (n mod 10)"
definition hex_digit :: "int \<Rightarrow> char" where "hex_digit n = HEX_DIGITS ! nat (n mod 16)"

fun digits :: "(int \<Rightarrow> char) \<Rightarrow> int \<Rightarrow> nat \<Rightarrow> int \<Rightarrow> string" where
  "digits f base 0 n = []"
| "digits f base (Suc w) n = digits f base w (n div base) @ [f n]"

definition str_uuid :: "uuid \<Rightarrow> string" where
  "str_uuid u =
     (let h = digits hex_digit 16 32 u
      in take 8 h @ ''-'' @ take 4 (drop 8 h) @ ''-'' @ take 4 (drop 12 h) @ ''-'' @ take 4 (drop 16 h) @ ''-''
           @ drop 20 h)"

text \<open>\<open>datetime.isoformat()\<close> in UTC; the microseconds appear only when there are some.\<close>

definition utc_isoformat :: "instant \<Rightarrow> string" where
  "utc_isoformat u =
     (let d = wall_date u; t = wall_time u; num = digits dec_digit 10;
          us = t mod 1000000; sec = t div 1000000
      in num 4 (date_year d) @ ''-'' @ num 2 (date_month d) @ ''-'' @ num 2 (date_day d) @ ''T'' @
         num 2 (sec div 3600) @ '':'' @ num 2 (sec div 60 mod 60) @ '':'' @ num 2 (sec mod 60) @
         (if us = 0 then [] else ''.'' @ num 6 us) @ ''+00:00'')"

definition NL :: char where "NL = CHR 0x0A"

fun join_lines :: "string list \<Rightarrow> string" where
  "join_lines [] = []"
| "join_lines [x] = x"
| "join_lines (x # xs) = x @ NL # join_lines xs"

definition room_interval_key :: "uuid \<Rightarrow> instant \<Rightarrow> instant \<Rightarrow> string" where
  "room_interval_key facility_id start_at end_at =
     str_uuid facility_id @ ''|'' @ utc_isoformat start_at @ ''|'' @ utc_isoformat end_at"

text \<open>\<open>base64.urlsafe_b64encode(raw).rstrip(b"=")\<close>\<close>

definition b64_alphabet :: string where
  "b64_alphabet = ''ABCDEFGHIJKLMNOPQRSTUVWXYZabcdefghijklmnopqrstuvwxyz0123456789-_''"

definition b64_char :: "int \<Rightarrow> char" where "b64_char n = b64_alphabet ! nat (n mod 64)"

fun b64_bytes :: "int list \<Rightarrow> string" where
  "b64_bytes [] = []"
| "b64_bytes [a] = [b64_char (a div 4), b64_char (a * 16)]"
| "b64_bytes [a, b] = [b64_char (a div 4), b64_char (a * 16 + b div 16), b64_char (b * 4)]"
| "b64_bytes (a # b # c # rest) =
     b64_char (a div 4) # b64_char (a * 16 + b div 16) # b64_char (b * 4 + c div 64) # b64_char c # b64_bytes rest"

definition b64encode :: "string \<Rightarrow> string" where
  "b64encode raw = b64_bytes (map (\<lambda>c. of_char c) raw)"

section \<open>The token\<close>

text \<open>The payload's version, context digest and reviewed fingerprints, where they have their type.\<close>

record payload =
  py_v :: "int option"
  py_c :: "string option"
  py_t :: "(string \<times> string) list option"

record crypto =
  cy_sha256_hex :: "string \<Rightarrow> string"
  cy_hmac_sha256 :: "string \<Rightarrow> string \<Rightarrow> string"
  cy_loads_b64 :: "string \<Rightarrow> payload option"

definition TOKEN_VERSION :: int where "TOKEN_VERSION = 1"

definition context_text :: "uuid \<Rightarrow> uuid option \<Rightarrow> string list \<Rightarrow> string" where
  "context_text booker_id ministry_id proposal =
     join_lines (str_uuid booker_id # (case ministry_id of None \<Rightarrow> [] | Some m \<Rightarrow> str_uuid m) # sort proposal)"

definition impact_text :: "override_impact \<Rightarrow> string" where
  "impact_text im =
     join_lines (str_uuid (im_booking_id im) # utc_isoformat (im_start_at im) # utc_isoformat (im_end_at im) #
       sort (map (\<lambda>i. room_interval_key (ri_facility_id i) (ri_start_at i) (ri_end_at i)) (im_released_intervals im)))"

definition context_digest :: "crypto \<Rightarrow> uuid \<Rightarrow> uuid option \<Rightarrow> string list \<Rightarrow> string" where
  "context_digest c booker_id ministry_id proposal = cy_sha256_hex c (context_text booker_id ministry_id proposal)"

definition impact_fingerprint :: "crypto \<Rightarrow> override_impact \<Rightarrow> string" where
  "impact_fingerprint c im = cy_sha256_hex c (impact_text im)"

definition booking_digest :: "crypto \<Rightarrow> uuid \<Rightarrow> string" where
  "booking_digest c i = cy_sha256_hex c (str_uuid i)"

text \<open>The dictionary comprehension \<open>{digest: fingerprint for impact in impacts}\<close>.\<close>

definition reviewed_dict :: "crypto \<Rightarrow> override_impact list \<Rightarrow> (string \<times> string) list" where
  "reviewed_dict c impacts =
     foldl (\<lambda>d im. dict_set d (booking_digest c (im_booking_id im)) (impact_fingerprint c im)) [] impacts"

definition issued_payload :: "crypto \<Rightarrow> uuid \<Rightarrow> uuid option \<Rightarrow> string list \<Rightarrow> override_impact list \<Rightarrow> payload" where
  "issued_payload c booker_id ministry_id proposal impacts =
     \<lparr>py_v = Some TOKEN_VERSION, py_c = Some (context_digest c booker_id ministry_id proposal),
      py_t = Some (sort_key fst (reviewed_dict c impacts))\<rparr>"

text \<open>\<open>json.dumps(payload, sort_keys=True, separators=(",", ":"))\<close>; digests are hexadecimal.\<close>

definition json_str :: "string \<Rightarrow> string" where "json_str s = CHR 0x22 # s @ [CHR 0x22]"

fun json_members :: "(string \<times> string) list \<Rightarrow> string" where
  "json_members [] = []"
| "json_members [(k, v)] = json_str k @ '':'' @ json_str v"
| "json_members ((k, v) # kvs) = json_str k @ '':'' @ json_str v @ '','' @ json_members kvs"

definition json_dumps :: "payload \<Rightarrow> string" where
  "json_dumps p =
     ''{'' @ json_str ''c'' @ '':'' @ json_str (the (py_c p)) @ '','' @ json_str ''t'' @ '':{'' @
     json_members (the (py_t p)) @ ''},'' @ json_str ''v'' @ '':1}''"

definition token_body :: "crypto \<Rightarrow> uuid \<Rightarrow> uuid option \<Rightarrow> string list \<Rightarrow> override_impact list \<Rightarrow> string" where
  "token_body c booker_id ministry_id proposal impacts =
     b64encode (json_dumps (issued_payload c booker_id ministry_id proposal impacts))"

definition token_signature :: "crypto \<Rightarrow> string \<Rightarrow> string \<Rightarrow> string" where
  "token_signature c secret body = b64encode (cy_hmac_sha256 c secret body)"

definition issue_override_review_token ::
  "crypto \<Rightarrow> string \<Rightarrow> uuid \<Rightarrow> uuid option \<Rightarrow> string list \<Rightarrow> override_impact list \<Rightarrow> string" where
  "issue_override_review_token c secret booker_id ministry_id proposal impacts =
     (let body = token_body c booker_id ministry_id proposal impacts
      in body @ ''.'' @ token_signature c secret body)"

text \<open>\<open>token.partition(".")\<close>\<close>

definition partition_dot :: "string \<Rightarrow> string \<times> string" where
  "partition_dot token = (takeWhile (\<lambda>c. c \<noteq> CHR ''.'') token, tl (dropWhile (\<lambda>c. c \<noteq> CHR ''.'') token))"

definition reviewed_fingerprints :: "crypto \<Rightarrow> string \<Rightarrow> string \<Rightarrow> string \<Rightarrow> (string \<times> string) list option" where
  "reviewed_fingerprints c secret token ctx =
     (case partition_dot token of (body, signature) \<Rightarrow>
       if body = [] \<or> signature = [] then None
       else if token_signature c secret body \<noteq> signature then None
       else (case cy_loads_b64 c body of
               None \<Rightarrow> None
             | Some p \<Rightarrow> if py_v p \<noteq> Some TOKEN_VERSION \<or> py_c p \<noteq> Some ctx then None else py_t p))"

definition require_reviewed_override ::
  "crypto \<Rightarrow> string \<Rightarrow> string option \<Rightarrow> uuid \<Rightarrow> uuid option \<Rightarrow> string list \<Rightarrow> override_impact list \<Rightarrow> exn + unit" where
  "require_reviewed_override c secret token booker_id ministry_id proposal impacts =
     (if impacts = [] then Inr ()
      else if \<not> truthy token then Inl (raise_exn Conflict (Some (BCode OVERRIDE_REVIEW_REQUIRED)) CtxNone)
      else (case reviewed_fingerprints c secret (the token) (context_digest c booker_id ministry_id proposal) of
              None \<Rightarrow> Inl (raise_exn Conflict (Some (BCode OVERRIDE_REVIEW_STALE)) CtxNone)
            | Some reviewed \<Rightarrow>
                if list_ex (\<lambda>im. map_of reviewed (booking_digest c (im_booking_id im)) \<noteq> Some (impact_fingerprint c im)) impacts
                then Inl (raise_exn Conflict (Some (BCode OVERRIDE_REVIEW_STALE)) CtxNone)
                else Inr ()))"

section \<open>Lemmas\<close>

subsection \<open>Fixed-width numerals\<close>

lemma length_digits [simp]: "length (digits f b w n) = w"
  by (induction w arbitrary: n) simp_all

lemma digits_inj:
  assumes "\<And>x y. f x = f y \<Longrightarrow> x mod b = y mod b" "0 < b"
    and "digits f b w n = digits f b w m" "0 \<le> n" "n < b ^ w" "0 \<le> m" "m < b ^ w"
  shows "n = m"
  using assms(3-)
proof (induction w arbitrary: n m)
  case 0
  then show ?case by simp
next
  case (Suc w)
  have less: "x div b < b ^ w" if "x < b ^ Suc w" for x
  proof (rule ccontr)
    assume "\<not> x div b < b ^ w"
    then have "b ^ w * b \<le> x div b * b" using assms(2) by (intro mult_right_mono) simp_all
    moreover have "x div b * b \<le> x" using assms(2) by (simp add: minus_mod_eq_div_mult [symmetric])
    ultimately show False using that by (simp add: mult.commute)
  qed
  have d: "n div b < b ^ w" "m div b < b ^ w" using less Suc.prems by simp_all
  have "n div b = m div b"
    by (rule Suc.IH) (use Suc.prems d assms(2) in \<open>simp_all add: pos_imp_zdiv_nonneg_iff\<close>)
  moreover have "n mod b = m mod b" by (rule assms(1)) (use Suc.prems(1) in simp)
  ultimately show ?case by (metis mult_div_mod_eq)
qed

lemma dec_digit_inj: "dec_digit x = dec_digit y \<Longrightarrow> x mod 10 = y mod 10"
  unfolding dec_digit_def by (subst (asm) nth_eq_iff_index_eq) (simp_all add: DEC_DIGITS_def)

lemma hex_digit_inj: "hex_digit x = hex_digit y \<Longrightarrow> x mod 16 = y mod 16"
  unfolding hex_digit_def by (subst (asm) nth_eq_iff_index_eq) (simp_all add: HEX_DIGITS_def)

lemma dec_digits_inj:
  assumes "digits dec_digit 10 w n = digits dec_digit 10 w m" "0 \<le> n" "n < 10 ^ w" "0 \<le> m" "m < 10 ^ w"
  shows "n = m"
  by (rule digits_inj [OF dec_digit_inj _ assms]) simp_all

lemma hex_digits_inj:
  assumes "digits hex_digit 16 w n = digits hex_digit 16 w m" "0 \<le> n" "n < 16 ^ w" "0 \<le> m" "m < 16 ^ w"
  shows "n = m"
  by (rule digits_inj [OF hex_digit_inj _ assms]) simp_all

lemma digit_chars:
  "dec_digit z \<in> set DEC_DIGITS" "hex_digit z \<in> set HEX_DIGITS"
  unfolding dec_digit_def hex_digit_def by (rule nth_mem; simp add: DEC_DIGITS_def HEX_DIGITS_def)+

lemma plain_digits:
  "c \<in> set (digits dec_digit b w n) \<Longrightarrow> c \<noteq> NL \<and> c \<noteq> CHR ''|''"
  "c \<in> set (digits hex_digit b w n) \<Longrightarrow> c \<noteq> NL \<and> c \<noteq> CHR ''|''"
proof -
  have d: "dec_digit z \<noteq> NL \<and> dec_digit z \<noteq> CHR ''|''" for z
    using digit_chars(1) [of z] by (auto simp: DEC_DIGITS_def NL_def)
  have h: "hex_digit z \<noteq> NL \<and> hex_digit z \<noteq> CHR ''|''" for z
    using digit_chars(2) [of z] by (auto simp: HEX_DIGITS_def NL_def)
  show "c \<in> set (digits dec_digit b w n) \<Longrightarrow> c \<noteq> NL \<and> c \<noteq> CHR ''|''"
    by (induction w arbitrary: n) (auto simp: d)
  show "c \<in> set (digits hex_digit b w n) \<Longrightarrow> c \<noteq> NL \<and> c \<noteq> CHR ''|''"
    by (induction w arbitrary: n) (auto simp: h)
qed

subsection \<open>Canonical texts are injective\<close>

definition valid_uuid :: "uuid \<Rightarrow> bool" where "valid_uuid u \<longleftrightarrow> 0 \<le> u \<and> u < 16 ^ 32"

definition valid_instant :: "instant \<Rightarrow> bool" where
  "valid_instant u \<longleftrightarrow> 1 \<le> date_year (wall_date u) \<and> date_year (wall_date u) \<le> 9999"

lemma uuid_pieces:
  assumes "length h = 32"
  shows "take 8 h @ take 4 (drop 8 h) @ take 4 (drop 12 h) @ take 4 (drop 16 h) @ drop 20 h = h"
proof -
  have "take 4 (drop 16 h) @ drop 20 h = drop 16 h" "take 4 (drop 12 h) @ drop 16 h = drop 12 h"
    "take 4 (drop 8 h) @ drop 12 h = drop 8 h"
    using append_take_drop_id [of 4 "drop 16 h"] append_take_drop_id [of 4 "drop 12 h"] append_take_drop_id [of 4 "drop 8 h"]
    by (simp_all only: drop_drop) (simp_all add: add.commute)
  then show ?thesis by (simp only: append_take_drop_id)
qed

lemma str_uuid_inj:
  assumes "str_uuid u = str_uuid v" "valid_uuid u" "valid_uuid v"
  shows "u = v"
proof -
  let ?h = "digits hex_digit 16 32 u" and ?k = "digits hex_digit 16 32 v"
  have "take 8 ?h = take 8 ?k \<and> take 4 (drop 8 ?h) = take 4 (drop 8 ?k) \<and> take 4 (drop 12 ?h) = take 4 (drop 12 ?k) \<and>
      take 4 (drop 16 ?h) = take 4 (drop 16 ?k) \<and> drop 20 ?h = drop 20 ?k"
    using assms(1) by (simp add: str_uuid_def Let_def)
  then have "?h = ?k" using uuid_pieces [of ?h] uuid_pieces [of ?k] by (metis length_digits)
  then show ?thesis
    using hex_digits_inj [OF \<open>?h = ?k\<close>] assms(2,3) unfolding valid_uuid_def by blast
qed

lemma utc_isoformat_inj:
  assumes "utc_isoformat u = utc_isoformat v" "valid_instant u" "valid_instant v"
  shows "u = v"
proof -
  let ?num = "digits dec_digit 10"
  define t where "t = wall_time u"
  define t' where "t' = wall_time v"
  have rt: "0 \<le> t" "t < 86400000000" "0 \<le> t'" "t' < 86400000000"
    using valid_wall_time [of u] valid_wall_time [of v] by (simp_all add: t_def t'_def valid_tod_def DAY_US_def)
  have parts: "?num 4 (date_year (wall_date u)) = ?num 4 (date_year (wall_date v))"
      "?num 2 (date_month (wall_date u)) = ?num 2 (date_month (wall_date v))"
      "?num 2 (date_day (wall_date u)) = ?num 2 (date_day (wall_date v))"
      "?num 2 (t div 1000000 div 3600) = ?num 2 (t' div 1000000 div 3600)"
      "?num 2 (t div 1000000 div 60 mod 60) = ?num 2 (t' div 1000000 div 60 mod 60)"
      "?num 2 (t div 1000000 mod 60) = ?num 2 (t' div 1000000 mod 60)"
    and us: "(if t mod 1000000 = 0 then [] else ''.'' @ ?num 6 (t mod 1000000)) =
             (if t' mod 1000000 = 0 then [] else ''.'' @ ?num 6 (t' mod 1000000))"
    using assms(1) by (simp_all add: utc_isoformat_def Let_def t_def [symmetric] t'_def [symmetric])
  note inj = dec_digits_inj
  have month: "1 \<le> date_month d" "date_month d \<le> 12" for d by (rule date_month_range)+
  have day: "1 \<le> date_day d" "date_day d \<le> 31" for d
    using date_parts(1) [of d] month_len_le_31 [of "date_month d" "is_leap (date_year d)"] month [of d]
    by (simp_all add: valid_ymd_def days_in_month_def)
  have y: "date_year (wall_date u) = date_year (wall_date v)"
    by (rule inj [OF parts(1)]) (use assms(2,3) in \<open>simp_all add: valid_instant_def\<close>)
  have m: "date_month (wall_date u) = date_month (wall_date v)"
    by (rule inj [OF parts(2)]) (use month in \<open>simp_all add: order_trans [OF _ month(1)] le_less_trans [OF month(2)]\<close>)
  have d: "date_day (wall_date u) = date_day (wall_date v)"
    by (rule inj [OF parts(3)]) (use day in \<open>simp_all add: order_trans [OF _ day(1)] le_less_trans [OF day(2)]\<close>)
  have date: "wall_date u = wall_date v" using y m d by (metis date_parts(2))
  have sec: "0 \<le> x div 1000000 div 3600" "x div 1000000 div 3600 < 100" if "0 \<le> x" "x < 86400000000" for x :: int
    using that by (simp_all add: zdiv_zmult2_eq [symmetric])
  have mod60: "0 \<le> z mod 60" "z mod 60 < 100" for z :: int using pos_mod_bound [of 60 z] by simp_all
  have h: "t div 1000000 div 3600 = t' div 1000000 div 3600"
    by (rule inj [OF parts(4)]) (use sec rt in simp_all)
  have mi: "t div 1000000 div 60 mod 60 = t' div 1000000 div 60 mod 60"
    by (rule inj [OF parts(5)]) (use mod60 in simp_all)
  have se: "t div 1000000 mod 60 = t' div 1000000 mod 60"
    by (rule inj [OF parts(6)]) (use mod60 in simp_all)
  have micro: "t mod 1000000 = t' mod 1000000"
  proof (cases "t mod 1000000 = 0 \<or> t' mod 1000000 = 0")
    case True
    with us show ?thesis by (auto split: if_splits)
  next
    case False
    with us have "?num 6 (t mod 1000000) = ?num 6 (t' mod 1000000)" by simp
    then show ?thesis by (rule inj) simp_all
  qed
  have split: "x = (x div 3600) * 3600 + (x div 60 mod 60) * 60 + x mod 60" for x :: int
  proof -
    have "x div 60 div 60 = x div 3600" by (simp add: zdiv_zmult2_eq [symmetric])
    then show ?thesis using div_mult_mod_eq [of "x div 60" 60] div_mult_mod_eq [of x 60] by linarith
  qed
  have "t div 1000000 = t' div 1000000" using h mi se split [of "t div 1000000"] split [of "t' div 1000000"] by metis
  then have "t = t'" using micro div_mult_mod_eq [of t 1000000] div_mult_mod_eq [of t' 1000000] by metis
  then show ?thesis using date combine_wall [of u] combine_wall [of v] by (metis t_def t'_def)
qed

lemma plain_str_uuid: "c \<in> set (str_uuid u) \<Longrightarrow> c \<noteq> NL \<and> c \<noteq> CHR ''|''"
  using plain_digits(2) [of c 16 32 u]
  by (auto simp: str_uuid_def Let_def NL_def dest!: in_set_takeD in_set_dropD)

lemma plain_isoformat: "c \<in> set (utc_isoformat u) \<Longrightarrow> c \<noteq> NL \<and> c \<noteq> CHR ''|''"
  using plain_digits(1) by (fastforce simp: utc_isoformat_def Let_def NL_def split: if_splits)

lemma split_at_inj:
  assumes "xs @ s # ys = xs' @ s # ys'" "s \<notin> set xs" "s \<notin> set xs'"
  shows "xs = xs' \<and> ys = ys'"
  using assms
proof (induction xs arbitrary: xs')
  case Nil
  then show ?case by (cases xs') auto
next
  case (Cons x xs)
  then show ?case by (cases xs') auto
qed

definition plain_lines :: "string list \<Rightarrow> bool" where "plain_lines xs \<longleftrightarrow> xs \<noteq> [] \<and> (\<forall>x \<in> set xs. NL \<notin> set x)"

lemma join_lines_inj:
  assumes "join_lines xs = join_lines ys" "plain_lines xs" "plain_lines ys"
  shows "xs = ys"
  using assms
proof (induction xs arbitrary: ys rule: join_lines.induct)
  case 1
  then show ?case by (simp add: plain_lines_def)
next
  case (2 x)
  then show ?case by (cases ys rule: join_lines.cases) (auto simp: plain_lines_def)
next
  case (3 x y zs)
  show ?case
  proof (cases ys rule: join_lines.cases)
    case (3 x' y' zs')
    have "x @ NL # join_lines (y # zs) = x' @ NL # join_lines (y' # zs')" using "3.prems"(1) 3 by simp
    from split_at_inj [OF this] have "x = x'" "join_lines (y # zs) = join_lines (y' # zs')"
      using "3.prems"(2,3) 3 by (auto simp: plain_lines_def)
    moreover have "plain_lines (y # zs)" "plain_lines (y' # zs')" using "3.prems"(2,3) 3 by (auto simp: plain_lines_def)
    ultimately show ?thesis using "3.IH" 3 by simp
  qed (use "3.prems" in \<open>auto simp: plain_lines_def\<close>)
qed

lemma room_interval_key_inj:
  assumes "room_interval_key f s e = room_interval_key f' s' e'" "valid_uuid f" "valid_uuid f'"
    "valid_instant s" "valid_instant s'" "valid_instant e" "valid_instant e'"
  shows "f = f' \<and> s = s' \<and> e = e'"
proof -
  have bar: "CHR ''|'' \<notin> set (str_uuid u)" "CHR ''|'' \<notin> set (utc_isoformat i)" for u i
    using plain_str_uuid plain_isoformat by blast+
  have 1: "str_uuid f @ CHR ''|'' # (utc_isoformat s @ CHR ''|'' # utc_isoformat e) =
      str_uuid f' @ CHR ''|'' # (utc_isoformat s' @ CHR ''|'' # utc_isoformat e')"
    using assms(1) by (simp add: room_interval_key_def)
  from split_at_inj [OF 1 bar(1) bar(1)] have 2: "str_uuid f = str_uuid f'"
    "utc_isoformat s @ CHR ''|'' # utc_isoformat e = utc_isoformat s' @ CHR ''|'' # utc_isoformat e'" by auto
  from split_at_inj [OF 2(2) bar(2) bar(2)] 2(1) show ?thesis
    using str_uuid_inj utc_isoformat_inj assms(2-) by blast
qed

lemma plain_room_interval_key: "NL \<notin> set (room_interval_key f s e)"
  using plain_str_uuid [of NL] plain_isoformat [of NL] by (auto simp: room_interval_key_def NL_def)

lemma plain_context:
  assumes "\<forall>p \<in> set proposal. NL \<notin> set p"
  shows "plain_lines (str_uuid b # (case m of None \<Rightarrow> [] | Some m \<Rightarrow> str_uuid m) # sort proposal)"
proof -
  have "NL \<notin> set (str_uuid u)" for u using plain_str_uuid [of NL u] by blast
  then show ?thesis using assms by (cases m) (simp_all add: plain_lines_def)
qed

lemma str_uuid_nonempty [simp]: "str_uuid u \<noteq> []" "[] \<noteq> str_uuid u" by (simp_all add: str_uuid_def Let_def)

lemma sort_eq_mset: "sort xs = sort ys \<Longrightarrow> mset xs = mset ys" by (metis mset_sort)

lemma context_text_inj:
  assumes "context_text b m ps = context_text b' m' ps'" "\<forall>p \<in> set ps. NL \<notin> set p" "\<forall>p \<in> set ps'. NL \<notin> set p"
    "valid_uuid b" "valid_uuid b'" "\<forall>x \<in> set_option m. valid_uuid x" "\<forall>x \<in> set_option m'. valid_uuid x"
  shows "b = b' \<and> m = m' \<and> mset ps = mset ps'"
proof -
  note lines = join_lines_inj [OF assms(1) [unfolded context_text_def] plain_context [OF assms(2)] plain_context [OF assms(3)]]
  have "str_uuid b = str_uuid b'" "mset ps = mset ps'" using lines sort_eq_mset by auto
  moreover have "m = m'"
  proof (cases m; cases m')
    fix x x' assume "m = Some x" "m' = Some x'"
    with lines have "str_uuid x = str_uuid x'" by simp
    from str_uuid_inj [OF this] show ?thesis using assms(6,7) \<open>m = Some x\<close> \<open>m' = Some x'\<close> by simp
  qed (use lines in simp_all)
  ultimately show ?thesis using str_uuid_inj assms(4,5) by blast
qed

definition interval_triple :: "released_interval \<Rightarrow> uuid \<times> instant \<times> instant" where
  "interval_triple i = (ri_facility_id i, ri_start_at i, ri_end_at i)"

definition impact_facts :: "override_impact \<Rightarrow> uuid \<times> instant \<times> instant \<times> (uuid \<times> instant \<times> instant) multiset" where
  "impact_facts im =
     (im_booking_id im, im_start_at im, im_end_at im, mset (map interval_triple (im_released_intervals im)))"

definition valid_impact :: "override_impact \<Rightarrow> bool" where
  "valid_impact im \<longleftrightarrow> valid_uuid (im_booking_id im) \<and> valid_instant (im_start_at im) \<and> valid_instant (im_end_at im) \<and>
     list_all (\<lambda>i. valid_uuid (ri_facility_id i) \<and> valid_instant (ri_start_at i) \<and> valid_instant (ri_end_at i))
       (im_released_intervals im)"

lemma image_mset_eq_inj:
  assumes "image_mset k A = image_mset k B" "inj_on k (set_mset A \<union> set_mset B)"
  shows "A = B"
proof -
  let ?g = "inv_into (set_mset A \<union> set_mset B) k"
  have g: "?g (k z) = z" if "z \<in> set_mset A \<union> set_mset B" for z using inv_into_f_f [OF assms(2) that] .
  have "image_mset (?g \<circ> k) A = image_mset id A" by (rule image_mset_cong) (use g in simp)
  moreover have "image_mset (?g \<circ> k) B = image_mset id B" by (rule image_mset_cong) (use g in simp)
  moreover have "image_mset (?g \<circ> k) A = image_mset (?g \<circ> k) B"
    using arg_cong [OF assms(1), of "image_mset ?g"] by (simp only: image_mset.compositionality)
  ultimately show ?thesis by (simp only: image_mset.id id_apply)
qed

lemma impact_text_inj:
  assumes "impact_text im = impact_text im'" "valid_impact im" "valid_impact im'"
  shows "impact_facts im = impact_facts im'"
proof -
  let ?key = "\<lambda>(f, s, e). room_interval_key f s e"
  let ?keys = "\<lambda>im. map (\<lambda>i. room_interval_key (ri_facility_id i) (ri_start_at i) (ri_end_at i)) (im_released_intervals im)"
  let ?M = "\<lambda>im. mset (map interval_triple (im_released_intervals im))"
  have "plain_lines (str_uuid u # utc_isoformat a # utc_isoformat b # sort (?keys i))" for u a b i
    using plain_str_uuid [of NL] plain_isoformat [of NL] plain_room_interval_key by (auto simp: plain_lines_def)
  from join_lines_inj [OF assms(1) [unfolded impact_text_def] this this]
  have eq: "str_uuid (im_booking_id im) = str_uuid (im_booking_id im')"
    "utc_isoformat (im_start_at im) = utc_isoformat (im_start_at im')"
    "utc_isoformat (im_end_at im) = utc_isoformat (im_end_at im')" "sort (?keys im) = sort (?keys im')" by auto
  have keys: "mset (?keys i) = image_mset ?key (?M i)" for i
    by (simp add: interval_triple_def multiset.map_comp comp_def)
  have "inj_on ?key (set_mset (?M im) \<union> set_mset (?M im'))"
  proof (rule inj_onI)
    have v: "\<exists>f s e. z = (f, s, e) \<and> valid_uuid f \<and> valid_instant s \<and> valid_instant e"
      if "z \<in> set_mset (?M im) \<union> set_mset (?M im')" for z
      using that assms(2,3) by (auto simp: interval_triple_def valid_impact_def list_all_iff)
    fix x y assume "x \<in> set_mset (?M im) \<union> set_mset (?M im')" "y \<in> set_mset (?M im) \<union> set_mset (?M im')" "?key x = ?key y"
    with v [of x] v [of y] room_interval_key_inj show "x = y" by fastforce
  qed
  with sort_eq_mset [OF eq(4)] have "?M im = ?M im'" unfolding keys by (rule image_mset_eq_inj)
  then show ?thesis
    using eq(1-3) assms(2,3) str_uuid_inj utc_isoformat_inj by (simp add: impact_facts_def valid_impact_def)
qed

subsection \<open>The token\<close>

lemma b64_char_not_dot: "b64_char n \<noteq> CHR ''.''"
proof -
  have "b64_char n \<in> set b64_alphabet"
    unfolding b64_char_def by (rule nth_mem) (simp add: b64_alphabet_def nat_less_iff)
  then show ?thesis by (auto simp: b64_alphabet_def)
qed

lemma b64_not_dot: "CHR ''.'' \<notin> set (b64_bytes bs)"
  by (induction bs rule: b64_bytes.induct) (simp_all add: b64_char_not_dot [symmetric])

lemma b64encode_nonempty: "raw \<noteq> [] \<Longrightarrow> b64encode raw \<noteq> []"
  unfolding b64encode_def by (cases "map (\<lambda>c. of_char c :: int) raw" rule: b64_bytes.cases) auto

lemma partition_dot_issued:
  "partition_dot (b64encode raw @ CHR ''.'' # sig) = (b64encode raw, sig)"
proof -
  have "\<forall>c \<in> set (b64encode raw). c \<noteq> CHR ''.''" using b64_not_dot by (auto simp: b64encode_def)
  then show ?thesis by (simp add: partition_dot_def takeWhile_append2 dropWhile_append2)
qed

lemma json_nonempty: "json_dumps p \<noteq> []" by (simp add: json_dumps_def)

lemma reviewed_fingerprints_issued:
  assumes "cy_loads_b64 c (token_body c b m ps reviewed) = Some (issued_payload c b m ps reviewed)"
    "cy_hmac_sha256 c secret (token_body c b m ps reviewed) \<noteq> []"
  shows "reviewed_fingerprints c secret (issue_override_review_token c secret b m ps reviewed) ctx =
     (if context_digest c b m ps = ctx then Some (sort_key fst (reviewed_dict c reviewed)) else None)"
proof -
  define body where "body = token_body c b m ps reviewed"
  have "partition_dot (body @ CHR ''.'' # token_signature c secret body) = (body, token_signature c secret body)"
    unfolding body_def token_body_def by (rule partition_dot_issued)
  moreover have "body \<noteq> []" "token_signature c secret body \<noteq> []"
    using b64encode_nonempty [OF json_nonempty] b64encode_nonempty [OF assms(2)]
    by (simp_all add: body_def token_signature_def) (simp add: token_body_def)
  moreover have "cy_loads_b64 c body = Some (issued_payload c b m ps reviewed)" using assms(1) by (simp add: body_def)
  ultimately show ?thesis
    by (simp add: reviewed_fingerprints_def issue_override_review_token_def Let_def body_def [symmetric] issued_payload_def)
qed

lemma distinct_reviewed_dict: "distinct (map fst (reviewed_dict c ims))"
proof -
  have "distinct (map fst (foldl (\<lambda>d im. dict_set d (booking_digest c (im_booking_id im)) (impact_fingerprint c im)) d ims))"
    if "distinct (map fst d)" for d
    using that by (induction ims arbitrary: d) (simp_all add: distinct_keys_dict_set)
  then show ?thesis by (simp add: reviewed_dict_def)
qed

lemma map_of_reviewed_dict:
  "map_of (reviewed_dict c ims) k =
     map_option (impact_fingerprint c) (find (\<lambda>im. booking_digest c (im_booking_id im) = k) (rev ims))"
  by (induction ims rule: rev_induct) (simp_all add: reviewed_dict_def map_of_dict_set)

lemma map_of_sort_key:
  assumes "distinct (map fst d)" shows "map_of (sort_key fst d) = map_of d"
proof -
  have "mset (map fst (sort_key fst d)) = mset (map fst d)" by simp
  then have "distinct (map fst (sort_key fst d))" using assms by (metis mset_eq_imp_distinct_iff)
  then show ?thesis using assms by (intro map_of_inject_set [THEN iffD2]) simp_all
qed

lemma require_reviewed_override_issued:
  assumes "cy_loads_b64 c (token_body c b m ps reviewed) = Some (issued_payload c b m ps reviewed)"
    "cy_hmac_sha256 c secret (token_body c b m ps reviewed) \<noteq> []" "impacts \<noteq> []"
  shows "require_reviewed_override c secret (Some (issue_override_review_token c secret b m ps reviewed)) b' m' ps' impacts =
     Inr () \<longleftrightarrow> context_digest c b m ps = context_digest c b' m' ps' \<and>
       (\<forall>im \<in> set impacts. map_of (reviewed_dict c reviewed) (booking_digest c (im_booking_id im)) = Some (impact_fingerprint c im))"
proof -
  have "truthy (Some (issue_override_review_token c secret b m ps reviewed))"
    by (simp add: truthy_def issue_override_review_token_def Let_def)
  then show ?thesis using assms(3)
    by (simp add: require_reviewed_override_def reviewed_fingerprints_issued [OF assms(1,2)] map_of_sort_key
        distinct_reviewed_dict list_ex_iff)
qed

lemma issued_review_accepted:
  assumes "cy_loads_b64 c (token_body c booker ministry proposal reviewed) =
      Some (issued_payload c booker ministry proposal reviewed)"
    and "cy_hmac_sha256 c secret (token_body c booker ministry proposal reviewed) \<noteq> []"
    and "distinct (map (booking_digest c \<circ> im_booking_id) reviewed)"
    and "set impacts \<subseteq> set reviewed"
  shows "require_reviewed_override c secret (Some (issue_override_review_token c secret booker ministry proposal reviewed))
     booker ministry proposal impacts = Inr ()"
proof (cases "impacts = []")
  case True
  then show ?thesis by (simp add: require_reviewed_override_def)
next
  case False
  have "find (\<lambda>im'. booking_digest c (im_booking_id im') = booking_digest c (im_booking_id im)) (rev reviewed) = Some im"
    if "im \<in> set impacts" for im
  proof (cases "find (\<lambda>im'. booking_digest c (im_booking_id im') = booking_digest c (im_booking_id im)) (rev reviewed)")
    case None
    then show ?thesis using that assms(4) by (auto simp: find_None_iff)
  next
    case (Some x)
    then have "x \<in> set reviewed" "booking_digest c (im_booking_id x) = booking_digest c (im_booking_id im)"
      by (auto dest: find_Some_set)
    then have "x = im" using assms(3,4) that by (auto simp: distinct_map inj_on_def)
    then show ?thesis using Some by simp
  qed
  then show ?thesis by (simp add: require_reviewed_override_issued [OF assms(1,2) False] map_of_reviewed_dict)
qed

section \<open>Properties\<close>

text \<open>C26. An acknowledgement is accepted for what was reviewed: with the token issued for a proposal and a set of
  displaced Bookings, the confirmation of the same proposal by the same booker passes whenever the Bookings it
  would displace are among those reviewed. The digest must not collide on the reviewed Booking ids, the
  signature is not empty, and decoding the issued body gives its payload.\<close>

theorem reviewed_override_accepted:
  assumes "cy_loads_b64 c (token_body c booker ministry proposal reviewed) =
      Some (issued_payload c booker ministry proposal reviewed)"
    and "cy_hmac_sha256 c secret (token_body c booker ministry proposal reviewed) \<noteq> []"
    and "distinct (map (booking_digest c \<circ> im_booking_id) reviewed)"
    and "set impacts \<subseteq> set reviewed"
  shows "require_reviewed_override c secret (Some (issue_override_review_token c secret booker ministry proposal reviewed))
     booker ministry proposal impacts = Inr ()"
  by (rule issued_review_accepted [OF assms])


section \<open>Witnesses\<close>

text \<open>A digest without collisions and a decoder that returns the payload issued for the sample.\<close>

definition sample_impact :: override_impact where
  "sample_impact =
     \<lparr>im_booking_id = 41, im_is_series_occurrence = False, im_start_at = moment 2026 6 1 14 0, im_end_at = moment 2026 6 1 16 0,
      im_released_intervals =
        [\<lparr>ri_facility_id = hall_id, ri_start_at = moment 2026 6 1 14 0, ri_end_at = moment 2026 6 1 16 0\<rparr>]\<rparr>"

definition sample_proposal :: "string list" where
  "sample_proposal = [room_interval_key hall_id (moment 2026 6 1 15 0) (moment 2026 6 1 17 0)]"

definition plain_crypto :: crypto where
  "plain_crypto = \<lparr>cy_sha256_hex = (\<lambda>s. s), cy_hmac_sha256 = (\<lambda>secret body. secret @ body), cy_loads_b64 = (\<lambda>b. None)\<rparr>"

definition sample_crypto :: crypto where
  "sample_crypto = plain_crypto
     \<lparr>cy_loads_b64 := \<lambda>b. Some (issued_payload plain_crypto steward_id (Some priority_ministry_id) sample_proposal [sample_impact])\<rparr>"

lemma sample_token:
  "cy_loads_b64 sample_crypto (token_body sample_crypto steward_id (Some priority_ministry_id) sample_proposal [sample_impact]) =
     Some (issued_payload sample_crypto steward_id (Some priority_ministry_id) sample_proposal [sample_impact])"
  "cy_hmac_sha256 sample_crypto ''secret'' body \<noteq> []"
  "inj_on (cy_sha256_hex sample_crypto) A"
  "distinct (map (booking_digest sample_crypto \<circ> im_booking_id) [sample_impact])"
  by (simp_all add: sample_crypto_def plain_crypto_def issued_payload_def context_digest_def reviewed_dict_def booking_digest_def
      impact_fingerprint_def)

theorem reviewed_override_accepted_witness:
  "require_reviewed_override sample_crypto ''secret''
     (Some (issue_override_review_token sample_crypto ''secret'' steward_id (Some priority_ministry_id) sample_proposal [sample_impact]))
     steward_id (Some priority_ministry_id) sample_proposal [sample_impact] = Inr ()"
  by (rule reviewed_override_accepted [OF sample_token(1,2,4)]) simp

lemma sample_valid:
  "\<forall>p \<in> set sample_proposal. NL \<notin> set p" "valid_uuid steward_id" "valid_uuid priority_ministry_id" "valid_impact sample_impact"
  using plain_room_interval_key
  by (simp_all add: sample_proposal_def) (code_simp)+

lemma sample_accepted:
  "require_reviewed_override sample_crypto ''secret''
     (Some (issue_override_review_token sample_crypto ''secret'' steward_id (Some priority_ministry_id) sample_proposal [sample_impact]))
     steward_id (Some priority_ministry_id) sample_proposal [sample_impact] = Inr ()"
  using require_reviewed_override_issued [OF sample_token(1,2)] by (simp add: map_of_reviewed_dict)


end
