(* ===== verification/One_Time_Override.thy ===== *)
theory One_Time_Override imports Occupancy Review_Token begin

text \<open>
  What a one-time proposal runs into (\<open>one_time_override.py\<close>): every occupant of its lines is either a
  conflict or, for a Priority Ministry, a whole booking to displace; and the displacement itself with its
  audit rows and its deferred notification (\<open>priority_override.py\<close>).
\<close>

section \<open>Evaluation\<close>

record ministry_context =
  mc_ministry_id :: uuid
  mc_is_priority :: bool
  mc_name_en :: string
  mc_name_zh :: string

record override_target =
  tg_impact :: override_impact
  tg_booker_id :: uuid
  tg_occurrence_date :: date
  tg_overlapping_facility_ids :: "uuid list"

record evaluation =
  ev_conflicts :: "booking_conflict list"
  ev_targets :: "override_target list"

definition ev_impacts :: "evaluation \<Rightarrow> override_impact list" where
  "ev_impacts evaluation = map tg_impact (ev_targets evaluation)"

definition load_ministry_proposal_context :: "db \<Rightarrow> uuid \<Rightarrow> uuid \<Rightarrow> ministry_context option" where
  "load_ministry_proposal_context s ministry_id user_id =
     (case find_ministry s ministry_id of
        None \<Rightarrow> None
      | Some m \<Rightarrow>
          if mi_status m \<noteq> MS_ACTIVE then None
          else if \<not> is_user_booking_member s ministry_id user_id then None
          else (case resolve_bilingual_activity_names (mi_translations m) (ministry_name_fallback s None (mi_translations m)) of
                  (name_en, name_zh) \<Rightarrow>
                    Some \<lparr>mc_ministry_id = ministry_id, mc_is_priority = mi_has_priority_booking m,
                          mc_name_en = name_en, mc_name_zh = name_zh\<rparr>))"

definition one_time_proposal :: "resolved_line list \<Rightarrow> string list" where
  "one_time_proposal lines = map (\<lambda>l. room_interval_key (ln_facility_id l) (ln_start_at l) (ln_end_at l)) lines"

text \<open>The variables of the loop; \<open>seen_on_line\<close> and \<open>blocked_on_line\<close> start afresh on each line.\<close>

record line_acc =
  la_conflicts :: "booking_conflict list"
  la_target_rows :: "(uuid \<times> occupying) list"
  la_overlapping :: "(uuid \<times> uuid list) list"
  la_seen :: "uuid list"
  la_blocked :: bool

definition line_conflict :: "resolved_line \<Rightarrow> conflict_kind \<Rightarrow> string option \<Rightarrow> string option \<Rightarrow> string option \<Rightarrow> booking_conflict" where
  "line_conflict line kind ministry_name contact_name contact_email =
     \<lparr>bc_facility_id = ln_facility_id line, bc_start_at = ln_start_at line, bc_end_at = ln_end_at line, bc_kind = kind,
      bc_ministry_name = ministry_name, bc_contact_display_name = contact_name, bc_contact_email = contact_email\<rparr>"

text \<open>The steward's contact is looked up once per ministry in the code; a second lookup would read the same.\<close>

definition row_conflict :: "db \<Rightarrow> ministry_context \<Rightarrow> resolved_line \<Rightarrow> occupying \<Rightarrow> booking_conflict" where
  "row_conflict s context line row =
     (case oc_ministry_id row of
        Some i \<Rightarrow> (case primary_steward_contact s i of (contact_name, contact_email) \<Rightarrow>
                    line_conflict line KMINISTRY (oc_ministry_name row) contact_name contact_email)
      | None \<Rightarrow> (let show_booker = \<not> mc_is_priority context
                 in line_conflict line KOCCUPANCY None
                      (if show_booker then oc_booker_display_name row else None)
                      (if show_booker then oc_booker_email row else None)))"

definition overridable :: "bool \<Rightarrow> instant \<Rightarrow> occupying \<Rightarrow> bool" where
  "overridable can_override now_utc row \<longleftrightarrow> oc_ministry_id row = None \<and> can_override \<and> oc_start_at row > now_utc"

definition evaluate_row ::
  "db \<Rightarrow> instant \<Rightarrow> bool \<Rightarrow> ministry_context option \<Rightarrow> resolved_line \<Rightarrow> line_acc \<Rightarrow> occupying \<Rightarrow> line_acc" where
  "evaluate_row s now_utc can_override context line a row =
     (if overridable can_override now_utc row
      then (let existing = (case map_of (la_overlapping a) (oc_booking_id row) of None \<Rightarrow> [] | Some ids \<Rightarrow> ids);
                overlapping = (if ln_facility_id line \<in> set existing then existing else existing @ [ln_facility_id line])
            in a\<lparr>la_target_rows := setdefault (la_target_rows a) (oc_booking_id row) row,
                 la_overlapping := dict_set (la_overlapping a) (oc_booking_id row) overlapping\<rparr>)
      else (case context of
              None \<Rightarrow> a\<lparr>la_blocked := True\<rparr>
            | Some c \<Rightarrow>
                if oc_booking_id row \<in> set (la_seen a) then a
                else a\<lparr>la_seen := oc_booking_id row # la_seen a,
                       la_conflicts := la_conflicts a @ [row_conflict s c line row]\<rparr>))"

definition evaluate_line ::
  "db \<Rightarrow> instant \<Rightarrow> instant \<Rightarrow> bool \<Rightarrow> ministry_context option \<Rightarrow> uuid option \<Rightarrow> line_acc \<Rightarrow> resolved_line \<Rightarrow> line_acc" where
  "evaluate_line s sql_now now_utc can_override context locale_id a line =
     (let rows = list_occupying_slots s sql_now (ln_facility_id line) (ln_start_at line) (ln_end_at line) locale_id;
          a' = foldl (evaluate_row s now_utc can_override context line) (a\<lparr>la_seen := [], la_blocked := False\<rparr>) rows
      in if la_blocked a'
         then a'\<lparr>la_conflicts := la_conflicts a' @ [line_conflict line KOCCUPANCY None None None]\<rparr> else a')"

definition target_of_row :: "db \<Rightarrow> zone \<Rightarrow> uuid list \<Rightarrow> (uuid \<times> uuid list) list \<Rightarrow> uuid \<times> occupying \<Rightarrow> override_target" where
  "target_of_row s local_tz target_ids overlapping_by_target kv =
     (case kv of (booking_id, row) \<Rightarrow>
       \<lparr>tg_impact = \<lparr>im_booking_id = booking_id, im_is_series_occurrence = (oc_series_id row \<noteq> None),
                     im_start_at = oc_start_at row, im_end_at = oc_end_at row,
                     im_released_intervals = list_live_slot_intervals s target_ids booking_id\<rparr>,
        tg_booker_id = oc_user_id row,
        tg_occurrence_date = wall_date (to_local local_tz (oc_start_at row)),
        tg_overlapping_facility_ids = (case map_of overlapping_by_target booking_id of None \<Rightarrow> [] | Some ids \<Rightarrow> ids)\<rparr>)"

definition start_acc :: line_acc where
  "start_acc = \<lparr>la_conflicts = [], la_target_rows = [], la_overlapping = [], la_seen = [], la_blocked = False\<rparr>"

definition can_override_for :: "bool \<Rightarrow> ministry_context option \<Rightarrow> bool" where
  "can_override_for allow_override context \<longleftrightarrow>
     allow_override \<and> (case context of None \<Rightarrow> False | Some c \<Rightarrow> mc_is_priority c)"

definition evaluate_one_time_occupancy ::
  "env \<Rightarrow> db \<Rightarrow> resolved_line list \<Rightarrow> ministry_context option \<Rightarrow> instant \<Rightarrow> zone \<Rightarrow> bool \<Rightarrow> uuid option \<Rightarrow> evaluation" where
  "evaluate_one_time_occupancy e s lines context now_utc local_tz allow_override locale_id =
     (let can_override = can_override_for allow_override context;
          a = foldl (evaluate_line s (en_sql_now e) now_utc can_override context locale_id) start_acc lines
      in \<lparr>ev_conflicts = la_conflicts a,
          ev_targets = map (target_of_row s local_tz (map fst (la_target_rows a)) (la_overlapping a)) (la_target_rows a)\<rparr>)"

section \<open>Displacement\<close>

definition PRIORITY_OVERRIDE_REASON :: string where "PRIORITY_OVERRIDE_REASON = ''Priority Ministry override''"

definition target_booking_id :: "override_target \<Rightarrow> uuid" where
  "target_booking_id t = im_booking_id (tg_impact t)"

definition override_log_row :: "uuid \<Rightarrow> uuid \<Rightarrow> uuid \<Rightarrow> uuid \<Rightarrow> uuid \<Rightarrow> override_log" where
  "override_log_row i replacement_booking_id booking_id operator_id facility_id =
     \<lparr>ol_id = i, ol_facility_booking_id = replacement_booking_id, ol_overridden_booking_id = Some booking_id,
      ol_overridden_by_id = operator_id, ol_facility_id = facility_id, ol_outcome = OO_OVERRIDE_APPLIED,
      ol_reason = Some PRIORITY_OVERRIDE_REASON\<rparr>"

definition notification_item :: "uuid \<Rightarrow> override_target \<Rightarrow> override_notification_item" where
  "notification_item replacement_booking_id target =
     \<lparr>ni_booking_id = target_booking_id target, ni_booker_id = tg_booker_id target,
      ni_occurrence_date = tg_occurrence_date target,
      ni_facility_ids = dict_fromkeys (map ri_facility_id (im_released_intervals (tg_impact target))),
      ni_church_activity_booking_id = replacement_booking_id\<rparr>"

record override_acc =
  oa_db :: db
  oa_log_rows :: "override_log list"
  oa_items :: "override_notification_item list"
  oa_overridden_ids :: "uuid list"

definition add_log_row :: "uuid \<Rightarrow> uuid \<Rightarrow> uuid \<Rightarrow> override_acc \<Rightarrow> uuid \<Rightarrow> override_acc" where
  "add_log_row replacement_booking_id booking_id operator_id a facility_id =
     (case fresh_uuid (oa_db a) of (i, s) \<Rightarrow>
       a\<lparr>oa_db := s,
         oa_log_rows := oa_log_rows a @ [override_log_row i replacement_booking_id booking_id operator_id facility_id]\<rparr>)"

definition apply_override :: "instant \<Rightarrow> uuid \<Rightarrow> override_acc \<Rightarrow> uuid \<times> override_target \<Rightarrow> override_acc" where
  "apply_override repo_now operator_id a replacement =
     (case replacement of (replacement_booking_id, target) \<Rightarrow>
       let booking_id = target_booking_id target;
           a' = (if booking_id \<in> set (oa_overridden_ids a) then a
                 else a\<lparr>oa_db := override_booking repo_now booking_id (Some operator_id) (Some PRIORITY_OVERRIDE_REASON) (oa_db a),
                        oa_overridden_ids := booking_id # oa_overridden_ids a,
                        oa_items := oa_items a @ [notification_item replacement_booking_id target]\<rparr>)
       in foldl (add_log_row replacement_booking_id booking_id operator_id) a' (tg_overlapping_facility_ids target))"

definition apply_whole_booking_overrides ::
  "(uuid \<times> override_target) list \<Rightarrow> uuid \<Rightarrow> env \<Rightarrow> db \<Rightarrow> override_notification_item list \<times> db" where
  "apply_whole_booking_overrides replacements operator_id e s =
     (let a = foldl (apply_override (en_repo_now e) operator_id)
                \<lparr>oa_db = s, oa_log_rows = [], oa_items = [], oa_overridden_ids = []\<rparr> replacements
      in (oa_items a, if oa_log_rows a \<noteq> [] then insert_logs (oa_log_rows a) (oa_db a) else oa_db a))"

definition notify_displaced_bookers_after_commit ::
  "override_notification_item list \<Rightarrow> uuid \<Rightarrow> string \<Rightarrow> string \<Rightarrow> uuid \<Rightarrow> uuid option \<Rightarrow> db \<Rightarrow> db" where
  "notify_displaced_bookers_after_commit items ministry_id name_en name_zh actor_id series_id s =
     (if items = [] then s
      else s\<lparr>db_after_commit := db_after_commit s @
             [HookOverride \<lparr>nt_series_id = series_id, nt_ministry_id = ministry_id, nt_church_activity_name = name_en,
                nt_church_activity_name_zh = name_zh, nt_actor_id = actor_id, nt_items = items\<rparr>]\<rparr>)"

section \<open>Lemmas\<close>

subsection \<open>Conflicts\<close>

definition line_rows :: "db \<Rightarrow> instant \<Rightarrow> uuid option \<Rightarrow> resolved_line \<Rightarrow> occupying list" where
  "line_rows s sql_now locale_id l = list_occupying_slots s sql_now (ln_facility_id l) (ln_start_at l) (ln_end_at l) locale_id"

definition clear :: "line_acc \<Rightarrow> bool" where "clear a \<longleftrightarrow> la_conflicts a = [] \<and> \<not> la_blocked a"

lemma clear_rows:
  assumes "la_seen a \<noteq> [] \<Longrightarrow> la_conflicts a \<noteq> []"
  shows "clear (foldl (evaluate_row s now co ctx l) a rows) \<longleftrightarrow> clear a \<and> (\<forall>r\<in>set rows. overridable co now r)"
  using assms
proof (induction rows arbitrary: a)
  case Nil
  then show ?case by simp
next
  case (Cons r rows)
  let ?a = "evaluate_row s now co ctx l a r"
  have "la_seen ?a \<noteq> [] \<Longrightarrow> la_conflicts ?a \<noteq> []"
    using Cons.prems by (auto simp: evaluate_row_def Let_def split: if_splits option.splits)
  from Cons.IH [OF this] have "clear (foldl (evaluate_row s now co ctx l) a (r # rows)) \<longleftrightarrow>
      clear ?a \<and> (\<forall>r\<in>set rows. overridable co now r)" by simp
  moreover have "clear ?a \<longleftrightarrow> clear a \<and> overridable co now r"
    using Cons.prems by (cases "la_seen a = []") (auto simp: evaluate_row_def clear_def Let_def split: option.splits)
  ultimately show ?case by auto
qed

lemma line_conflict_free:
  "la_conflicts (evaluate_line s sn now co ctx loc a l) = [] \<longleftrightarrow>
     la_conflicts a = [] \<and> (\<forall>r\<in>set (line_rows s sn loc l). overridable co now r)"
  using clear_rows [of "a\<lparr>la_seen := [], la_blocked := False\<rparr>" s now co ctx l "line_rows s sn loc l"]
  by (simp add: evaluate_line_def Let_def line_rows_def clear_def) blast

lemma fold_conflict_free:
  "la_conflicts (foldl (evaluate_line s sn now co ctx loc) a ls) = [] \<longleftrightarrow>
     la_conflicts a = [] \<and> (\<forall>l\<in>set ls. \<forall>r\<in>set (line_rows s sn loc l). overridable co now r)"
  by (induction ls arbitrary: a) (auto simp: line_conflict_free)

lemma conflict_free_iff:
  "ev_conflicts (evaluate_one_time_occupancy e s lines ctx now tz allow loc) = [] \<longleftrightarrow>
     (\<forall>l\<in>set lines. \<forall>r\<in>set (line_rows s (en_sql_now e) loc l). overridable (can_override_for allow ctx) now r)"
  by (simp add: evaluate_one_time_occupancy_def Let_def fold_conflict_free start_acc_def)

subsection \<open>Targets\<close>

lemma target_row_keys:
  "fst ` set (la_target_rows (evaluate_row s now co ctx l a r)) =
     fst ` set (la_target_rows a) \<union> (if overridable co now r then {oc_booking_id r} else {})"
  by (auto simp: evaluate_row_def Let_def keys_setdefault split: option.splits)

lemma target_rows_keys:
  "fst ` set (la_target_rows (foldl (evaluate_row s now co ctx l) a rows)) =
     fst ` set (la_target_rows a) \<union> oc_booking_id ` {r \<in> set rows. overridable co now r}"
proof (induction rows arbitrary: a)
  case Nil
  then show ?case by simp
next
  case (Cons r rows)
  show ?case unfolding foldl_Cons Cons.IH target_row_keys by auto
qed

lemma target_line_keys:
  "fst ` set (la_target_rows (evaluate_line s sn now co ctx loc a l)) =
     fst ` set (la_target_rows a) \<union> oc_booking_id ` {r \<in> set (line_rows s sn loc l). overridable co now r}"
  by (simp add: evaluate_line_def Let_def target_rows_keys line_rows_def)

lemma target_fold_keys:
  "fst ` set (la_target_rows (foldl (evaluate_line s sn now co ctx loc) a ls)) =
     fst ` set (la_target_rows a) \<union> (\<Union>l\<in>set ls. oc_booking_id ` {r \<in> set (line_rows s sn loc l). overridable co now r})"
proof (induction ls arbitrary: a)
  case Nil
  then show ?case by simp
next
  case (Cons l ls)
  show ?case unfolding foldl_Cons Cons.IH target_line_keys by auto
qed

lemma target_ids:
  "target_booking_id ` set (ev_targets (evaluate_one_time_occupancy e s lines ctx now tz allow loc)) =
     (\<Union>l\<in>set lines. oc_booking_id ` {r \<in> set (line_rows s (en_sql_now e) loc l). overridable (can_override_for allow ctx) now r})"
proof -
  have "target_booking_id (target_of_row s tz ids ov kv) = fst kv" for ids ov kv
    by (cases kv) (simp add: target_booking_id_def target_of_row_def)
  then show ?thesis
    using target_fold_keys [of s "en_sql_now e" now "can_override_for allow ctx" ctx loc start_acc lines]
    by (simp add: evaluate_one_time_occupancy_def Let_def image_image) (simp add: start_acc_def)
qed

subsection \<open>Displacement\<close>

lemma occupancy_cong:
  "db_bookings s' = db_bookings s \<Longrightarrow> db_slots s' = db_slots s \<Longrightarrow> db_series s' = db_series s \<Longrightarrow>
   occupancy s' t = occupancy s t"
  using active_cong_series [of s' s t] by (simp add: occupancy_def)

lemma log_rows_occupancy:
  "occupancy (oa_db (foldl (add_log_row rb b op) a fs)) t = occupancy (oa_db a) t \<and>
   oa_overridden_ids (foldl (add_log_row rb b op) a fs) = oa_overridden_ids a"
proof (induction fs arbitrary: a)
  case Nil
  then show ?case by simp
next
  case (Cons f fs)
  have "occupancy (oa_db (add_log_row rb b op a f)) t = occupancy (oa_db a) t"
    by (rule occupancy_cong) (simp_all add: add_log_row_def fresh_uuid_def)
  then show ?case by (simp add: Cons.IH) (simp add: add_log_row_def fresh_uuid_def)
qed

lemma overrides_occupancy:
  assumes "\<And>x. x \<in> occupancy (oa_db a) t \<Longrightarrow> fst x \<notin> set (oa_overridden_ids a)"
  shows "occupancy (oa_db (foldl (apply_override now op) a rs)) t =
    {x \<in> occupancy (oa_db a) t. fst x \<notin> (target_booking_id \<circ> snd) ` set rs}"
  using assms
proof (induction rs arbitrary: a)
  case Nil
  then show ?case by simp
next
  case (Cons r rs)
  obtain rb tg where r: "r = (rb, tg)" by (cases r)
  let ?a = "apply_override now op a r"
  have occ: "occupancy (oa_db ?a) t = {x \<in> occupancy (oa_db a) t. fst x \<noteq> target_booking_id tg}"
  proof (cases "target_booking_id tg \<in> set (oa_overridden_ids a)")
    case True
    then have a: "?a = foldl (add_log_row rb (target_booking_id tg) op) a (tg_overlapping_facility_ids tg)"
      by (simp add: apply_override_def r)
    have "occupancy (oa_db ?a) t = occupancy (oa_db a) t" unfolding a by (simp only: log_rows_occupancy)
    moreover have "fst x \<noteq> target_booking_id tg" if "x \<in> occupancy (oa_db a) t" for x
      using Cons.prems [OF that] True by auto
    ultimately show ?thesis by auto
  next
    case False
    then show ?thesis by (simp add: apply_override_def r Let_def log_rows_occupancy override_ledger.occ_release)
  qed
  have "oa_overridden_ids ?a = (if target_booking_id tg \<in> set (oa_overridden_ids a) then oa_overridden_ids a
      else target_booking_id tg # oa_overridden_ids a)"
    by (simp add: apply_override_def r Let_def log_rows_occupancy)
  then have "\<And>x. x \<in> occupancy (oa_db ?a) t \<Longrightarrow> fst x \<notin> set (oa_overridden_ids ?a)"
    using Cons.prems unfolding occ by auto
  from Cons.IH [OF this] show ?case unfolding foldl_Cons occ by (auto simp: r)
qed

lemma apply_overrides_occupancy:
  "occupancy (snd (apply_whole_booking_overrides rs op e s)) t =
     {x \<in> occupancy s t. fst x \<notin> (target_booking_id \<circ> snd) ` set rs}"
proof -
  have "occupancy (insert_logs rows s') t = occupancy s' t" for rows s'
    by (rule occupancy_cong) (simp_all add: insert_logs_def)
  then show ?thesis by (simp add: apply_whole_booking_overrides_def Let_def overrides_occupancy)
qed

lemma notify_occupancy: "occupancy (notify_displaced_bookers_after_commit items m en zh a sid s) t = occupancy s t"
  by (rule occupancy_cong) (simp_all add: notify_displaced_bookers_after_commit_def)

subsection \<open>Audit rows and items\<close>

definition log_facts :: "override_log \<Rightarrow> uuid \<times> uuid option \<times> uuid \<times> uuid \<times> override_outcome \<times> string option" where
  "log_facts l =
     (ol_facility_booking_id l, ol_overridden_booking_id l, ol_facility_id l, ol_overridden_by_id l, ol_outcome l, ol_reason l)"

definition due_logs :: "uuid \<Rightarrow> (uuid \<times> override_target) list \<Rightarrow> (uuid \<times> uuid option \<times> uuid \<times> uuid \<times> override_outcome \<times> string option) list" where
  "due_logs op rs =
     concat (map (\<lambda>(rb, tg). map (\<lambda>f. (rb, Some (target_booking_id tg), f, op, OO_OVERRIDE_APPLIED, Some PRIORITY_OVERRIDE_REASON))
       (tg_overlapping_facility_ids tg)) rs)"

lemma add_log_rows:
  "map log_facts (oa_log_rows (foldl (add_log_row rb b op) a fs)) =
     map log_facts (oa_log_rows a) @ map (\<lambda>f. (rb, Some b, f, op, OO_OVERRIDE_APPLIED, Some PRIORITY_OVERRIDE_REASON)) fs"
  "oa_items (foldl (add_log_row rb b op) a fs) = oa_items a"
  "db_override_logs (oa_db (foldl (add_log_row rb b op) a fs)) = db_override_logs (oa_db a)"
  "db_bookings (oa_db (foldl (add_log_row rb b op) a fs)) = db_bookings (oa_db a)"
  by (induction fs arbitrary: a) (simp_all add: add_log_row_def fresh_uuid_def override_log_row_def log_facts_def)

lemma apply_override_logs:
  "map log_facts (oa_log_rows (foldl (apply_override now op) a rs)) = map log_facts (oa_log_rows a) @ due_logs op rs"
  "db_override_logs (oa_db (foldl (apply_override now op) a rs)) = db_override_logs (oa_db a)"
proof (induction rs arbitrary: a)
  case (Cons r rs)
  obtain rb tg where r: "r = (rb, tg)" by (cases r)
  have step: "map log_facts (oa_log_rows (apply_override now op a r)) = map log_facts (oa_log_rows a) @ due_logs op [r]"
    "db_override_logs (oa_db (apply_override now op a r)) = db_override_logs (oa_db a)" for a
    by (simp_all add: apply_override_def r Let_def add_log_rows due_logs_def override_booking_def release_slots_def)
  have due: "due_logs op (r # rs) = due_logs op [r] @ due_logs op rs" by (simp add: due_logs_def)
  { case 1 show ?case using Cons.IH(1) [of "apply_override now op a r"] by (simp only: foldl_Cons step due append_assoc) next
    case 2 show ?case using Cons.IH(2) [of "apply_override now op a r"] by (simp only: foldl_Cons step) }
qed (simp_all add: due_logs_def)

lemma apply_override_items:
  "map ni_booking_id (oa_items (foldl (apply_override now op) a rs)) =
     map ni_booking_id (oa_items a) @ dedup_from (oa_overridden_ids a) (map (target_booking_id \<circ> snd) rs)"
proof (induction rs arbitrary: a)
  case (Cons r rs)
  obtain rb tg where r: "r = (rb, tg)" by (cases r)
  have step: "oa_overridden_ids (apply_override now op a r) =
      (if target_booking_id tg \<in> set (oa_overridden_ids a) then oa_overridden_ids a else target_booking_id tg # oa_overridden_ids a)"
    "map ni_booking_id (oa_items (apply_override now op a r)) = map ni_booking_id (oa_items a) @
      (if target_booking_id tg \<in> set (oa_overridden_ids a) then [] else [target_booking_id tg])"
    by (simp_all add: apply_override_def r Let_def add_log_rows log_rows_occupancy notification_item_def)
  show ?case unfolding foldl_Cons Cons.IH step by (simp add: r comp_def)
qed simp

lemma overridden_bookings:
  assumes "b \<in> set (db_bookings (oa_db (foldl (apply_override now op) a rs)))"
    "bk_id b \<in> (target_booking_id \<circ> snd) ` set rs \<union> set (oa_overridden_ids a)"
    "\<And>b. b \<in> set (db_bookings (oa_db a)) \<Longrightarrow> bk_id b \<in> set (oa_overridden_ids a) \<Longrightarrow> bk_status b = BS_OVERRIDDEN"
  shows "bk_status b = BS_OVERRIDDEN"
  using assms
proof (induction rs arbitrary: a)
  case Nil
  then show ?case by simp
next
  case (Cons r rs)
  obtain rb tg where r: "r = (rb, tg)" by (cases r)
  let ?a = "apply_override now op a r"
  have ids: "set (oa_overridden_ids ?a) = insert (target_booking_id tg) (set (oa_overridden_ids a))"
    by (auto simp: apply_override_def r Let_def log_rows_occupancy)
  have db: "db_bookings (oa_db ?a) = (if target_booking_id tg \<in> set (oa_overridden_ids a) then db_bookings (oa_db a)
      else db_bookings (override_booking now (target_booking_id tg) (Some op) (Some PRIORITY_OVERRIDE_REASON) (oa_db a)))"
    by (simp add: apply_override_def r Let_def add_log_rows)
  show ?case
  proof (rule Cons.IH)
    show "b \<in> set (db_bookings (oa_db (foldl (apply_override now op) ?a rs)))" using Cons.prems(1) by simp
    show "bk_id b \<in> (target_booking_id \<circ> snd) ` set rs \<union> set (oa_overridden_ids ?a)"
      using Cons.prems(2) unfolding ids by (auto simp: r)
    show "bk_status c = BS_OVERRIDDEN" if "c \<in> set (db_bookings (oa_db ?a))" "bk_id c \<in> set (oa_overridden_ids ?a)" for c
      using that Cons.prems(3) unfolding ids db
      by (auto simp: override_booking_def release_slots_def set_update_where split: if_splits)
  qed
qed

lemma other_bookings:
  "filter (\<lambda>b. bk_id b \<notin> (target_booking_id \<circ> snd) ` set rs) (db_bookings (oa_db (foldl (apply_override now op) a rs))) =
     filter (\<lambda>b. bk_id b \<notin> (target_booking_id \<circ> snd) ` set rs) (db_bookings (oa_db a))"
proof (induction rs arbitrary: a)
  case Nil
  then show ?case by simp
next
  case (Cons r rs)
  obtain rb tg where r: "r = (rb, tg)" by (cases r)
  let ?out = "\<lambda>b. bk_id b \<notin> (target_booking_id \<circ> snd) ` set rs"
  have "filter (\<lambda>b. bk_id b \<noteq> target_booking_id tg) (db_bookings (oa_db (apply_override now op a r))) =
      filter (\<lambda>b. bk_id b \<noteq> target_booking_id tg) (db_bookings (oa_db a))"
    by (simp add: apply_override_def r Let_def add_log_rows override_booking_def release_slots_def filter_update_where)
  moreover have split: "filter (\<lambda>b. bk_id b \<notin> (target_booking_id \<circ> snd) ` set (r # rs)) xs =
      filter (\<lambda>b. bk_id b \<noteq> target_booking_id tg) (filter ?out xs)"
    "filter (\<lambda>b. bk_id b \<noteq> target_booking_id tg) (filter ?out xs) =
      filter ?out (filter (\<lambda>b. bk_id b \<noteq> target_booking_id tg) xs)" for xs
    by (simp_all add: r) (rule filter_cong, auto)+
  ultimately show ?case unfolding foldl_Cons split(1) Cons.IH split(2) by simp
qed

section \<open>Properties\<close>

definition holder :: "db \<Rightarrow> instant \<Rightarrow> resolved_line \<Rightarrow> booking \<Rightarrow> bool" where
  "holder s t l b \<longleftrightarrow> b \<in> snd ` set (occupying_rows s t (ln_facility_id l) (ln_start_at l) (ln_end_at l))"

lemma line_rows_holder:
  assumes "bookers_exist s"
  shows "(\<forall>r\<in>set (line_rows s t loc l). P (oc_booking_id r) (oc_ministry_id r) (oc_start_at r)) \<longleftrightarrow>
     (\<forall>b. holder s t l b \<longrightarrow> P (bk_id b) (bk_ministry_id b) (bk_start_at b))"
proof (intro iffI allI ballI impI)
  fix b assume all: "\<forall>r\<in>set (line_rows s t loc l). P (oc_booking_id r) (oc_ministry_id r) (oc_start_at r)" and "holder s t l b"
  then obtain sl where row: "(sl, b) \<in> set (occupying_rows s t (ln_facility_id l) (ln_start_at l) (ln_end_at l))"
    by (auto simp: holder_def)
  then obtain u where "find_user s (bk_user_id b) = Some u"
    using assms by (auto simp: bookers_exist_def occupying_rows_iff)
  with row have "\<exists>r\<in>set (line_rows s t loc l). oc_booking_id r = bk_id b \<and> oc_ministry_id r = bk_ministry_id b \<and> oc_start_at r = bk_start_at b"
    unfolding line_rows_def list_occupying_slots_def by force
  with all show "P (bk_id b) (bk_ministry_id b) (bk_start_at b)" by metis
next
  fix r assume all: "\<forall>b. holder s t l b \<longrightarrow> P (bk_id b) (bk_ministry_id b) (bk_start_at b)" and "r \<in> set (line_rows s t loc l)"
  from reported_occupancy [OF this(2) [unfolded line_rows_def]] all
  show "P (oc_booking_id r) (oc_ministry_id r) (oc_start_at r)" unfolding holder_def by force
qed

lemma holder_displaceable:
  assumes "bookers_exist s"
  shows "(\<forall>l\<in>set lines. \<forall>r\<in>set (line_rows s t loc l). overridable co now r) \<longleftrightarrow>
     (\<forall>l\<in>set lines. \<forall>b. holder s t l b \<longrightarrow> co \<and> bk_ministry_id b = None \<and> now < bk_start_at b)"
  using line_rows_holder [OF assms, of t loc _ "\<lambda>i m a. m = None \<and> co \<and> now < a"] by (simp add: overridable_def conj_left_commute)

text \<open>C14. A proposal is free of conflicts exactly when every active Booking holding one of its rooms at an overlapping
  time may be displaced: the proposal overrides, for an Active Priority Ministry, and the Booking is personal and has
  not started; and the Bookings set aside for displacement are exactly the displaceable holders.\<close>

theorem proposal_conflict_free_iff:
  assumes "bookers_exist s"
  shows "(ev_conflicts (evaluate_one_time_occupancy e s lines ctx now tz allow loc) = [] \<longleftrightarrow>
     (\<forall>l\<in>set lines. \<forall>b. holder s (en_sql_now e) l b \<longrightarrow>
        can_override_for allow ctx \<and> bk_ministry_id b = None \<and> now < bk_start_at b)) \<and>
   (\<forall>i. i \<in> target_booking_id ` set (ev_targets (evaluate_one_time_occupancy e s lines ctx now tz allow loc)) \<longleftrightarrow>
     (\<exists>l\<in>set lines. \<exists>b. holder s (en_sql_now e) l b \<and> bk_id b = i \<and>
        can_override_for allow ctx \<and> bk_ministry_id b = None \<and> now < bk_start_at b))"
proof (intro conjI allI)
  show "ev_conflicts (evaluate_one_time_occupancy e s lines ctx now tz allow loc) = [] \<longleftrightarrow>
     (\<forall>l\<in>set lines. \<forall>b. holder s (en_sql_now e) l b \<longrightarrow>
        can_override_for allow ctx \<and> bk_ministry_id b = None \<and> now < bk_start_at b)"
    unfolding conflict_free_iff by (rule holder_displaceable [OF assms])
  fix i
  have "(\<exists>r\<in>set (line_rows s t loc l). oc_booking_id r = i \<and> overridable co now r) \<longleftrightarrow>
      (\<exists>b. holder s t l b \<and> bk_id b = i \<and> co \<and> bk_ministry_id b = None \<and> now < bk_start_at b)" for l t co
    using line_rows_holder [OF assms, of t loc l "\<lambda>j m a. \<not> (j = i \<and> m = None \<and> co \<and> now < a)"]
    by (auto simp: overridable_def)
  then show "i \<in> target_booking_id ` set (ev_targets (evaluate_one_time_occupancy e s lines ctx now tz allow loc)) \<longleftrightarrow>
     (\<exists>l\<in>set lines. \<exists>b. holder s (en_sql_now e) l b \<and> bk_id b = i \<and>
        can_override_for allow ctx \<and> bk_ministry_id b = None \<and> now < bk_start_at b)"
    unfolding target_ids by (simp add: image_iff) (metis (no_types, lifting))
qed

definition permitted :: "db \<Rightarrow> ministry_context option \<Rightarrow> resolved_line \<Rightarrow> booking_conflict \<Rightarrow> bool" where
  "permitted s ctx l c \<longleftrightarrow>
     (case ctx of None \<Rightarrow> c = line_conflict l KOCCUPANCY None None None
      | Some x \<Rightarrow> \<exists>r. c = row_conflict s x l r)"

lemma row_permitted:
  "set (la_conflicts (evaluate_row s now co ctx l a r)) \<subseteq> set (la_conflicts a) \<union> Collect (permitted s ctx l)"
  "la_blocked (evaluate_row s now co ctx l a r) \<Longrightarrow> la_blocked a \<or> ctx = None"
  by (cases ctx; auto simp: evaluate_row_def Let_def permitted_def split: if_splits)+

lemma rows_permitted:
  "set (la_conflicts (foldl (evaluate_row s now co ctx l) a rows)) \<subseteq> set (la_conflicts a) \<union> Collect (permitted s ctx l) \<and>
   (la_blocked (foldl (evaluate_row s now co ctx l) a rows) \<longrightarrow> la_blocked a \<or> ctx = None)"
proof (induction rows arbitrary: a)
  case Nil
  then show ?case by simp
next
  case (Cons r rows)
  from Cons [of "evaluate_row s now co ctx l a r"] row_permitted [of s now co ctx l a r] show ?case
    unfolding foldl_Cons by blast
qed

lemma line_permitted:
  "set (la_conflicts (evaluate_line s sn now co ctx loc a l)) \<subseteq> set (la_conflicts a) \<union> Collect (permitted s ctx l)"
  using rows_permitted [of s now co ctx l "a\<lparr>la_seen := [], la_blocked := False\<rparr>" "line_rows s sn loc l"]
  by (simp add: evaluate_line_def Let_def line_rows_def) (auto simp: permitted_def)

lemma conflict_origin:
  "set (la_conflicts (foldl (evaluate_line s sn now co ctx loc) a ls)) \<subseteq>
     set (la_conflicts a) \<union> (\<Union>l\<in>set ls. Collect (permitted s ctx l))"
proof (induction ls arbitrary: a)
  case Nil
  then show ?case by simp
next
  case (Cons l ls)
  from Cons [of "evaluate_line s sn now co ctx loc a l"] line_permitted [of s sn now co ctx loc a l] show ?case
    unfolding foldl_Cons by auto
qed

lemma row_conflict_fields:
  "bc_facility_id (row_conflict s x l r) = ln_facility_id l" "bc_start_at (row_conflict s x l r) = ln_start_at l"
  "bc_end_at (row_conflict s x l r) = ln_end_at l"
  "bc_kind (row_conflict s x l r) = KOCCUPANCY \<Longrightarrow> mc_is_priority x \<Longrightarrow>
     bc_contact_display_name (row_conflict s x l r) = None \<and> bc_contact_email (row_conflict s x l r) = None"
  by (auto simp: row_conflict_def line_conflict_def Let_def split: option.splits prod.splits)


text \<open>C24. Displacing is whole and audited: after it every displaced Booking is overridden and holds no room, every other
  Booking is untouched, the audit log has grown by exactly one row per replacement and overlapping room, in order, and
  each displaced Booking is notified about once.\<close>

theorem overrides_are_whole_and_audited:
  assumes "apply_whole_booking_overrides rs operator e s = (items, s')"
  shows "let displaced = (target_booking_id \<circ> snd) ` set rs in
    (\<forall>b\<in>set (db_bookings s'). bk_id b \<in> displaced \<longrightarrow> bk_status b = BS_OVERRIDDEN) \<and>
    filter (\<lambda>b. bk_id b \<notin> displaced) (db_bookings s') = filter (\<lambda>b. bk_id b \<notin> displaced) (db_bookings s) \<and>
    occupancy s' t = {x \<in> occupancy s t. fst x \<notin> displaced} \<and>
    map log_facts (db_override_logs s') = map log_facts (db_override_logs s) @ due_logs operator rs \<and>
    map ni_booking_id items = dict_fromkeys (map (target_booking_id \<circ> snd) rs)"
proof -
  let ?a0 = "\<lparr>oa_db = s, oa_log_rows = [], oa_items = [], oa_overridden_ids = []\<rparr>"
  let ?a = "foldl (apply_override (en_repo_now e) operator) ?a0 rs"
  have s': "s' = (if oa_log_rows ?a \<noteq> [] then insert_logs (oa_log_rows ?a) (oa_db ?a) else oa_db ?a)" and items: "items = oa_items ?a"
    using assms by (simp_all add: apply_whole_booking_overrides_def Let_def split: if_splits)
  have books: "db_bookings s' = db_bookings (oa_db ?a)" by (simp add: s' insert_logs_def)
  have logs: "db_override_logs s' = db_override_logs (oa_db ?a) @ oa_log_rows ?a" by (simp add: s' insert_logs_def)
  show ?thesis
    unfolding Let_def
  proof (intro conjI ballI impI)
    show "bk_status b = BS_OVERRIDDEN" if "b \<in> set (db_bookings s')" "bk_id b \<in> (target_booking_id \<circ> snd) ` set rs" for b
      by (rule overridden_bookings [OF that(1) [unfolded books]]) (use that(2) in simp_all)
    show "filter (\<lambda>b. bk_id b \<notin> (target_booking_id \<circ> snd) ` set rs) (db_bookings s') =
        filter (\<lambda>b. bk_id b \<notin> (target_booking_id \<circ> snd) ` set rs) (db_bookings s)"
      by (simp only: books other_bookings override_acc.select_convs)
    show "occupancy s' t = {x \<in> occupancy s t. fst x \<notin> (target_booking_id \<circ> snd) ` set rs}"
      using apply_overrides_occupancy [of rs operator e s t] assms by simp
    show "map log_facts (db_override_logs s') = map log_facts (db_override_logs s) @ due_logs operator rs"
      unfolding logs map_append apply_override_logs by simp
    show "map ni_booking_id items = dict_fromkeys (map (target_booking_id \<circ> snd) rs)"
      unfolding items apply_override_items by (simp add: dict_fromkeys_def)
  qed
qed

section \<open>Witnesses\<close>

definition sample_booking :: "uuid \<Rightarrow> instant \<Rightarrow> instant \<Rightarrow> booking" where
  "sample_booking i a b =
     \<lparr>bk_id = i, bk_user_id = member_id, bk_title = ''Choir'', bk_series_id = None, bk_facility_id = Some hall_id,
      bk_ministry_id = None, bk_booking_type = BT_ONE_TIME, bk_start_at = a, bk_end_at = b, bk_status = BS_CONFIRMED,
      bk_is_mission_aligned = False, bk_billed_hours = None, bk_subtotal_amount = None, bk_discount_percent = None,
      bk_discount_amount = None, bk_surcharge_amount = None, bk_quoted_amount = None, bk_currency = None,
      bk_cancelled_at = None, bk_cancelled_by_id = None, bk_cancel_reason = None, bk_remark = None,
      bk_created_at = 0, bk_is_deleted = False\<rparr>"

definition sample_slot :: "uuid \<Rightarrow> uuid \<Rightarrow> uuid \<Rightarrow> instant \<Rightarrow> instant \<Rightarrow> slot" where
  "sample_slot i booking room a b =
     \<lparr>sl_id = i, sl_booking_id = booking, sl_facility_id = room, sl_start_at = a, sl_end_at = b, sl_status = SS_CONFIRMED\<rparr>"

text \<open>The member holds the hall on 1 June 2026 from 14:00 to 16:00.\<close>

definition sample_taken :: db where
  "sample_taken = sample_db
     \<lparr>db_bookings := [sample_booking 41 (moment 2026 6 1 14 0) (moment 2026 6 1 16 0)],
      db_slots := [sample_slot 42 41 hall_id (moment 2026 6 1 14 0) (moment 2026 6 1 16 0)]\<rparr>"

definition sample_line :: resolved_line where
  "sample_line = \<lparr>ln_facility_id = hall_id, ln_start_at = moment 2026 6 1 15 0, ln_end_at = moment 2026 6 1 17 0, ln_sequence = 0\<rparr>"

definition sample_context :: ministry_context where
  "sample_context = \<lparr>mc_ministry_id = priority_ministry_id, mc_is_priority = True, mc_name_en = ''Youth'', mc_name_zh = ''Youth''\<rparr>"

lemma sample_evaluation:
  "map target_booking_id (ev_targets (evaluate_one_time_occupancy (sample_env steward_id 0) sample_taken [sample_line] (Some sample_context)
     0 utc_zone True None)) = [41]"
  "length (ev_conflicts (evaluate_one_time_occupancy (sample_env member_id 0) sample_taken [sample_line] None 0 utc_zone True None)) = 1"
  by code_simp+

theorem proposal_conflict_free_iff_witness:
  "bookers_exist sample_taken \<and>
   (\<exists>b. holder sample_taken 0 sample_line b \<and> bk_id b = 41 \<and> bk_ministry_id b = None \<and> 0 < bk_start_at b)"
proof -
  have b: "bookers_exist sample_taken" unfolding bookers_exist_def by code_simp
  have "41 \<in> target_booking_id ` set (ev_targets (evaluate_one_time_occupancy (sample_env steward_id 0) sample_taken [sample_line]
      (Some sample_context) 0 utc_zone True None))"
    using sample_evaluation(1) by (metis list.set_intros(1) list.set_map)
  with proposal_conflict_free_iff [OF b, of "sample_env steward_id 0" "[sample_line]" "Some sample_context" 0 utc_zone True None]
  show ?thesis using b by (simp add: sample_env_def) blast
qed


definition sample_target :: override_target where
  "sample_target = \<lparr>tg_impact = sample_impact, tg_booker_id = member_id, tg_occurrence_date = ymd2ord 2026 6 1,
     tg_overlapping_facility_ids = [hall_id]\<rparr>"

theorem overrides_are_whole_and_audited_witness:
  "\<exists>items s'. apply_whole_booking_overrides [(77, sample_target)] steward_id (sample_env steward_id 0) sample_taken = (items, s') \<and>
     map ni_booking_id items = [41] \<and> (\<forall>b\<in>set (db_bookings s'). bk_id b = 41 \<longrightarrow> bk_status b = BS_OVERRIDDEN)"
proof -
  obtain items s' where r: "apply_whole_booking_overrides [(77, sample_target)] steward_id (sample_env steward_id 0) sample_taken = (items, s')"
    by (cases "apply_whole_booking_overrides [(77, sample_target)] steward_id (sample_env steward_id 0) sample_taken")
  have "target_booking_id sample_target = 41" by code_simp
  then show ?thesis using overrides_are_whole_and_audited [OF r] r by (simp add: Let_def dict_fromkeys_def)
qed

end
