(* ===== verification/Room_Hours.thy ===== *)
theory Room_Hours imports Sample_Data begin

text \<open>
  When a room is open: opening hours from the Room Slot Templates (\<open>opening_hours.py\<close>) and Blackouts
  (\<open>room_blackout_repository.py\<close>). Windows are wall-clock values of the facility's zone; all
  comparisons of \<open>opening_hours.py\<close> are between values of that one zone.
\<close>

section \<open>Opening hours\<close>

definition template_effective :: "date \<Rightarrow> slot_template \<Rightarrow> bool" where
  "template_effective day t \<longleftrightarrow>
     (case st_effective_from t of None \<Rightarrow> True | Some from \<Rightarrow> \<not> day < from) \<and>
     (case st_effective_to t of None \<Rightarrow> True | Some to \<Rightarrow> \<not> day > to)"

definition filter_applicable_templates :: "slot_template list \<Rightarrow> date \<Rightarrow> slot_template list" where
  "filter_applicable_templates templates day = filter (template_effective day) templates"

text \<open>The loop of \<open>merge_open_windows\<close>: its last merged window is the accumulator.\<close>

fun merge_from :: "wall \<times> wall \<Rightarrow> (wall \<times> wall) list \<Rightarrow> (wall \<times> wall) list" where
  "merge_from prev [] = [prev]"
| "merge_from (prev_start, prev_end) ((start_at, end_at) # windows) =
     (if start_at \<le> prev_end then merge_from (prev_start, max prev_end end_at) windows
      else (prev_start, prev_end) # merge_from (start_at, end_at) windows)"

definition merge_open_windows :: "(wall \<times> wall) list \<Rightarrow> (wall \<times> wall) list" where
  "merge_open_windows windows =
     (case sort_key fst windows of [] \<Rightarrow> [] | w # ws \<Rightarrow> merge_from w ws)"

definition template_containing_start :: "slot_template list \<Rightarrow> instant \<Rightarrow> zone \<Rightarrow> slot_template option" where
  "template_containing_start templates start_at local_tz =
     (let start_time = wall_time (to_local local_tz start_at)
      in List.find (\<lambda>t. st_start_time t \<le> start_time \<and> start_time < st_end_time t) templates)"

definition template_windows :: "date \<Rightarrow> slot_template list \<Rightarrow> (wall \<times> wall) list" where
  "template_windows day applicable =
     map (\<lambda>t. (combine day (st_start_time t), combine day (st_end_time t)))
       (filter (\<lambda>t. st_start_time t < st_end_time t) applicable)"

definition member_interval_within_opening_hours ::
  "instant \<Rightarrow> instant \<Rightarrow> slot_template list \<Rightarrow> zone \<Rightarrow> bool" where
  "member_interval_within_opening_hours start_at end_at templates local_tz =
     (if end_at \<le> start_at then False
      else (let day = wall_date (to_local local_tz start_at);
                applicable = filter_applicable_templates templates day
            in if applicable = [] then False
               else (case template_containing_start applicable start_at local_tz of
                       None \<Rightarrow> False
                     | Some start_template \<Rightarrow>
                         if end_at - start_at < st_slot_duration_minutes start_template * MINUTE_US then False
                         else list_ex (\<lambda>(window_start, window_end).
                                window_start \<le> to_local local_tz start_at \<and> to_local local_tz end_at \<le> window_end)
                              (merge_open_windows (template_windows day applicable)))))"

definition raise_if_outside_opening_hours ::
  "uuid \<Rightarrow> instant \<Rightarrow> instant \<Rightarrow> slot_template list \<Rightarrow> zone \<Rightarrow> exn + unit" where
  "raise_if_outside_opening_hours facility_id start_at end_at templates local_tz =
     (if member_interval_within_opening_hours start_at end_at templates local_tz then Inr ()
      else Inl (raise_exn BadRequest (Some (BCode OUTSIDE_OPENING_HOURS)) (CtxId facility_id)))"

section \<open>Blackouts\<close>

unbundle bit_operations_syntax

definition effective_dates_overlap :: "date option \<Rightarrow> date option \<Rightarrow> date option \<Rightarrow> date option \<Rightarrow> bool" where
  "effective_dates_overlap left_from left_to right_from right_to =
     (if (case (left_from, right_to) of (Some a, Some b) \<Rightarrow> a > b | _ \<Rightarrow> False) then False
      else if (case (right_from, left_to) of (Some a, Some b) \<Rightarrow> a > b | _ \<Rightarrow> False) then False
      else True)"

definition time_ranges_overlap :: "tod \<Rightarrow> tod \<Rightarrow> tod \<Rightarrow> tod \<Rightarrow> bool" where
  "time_ranges_overlap left_start left_end right_start right_end \<longleftrightarrow>
     left_start < right_end \<and> right_start < left_end"

definition scopes_overlap :: "uuid option \<Rightarrow> uuid option \<Rightarrow> bool" where
  "scopes_overlap left_facility_id right_facility_id =
     (if left_facility_id = None \<or> right_facility_id = None then True
      else left_facility_id = right_facility_id)"

definition applies_on_date :: "blackout \<Rightarrow> date \<Rightarrow> bool" where
  "applies_on_date item target_date =
     (if bo_kind item = blackout_kind_value BK_ONE_OFF then bo_blackout_date item = Some target_date
      else if (case bo_effective_from item of None \<Rightarrow> False | Some d \<Rightarrow> target_date < d) then False
      else if (case bo_effective_to item of None \<Rightarrow> False | Some d \<Rightarrow> target_date > d) then False
      else (case bo_days_of_week_mask item of None \<Rightarrow> False
            | Some m \<Rightarrow> (let day_bit = push_bit (nat (weekday target_date)) 1 in m AND day_bit \<noteq> 0)))"

text \<open>\<open>time(23, 59, 59)\<close>, and the part of an interval on one of its days.\<close>

definition LAST_SECOND :: tod where "LAST_SECOND = 23 * HOUR_US + 59 * MINUTE_US + 59000000"

definition interval_days :: "wall \<Rightarrow> wall \<Rightarrow> date list" where
  "interval_days local_start local_end =
     (if wall_date local_start \<noteq> wall_date local_end then [wall_date local_start, wall_date local_end]
      else [wall_date local_start])"

definition day_part :: "wall \<Rightarrow> wall \<Rightarrow> date \<Rightarrow> tod \<times> tod" where
  "day_part local_start local_end day =
     (if day = wall_date local_start \<and> day = wall_date local_end then (wall_time local_start, wall_time local_end)
      else if day = wall_date local_start then (wall_time local_start, LAST_SECOND)
      else (0, wall_time local_end))"

definition interval_overlaps_blackout :: "blackout \<Rightarrow> uuid \<Rightarrow> instant \<Rightarrow> instant \<Rightarrow> zone \<Rightarrow> bool" where
  "interval_overlaps_blackout item facility_id start_at end_at tz =
     (if \<not> bo_is_active item then False
      else if \<not> scopes_overlap (bo_facility_id item) (Some facility_id) then False
      else (let local_start = to_local tz start_at; local_end = to_local tz end_at
            in list_ex (\<lambda>day.
                 if \<not> applies_on_date item day then False
                 else (case day_part local_start local_end day of (slot_start, slot_end) \<Rightarrow>
                        time_ranges_overlap slot_start slot_end (bo_start_time item) (bo_end_time item)))
                 (interval_days local_start local_end)))"

definition slot_overlaps_blackouts :: "blackout list \<Rightarrow> tod \<Rightarrow> tod \<Rightarrow> bool" where
  "slot_overlaps_blackouts blackouts slot_start_local slot_end_local =
     list_ex (\<lambda>item. time_ranges_overlap slot_start_local slot_end_local (bo_start_time item) (bo_end_time item))
       blackouts"

definition has_blackout_overlap :: "db \<Rightarrow> uuid \<Rightarrow> instant \<Rightarrow> instant \<Rightarrow> zone \<Rightarrow> bool" where
  "has_blackout_overlap s facility_id start_at end_at tz =
     (let local_start = to_local tz start_at; local_end = to_local tz end_at
      in list_ex (\<lambda>day.
           let blackouts = list_active_for_room_day s facility_id day
           in if blackouts = [] then False
              else (case day_part local_start local_end day of (slot_start, slot_end) \<Rightarrow>
                     slot_overlaps_blackouts blackouts slot_start slot_end))
           (interval_days local_start local_end))"

section \<open>Lemmas\<close>

subsection \<open>Merging windows\<close>

text \<open>A moment is covered when some half-open window contains it.\<close>

definition covered :: "(wall \<times> wall) list \<Rightarrow> wall \<Rightarrow> bool" where
  "covered ws x \<longleftrightarrow> (\<exists>(a, b)\<in>set ws. a \<le> x \<and> x < b)"

lemma covered_Cons [simp]: "covered ((a, b) # ws) x \<longleftrightarrow> a \<le> x \<and> x < b \<or> covered ws x"
  by (auto simp: covered_def)

lemma covered_Nil [simp]: "\<not> covered [] x"
  by (simp add: covered_def)

lemma merge_from_starts:
  assumes "sorted (map fst (w # ws))" "v \<in> set (merge_from w ws)"
  shows "fst w \<le> fst v"
  using assms by (induction w ws rule: merge_from.induct) (fastforce split: if_splits)+

lemma merge_from_separated:
  assumes "sorted (map fst (w # ws))"
  shows "sorted_wrt (\<lambda>u v. snd u < fst v) (merge_from w ws)"
  using assms
proof (induction w ws rule: merge_from.induct)
  case (1 prev)
  then show ?case by simp
next
  case (2 ps pe s e ws)
  show ?case
  proof (cases "s \<le> pe")
    case True
    with 2 show ?thesis by simp
  next
    case False
    have "pe < fst v" if "v \<in> set (merge_from (s, e) ws)" for v
      using merge_from_starts [OF _ that] 2(3) False by fastforce
    with False 2 show ?thesis by simp
  qed
qed

lemma merge_from_covered:
  assumes "sorted (map fst (w # ws))" "\<forall>v\<in>set (w # ws). fst v \<le> snd v"
  shows "covered (merge_from w ws) x \<longleftrightarrow> covered (w # ws) x"
  using assms
proof (induction w ws rule: merge_from.induct)
  case (1 prev)
  then show ?case by simp
next
  case (2 ps pe s e ws)
  show ?case
  proof (cases "s \<le> pe")
    case True
    have "covered (merge_from (ps, pe) ((s, e) # ws)) x \<longleftrightarrow> covered ((ps, max pe e) # ws) x"
      using True 2 by (simp add: le_max_iff_disj)
    also have "\<dots> \<longleftrightarrow> covered ((ps, pe) # (s, e) # ws) x"
      using True 2(3) by (auto simp: max_def split: if_splits)
    finally show ?thesis .
  next
    case False
    with 2 show ?thesis by simp
  qed
qed

lemma merge_open_windows_props:
  assumes "\<forall>v\<in>set ws. fst v \<le> snd v"
  shows "covered (merge_open_windows ws) x \<longleftrightarrow> covered ws x"
    and "sorted_wrt (\<lambda>u v. snd u < fst v) (merge_open_windows ws)"
proof -
  have "(covered (merge_open_windows ws) x \<longleftrightarrow> covered ws x) \<and>
      sorted_wrt (\<lambda>u v. snd u < fst v) (merge_open_windows ws)"
  proof (cases "sort_key fst ws")
    case Nil
    then show ?thesis by (simp add: merge_open_windows_def) (metis set_sort covered_def empty_iff list.set(1))
  next
    case (Cons v vs)
    have "sorted (map fst (v # vs))" using sorted_sort_key [of fst ws] Cons by simp
    moreover have s: "set (v # vs) = set ws" using Cons by (metis set_sort)
    moreover have "\<forall>u\<in>set (v # vs). fst u \<le> snd u" using assms s by simp
    moreover have "covered (v # vs) x \<longleftrightarrow> covered ws x" using s by (simp only: covered_def)
    ultimately show ?thesis
      using merge_from_covered [of v vs x] merge_from_separated [of v vs] Cons
      by (simp add: merge_open_windows_def)
  qed
  then show "covered (merge_open_windows ws) x \<longleftrightarrow> covered ws x"
    and "sorted_wrt (\<lambda>u v. snd u < fst v) (merge_open_windows ws)" by simp_all
qed

text \<open>In separated windows, an interval is covered only by lying within one of them.\<close>

lemma separated_interval:
  assumes "sorted_wrt (\<lambda>u v. snd u < fst v) ws" "a < b" "\<forall>x. a \<le> x \<and> x < b \<longrightarrow> covered ws x"
  shows "\<exists>(s, e)\<in>set ws. s \<le> a \<and> b \<le> e"
proof -
  have "covered ws a" using assms(2,3) by simp
  then obtain s e where w: "(s, e) \<in> set ws" "s \<le> a" "a < e" by (auto simp: covered_def)
  have "b \<le> e"
  proof (rule ccontr)
    assume "\<not> b \<le> e"
    then have "covered ws e" using assms(3) w by simp
    then obtain s' e' where w': "(s', e') \<in> set ws" "s' \<le> e" "e < e'" by (auto simp: covered_def)
    obtain i j where ij: "i < length ws" "ws ! i = (s, e)" "j < length ws" "ws ! j = (s', e')"
      using w(1) w'(1) by (auto simp: in_set_conv_nth)
    consider "i < j" | "j < i" | "i = j" by linarith
    then show False
    proof cases
      case 1
      with assms(1) ij have "e < s'" by (fastforce simp: sorted_wrt_iff_nth_less)
      with w' show False by simp
    next
      case 2
      with assms(1) ij have "e' < s" by (fastforce simp: sorted_wrt_iff_nth_less)
      with w w' show False by simp
    next
      case 3
      with ij w' show False by simp
    qed
  qed
  with w show ?thesis by auto
qed

lemma merged_contains_iff:
  assumes "\<forall>v\<in>set ws. fst v \<le> snd v" "a < b"
  shows "list_ex (\<lambda>(s, e). s \<le> a \<and> b \<le> e) (merge_open_windows ws) \<longleftrightarrow> (\<forall>x. a \<le> x \<and> x < b \<longrightarrow> covered ws x)"
proof
  assume "list_ex (\<lambda>(s, e). s \<le> a \<and> b \<le> e) (merge_open_windows ws)"
  then obtain u e where "(u, e) \<in> set (merge_open_windows ws)" "u \<le> a" "b \<le> e" by (auto simp: list_ex_iff)
  then have "\<forall>x. a \<le> x \<and> x < b \<longrightarrow> covered (merge_open_windows ws) x"
    unfolding covered_def by (intro allI impI bexI [of _ "(u, e)"]) auto
  then show "\<forall>x. a \<le> x \<and> x < b \<longrightarrow> covered ws x" by (simp add: merge_open_windows_props(1) [OF assms(1)])
next
  assume "\<forall>x. a \<le> x \<and> x < b \<longrightarrow> covered ws x"
  then have "\<forall>x. a \<le> x \<and> x < b \<longrightarrow> covered (merge_open_windows ws) x"
    by (simp add: merge_open_windows_props(1) [OF assms(1)])
  from separated_interval [OF merge_open_windows_props(2) [OF assms(1)] assms(2) this]
  show "list_ex (\<lambda>(s, e). s \<le> a \<and> b \<le> e) (merge_open_windows ws)" by (auto simp: list_ex_iff)
qed

lemma template_windows_nonempty: "\<forall>v\<in>set (template_windows day ts). fst v \<le> snd v"
  by (auto simp: template_windows_def combine_def)

lemma covered_template_windows:
  "covered (template_windows day ts) x \<longleftrightarrow>
     (\<exists>t\<in>set ts. combine day (st_start_time t) \<le> x \<and> x < combine day (st_end_time t))"
  by (force simp: covered_def template_windows_def combine_def)

subsection \<open>Blackouts\<close>

lemma list_active_for_room_day_iff:
  assumes "\<forall>b\<in>set (db_blackouts s). bo_kind b \<in> {blackout_kind_value BK_ONE_OFF, blackout_kind_value BK_RECURRING}"
  shows "b \<in> set (list_active_for_room_day s facility_id day) \<longleftrightarrow>
    b \<in> set (db_blackouts s) \<and> \<not> bo_is_deleted b \<and> bo_is_active b \<and>
    scopes_overlap (bo_facility_id b) (Some facility_id) \<and> applies_on_date b day"
  using assms
  by (auto simp: list_active_for_room_day_def Let_def scopes_overlap_def applies_on_date_def not_less
      split: option.splits)

lemma has_blackout_overlap_iff:
  assumes "\<forall>b\<in>set (db_blackouts s). bo_kind b \<in> {blackout_kind_value BK_ONE_OFF, blackout_kind_value BK_RECURRING}"
  shows "has_blackout_overlap s facility_id start_at end_at tz \<longleftrightarrow>
    (\<exists>b\<in>set (db_blackouts s). \<not> bo_is_deleted b \<and> interval_overlaps_blackout b facility_id start_at end_at tz)"
proof -
  have "has_blackout_overlap s facility_id start_at end_at tz \<longleftrightarrow>
      (\<exists>day\<in>set (interval_days (to_local tz start_at) (to_local tz end_at)).
        \<exists>b\<in>set (list_active_for_room_day s facility_id day).
          case day_part (to_local tz start_at) (to_local tz end_at) day of (x, y) \<Rightarrow>
            time_ranges_overlap x y (bo_start_time b) (bo_end_time b))"
    by (simp add: has_blackout_overlap_def Let_def list_ex_iff slot_overlaps_blackouts_def case_prod_beta)
       (rule bex_cong [OF refl], auto)
  also have "\<dots> \<longleftrightarrow> (\<exists>b\<in>set (db_blackouts s). \<not> bo_is_deleted b \<and> interval_overlaps_blackout b facility_id start_at end_at tz)"
    unfolding list_active_for_room_day_iff [OF assms] Bex_def
    by (simp add: interval_overlaps_blackout_def Let_def list_ex_iff case_prod_beta) blast
  finally show ?thesis .
qed

section \<open>Properties\<close>

text \<open>
  C28. The opening-hours check is what it stands for. A member interval whose end is later on the
  facility's clock than its start is accepted exactly when the start falls in some applicable template,
  the interval lasts at least the slot duration of the first such template, and every moment of it is
  inside some applicable template of the day: merging the windows neither bridges a gap nor loses a
  join.
\<close>

theorem opening_hours_pointwise:
  assumes "start_at < end_at" "to_local tz start_at < to_local tz end_at"
  shows "member_interval_within_opening_hours start_at end_at templates tz \<longleftrightarrow>
    (let day = wall_date (to_local tz start_at);
         applicable = filter (template_effective day) templates
     in (\<exists>t. template_containing_start applicable start_at tz = Some t \<and>
             st_slot_duration_minutes t * MINUTE_US \<le> end_at - start_at) \<and>
        (\<forall>x. to_local tz start_at \<le> x \<and> x < to_local tz end_at \<longrightarrow>
           (\<exists>t\<in>set applicable. combine day (st_start_time t) \<le> x \<and> x < combine day (st_end_time t))))"
proof -
  let ?day = "wall_date (to_local tz start_at)"
  let ?app = "filter (template_effective ?day) templates"
  have "list_ex (\<lambda>(s, e). s \<le> to_local tz start_at \<and> to_local tz end_at \<le> e)
      (merge_open_windows (template_windows ?day ?app)) \<longleftrightarrow>
    (\<forall>x. to_local tz start_at \<le> x \<and> x < to_local tz end_at \<longrightarrow>
       (\<exists>t\<in>set ?app. combine ?day (st_start_time t) \<le> x \<and> x < combine ?day (st_end_time t)))"
    using merged_contains_iff [OF template_windows_nonempty assms(2)] by (simp only: covered_template_windows)
  moreover have "template_containing_start [] start_at tz = None"
    by (simp add: template_containing_start_def)
  ultimately show ?thesis
    using assms(1)
    by (auto simp: member_interval_within_opening_hours_def filter_applicable_templates_def Let_def
        split: option.splits)
qed

theorem opening_hours_pointwise_witness:
  "member_interval_within_opening_hours (moment 2026 5 4 9 0) (moment 2026 5 4 11 0)
     [sample_template 40 hall_id] utc_zone \<and>
   {moment 2026 5 4 9 0..<moment 2026 5 4 11 0} \<subseteq>
     {combine (ymd2ord 2026 5 4) (8 * HOUR_US)..<combine (ymd2ord 2026 5 4) (22 * HOUR_US)}"
proof -
  have a: "moment 2026 5 4 9 0 < moment 2026 5 4 11 0" by code_simp
  have ok: "member_interval_within_opening_hours (moment 2026 5 4 9 0) (moment 2026 5 4 11 0)
     [sample_template 40 hall_id] utc_zone" by code_simp
  have d: "wall_date (moment 2026 5 4 9 0) = ymd2ord 2026 5 4" by code_simp
  have f: "filter (template_effective (ymd2ord 2026 5 4)) [sample_template 40 hall_id] = [sample_template 40 hall_id]"
    by (simp add: template_effective_def sample_template_def)
  have "st_start_time (sample_template 40 hall_id) = 8 * HOUR_US" "st_end_time (sample_template 40 hall_id) = 22 * HOUR_US"
    by (simp_all add: sample_template_def)
  with opening_hours_pointwise [of "moment 2026 5 4 9 0" "moment 2026 5 4 11 0" utc_zone "[sample_template 40 hall_id]"]
    a ok d f have "\<forall>x. moment 2026 5 4 9 0 \<le> x \<and> x < moment 2026 5 4 11 0 \<longrightarrow>
      combine (ymd2ord 2026 5 4) (8 * HOUR_US) \<le> x \<and> x < combine (ymd2ord 2026 5 4) (22 * HOUR_US)"
    by (simp add: Let_def)
  with ok show ?thesis by (auto simp only: subset_eq atLeastLessThan_iff)
qed

text \<open>
  The two blackout checks agree: the query that refuses a new booking finds a blackout exactly when
  some stored, undeleted blackout overlaps the interval in the sense used for the impact preview of a
  proposed blackout.
\<close>

lemma blackout_checks_agree:
  assumes "\<forall>b\<in>set (db_blackouts s). bo_kind b \<in> {blackout_kind_value BK_ONE_OFF, blackout_kind_value BK_RECURRING}"
  shows "has_blackout_overlap s facility_id start_at end_at tz \<longleftrightarrow>
    (\<exists>b\<in>set (db_blackouts s). \<not> bo_is_deleted b \<and> interval_overlaps_blackout b facility_id start_at end_at tz)"
  by (rule has_blackout_overlap_iff [OF assms])

definition sample_blackout :: blackout where
  "sample_blackout = \<lparr>bo_id = 70, bo_facility_id = None, bo_name = ''Camp'', bo_reason = ''Camp'',
     bo_kind = ''recurring'', bo_blackout_date = None, bo_days_of_week_mask = Some 1,
     bo_start_time = 10 * HOUR_US, bo_end_time = 12 * HOUR_US, bo_is_active = True,
     bo_effective_from = None, bo_effective_to = None, bo_is_deleted = False\<rparr>"

end
