(* ===== verification/Pricing.thy ===== *)
theory Pricing imports Sample_Data "HOL-Library.Product_Lexorder" begin

text \<open>
  Booking Discount eligibility (\<open>discount_eligibility_service.py\<close>) and the rental quote
  (\<open>pricing_service.py\<close>, \<open>rental_repository.py\<close>). A quote is a function of the request, the
  tables and the command; it never writes.
\<close>

section \<open>Rate selection\<close>

definition rate_sort_key :: "rate_result \<Rightarrow> nat \<times> nat" where
  "rate_sort_key rate =
     (let has_rule = (if rr_applicability rate \<noteq> None then 0 else 1);
          default_rank = (if rr_is_default rate then 0 else 1)
      in (has_rule, default_rank))"

definition unit_or_hourly :: "string option \<Rightarrow> string" where
  "unit_or_hourly u = (if truthy u then the u else billing_unit_value BU_HOURLY)"

definition pick_rate_for_line :: "rate_result list \<Rightarrow> dec \<Rightarrow> bool \<Rightarrow> rate_result option \<times> string" where
  "pick_rate_for_line rates billed_hours allow_first_active =
     (let eligible = filter (\<lambda>rate. rr_is_active rate \<and> matches_applicability (rr_applicability rate) billed_hours) rates
      in if eligible = []
         then (case List.find (\<lambda>rate. rr_is_default rate \<and> rr_is_active rate) rates of
                 Some default_rate \<Rightarrow> (Some default_rate, unit_or_hourly (rr_billing_unit default_rate))
               | None \<Rightarrow>
                   (let active = filter rr_is_active rates
                    in if allow_first_active \<and> active \<noteq> []
                       then (Some (hd active), unit_or_hourly (rr_billing_unit (hd active)))
                       else (None, billing_unit_value BU_HOURLY)))
         else (let chosen = hd (sort_key rate_sort_key eligible)
               in (Some chosen, unit_or_hourly (rr_billing_unit chosen))))"

definition resolve_rate_for_room :: "db \<Rightarrow> uuid \<Rightarrow> dec \<Rightarrow> date option \<Rightarrow> rate_result option" where
  "resolve_rate_for_room s facility_id billed_hours as_of_date =
     (let room_rates = list_active_rates_for_facility s facility_id as_of_date;
          bound = (if room_rates \<noteq> [] then fst (pick_rate_for_line room_rates billed_hours False) else None)
      in case bound of
           Some rate \<Rightarrow> Some rate
         | None \<Rightarrow>
             (let candidates = map template_to_rate_candidate (list_templates s True)
              in fst (pick_rate_for_line candidates billed_hours True)))"

section \<open>Discount eligibility\<close>

definition no_discount :: eligibility_result where
  "no_discount = \<lparr>el_discount_code = None, el_discount_percent = 0, el_is_free_ministry = False\<rparr>"

definition free_ministry :: eligibility_result where
  "free_ministry = \<lparr>el_discount_code = None, el_discount_percent = 0, el_is_free_ministry = True\<rparr>"

definition resolve_booker_id :: "env \<Rightarrow> uuid option \<Rightarrow> exn + uuid" where
  "resolve_booker_id e booker_id =
     (case booker_id of Some b \<Rightarrow> Inr b
      | None \<Rightarrow> (case en_user_id e of None \<Rightarrow> Inl forbidden | Some user_id \<Rightarrow> Inr user_id))"

definition is_qualifying_ministry_booking :: "db \<Rightarrow> uuid option \<Rightarrow> uuid \<Rightarrow> bool" where
  "is_qualifying_ministry_booking s ministry_id booker_id =
     (case ministry_id of None \<Rightarrow> False
      | Some i \<Rightarrow> if ministry_get_status s i \<noteq> Some MS_ACTIVE then False
                else is_user_booking_member s i booker_id)"

definition active_discount_for_code :: "db \<Rightarrow> discount_code \<Rightarrow> eligibility_result" where
  "active_discount_for_code s code =
     (case List.find (\<lambda>rule. dr_code rule = discount_code_value code \<and> dr_is_active rule) (list_discount_rules s) of
        Some rule \<Rightarrow> \<lparr>el_discount_code = Some (dr_code rule), el_discount_percent = dr_percent_off rule,
                      el_is_free_ministry = False\<rparr>
      | None \<Rightarrow> no_discount)"

definition evaluate_eligibility :: "env \<Rightarrow> db \<Rightarrow> eligibility_command \<Rightarrow> exn + eligibility_result" where
  "evaluate_eligibility e s command =
     bindE (resolve_booker_id e (ec_booker_id command)) (\<lambda>booker_id.
       if is_qualifying_ministry_booking s (ec_ministry_id command) booker_id then Inr free_ministry
       else if ec_booking_type command = BT_RECURRING
       then Inr (active_discount_for_code s DC_RECURRING_WEEKLY_MONTHLY)
       else Inr no_discount)"

section \<open>The quote\<close>

definition compute_line_subtotal :: "string \<Rightarrow> dec \<Rightarrow> dec \<Rightarrow> dec" where
  "compute_line_subtotal billing_unit unit_amount billed_hours =
     (if billing_unit = billing_unit_value BU_DAILY_FLAT then unit_amount
      else if billing_unit = billing_unit_value BU_HOURLY then unit_amount * billed_hours
      else if billing_unit = billing_unit_value BU_PER_SLOT then unit_amount
      else if billing_unit = billing_unit_value BU_FLAT_PER_BOOKING then unit_amount
      else unit_amount * billed_hours)"

text \<open>\<open>{item.code: item for item in surcharges if item.is_active}\<close>: a later duplicate wins.\<close>

definition active_surcharge :: "db \<Rightarrow> string \<Rightarrow> surcharge option" where
  "active_surcharge s code =
     List.find (\<lambda>u. su_code u = code) (rev (filter su_is_active (list_surcharges s)))"

definition compute_surcharges :: "db \<Rightarrow> preview_quote_command \<Rightarrow> exn + dec" where
  "compute_surcharges s command =
     (if pq_surcharge_codes command = [] then Inr 0
      else (let billed_hours = sum_list (map ql_billed_hours (pq_room_lines command))
            in foldE (\<lambda>total code.
                 case active_surcharge s code of
                   None \<Rightarrow> Inl bad_request_plain
                 | Some u \<Rightarrow>
                     Inr (if su_charge_type u = charge_type_value CT_PER_HOUR
                          then total + su_unit_amount u * billed_hours
                          else total + su_unit_amount u))
                 0 (pq_surcharge_codes command)))"

definition free_ministry_quote :: "preview_quote_command \<Rightarrow> quote_result" where
  "free_ministry_quote command =
     (let zero = quantize_half_up 0
      in \<lparr>qt_subtotal_amount = zero, qt_discount_code = None, qt_discount_percent = 0,
          qt_discount_amount = zero, qt_surcharge_amount = zero, qt_quoted_amount = zero,
          qt_currency = pq_currency command, qt_is_free_ministry = True,
          qt_room_lines = map (\<lambda>line.
            \<lparr>qr_facility_id = ql_facility_id line, qr_billed_hours = ql_billed_hours line,
             qr_rental_rate_name = None, qr_billing_unit = None, qr_unit_amount = None,
             qr_currency = pq_currency command, qr_applicability = None, qr_is_default = False,
             qr_line_subtotal = zero\<rparr>) (pq_room_lines command)\<rparr>)"

text \<open>One room line: the quoted line and its exact subtotal.\<close>

definition quote_line :: "db \<Rightarrow> date option \<Rightarrow> quote_line_command \<Rightarrow> exn + quote_line_result \<times> dec" where
  "quote_line s as_of_date line =
     (case resolve_rate_for_room s (ql_facility_id line) (ql_billed_hours line) as_of_date of
        None \<Rightarrow> Inl bad_request_plain
      | Some rate \<Rightarrow>
          (let billing_unit = unit_or_hourly (rr_billing_unit rate);
               line_subtotal = compute_line_subtotal billing_unit (rr_unit_amount rate) (ql_billed_hours line)
           in Inr (\<lparr>qr_facility_id = ql_facility_id line, qr_billed_hours = ql_billed_hours line,
                    qr_rental_rate_name = Some (case rr_template_name rate of None \<Rightarrow> [] | Some n \<Rightarrow> n),
                    qr_billing_unit = Some billing_unit, qr_unit_amount = Some (rr_unit_amount rate),
                    qr_currency = (if rr_currency rate = [] then ''CAD'' else rr_currency rate),
                    qr_applicability = rr_applicability rate, qr_is_default = rr_is_default rate,
                    qr_line_subtotal = quantize_half_up line_subtotal\<rparr>, line_subtotal)))"

definition check_quote_line :: "db \<Rightarrow> quote_line_command \<Rightarrow> exn + unit" where
  "check_quote_line s line =
     raise_if (\<not> room_exists_by_id s (ql_facility_id line)) bad_request_plain
       (raise_if (ql_billed_hours line \<le> 0) bad_request_plain
         (Inr ()))"

definition preview_quote :: "env \<Rightarrow> db \<Rightarrow> preview_quote_command \<Rightarrow> exn + quote_result" where
  "preview_quote e s command =
     raise_if (pq_room_lines command = []) bad_request_plain
       (bindE (forE (check_quote_line s) (pq_room_lines command)) (\<lambda>_.
        bindE (evaluate_eligibility e s
                 \<lparr>ec_booking_type = pq_booking_type command, ec_ministry_id = pq_ministry_id command,
                  ec_booker_id = pq_booker_id command\<rparr>) (\<lambda>eligibility.
        if el_is_free_ministry eligibility then Inr (free_ministry_quote command)
        else
          bindE (mapE (quote_line s (pq_as_of_date command)) (pq_room_lines command)) (\<lambda>lines.
            let subtotal = sum_list (map snd lines);
                discount_percent = el_discount_percent eligibility;
                discount_amount = quantize_half_up (subtotal * discount_percent / 100);
                after_discount = subtotal - discount_amount
            in bindE (compute_surcharges s command) (\<lambda>surcharge_amount.
                 let quoted_amount = after_discount + surcharge_amount
                 in Inr \<lparr>qt_subtotal_amount = quantize_half_up subtotal,
                         qt_discount_code = el_discount_code eligibility,
                         qt_discount_percent = discount_percent,
                         qt_discount_amount = discount_amount,
                         qt_surcharge_amount = quantize_half_up surcharge_amount,
                         qt_quoted_amount = quantize_half_up quoted_amount,
                         qt_currency = pq_currency command,
                         qt_is_free_ministry = False,
                         qt_room_lines = map fst lines\<rparr>)))))"

section \<open>Lemmas\<close>

subsection \<open>Stable minimum\<close>

lemma hd_sort_key:
  assumes "xs \<noteq> []"
  shows "hd (sort_key k xs) \<in> set xs" "x \<in> set xs \<Longrightarrow> k (hd (sort_key k xs)) \<le> k x"
    and "hd (filter (\<lambda>x. k x = k (hd (sort_key k xs))) xs) = hd (sort_key k xs)"
proof -
  obtain y ys where y: "sort_key k xs = y # ys"
    using assms by (metis length_sort length_0_conv neq_Nil_conv)
  have set_xs: "set (y # ys) = set xs" using y by (metis set_sort)
  then show "hd (sort_key k xs) \<in> set xs" using y by auto
  have "sorted (map k (y # ys))" using sorted_sort_key [of k xs] y by simp
  then show "x \<in> set xs \<Longrightarrow> k (hd (sort_key k xs)) \<le> k x" using set_xs y by auto
  have "filter (\<lambda>x. k x = k y) xs = filter (\<lambda>x. k x = k y) (sort_key k xs)"
    by (rule sort_key_stable [symmetric])
  then show "hd (filter (\<lambda>x. k x = k (hd (sort_key k xs))) xs) = hd (sort_key k xs)"
    using y by simp
qed

subsection \<open>Rates\<close>

lemma pick_rate_eligible:
  assumes "rate \<in> set rates" "rr_is_active rate" "matches_applicability (rr_applicability rate) h"
  shows "fst (pick_rate_for_line rates h first) =
    Some (hd (sort_key rate_sort_key (filter (\<lambda>r. rr_is_active r \<and> matches_applicability (rr_applicability r) h) rates)))"
proof -
  have "filter (\<lambda>r. rr_is_active r \<and> matches_applicability (rr_applicability r) h) rates \<noteq> []"
    using assms by (auto simp: filter_empty_conv)
  then show ?thesis by (simp add: pick_rate_for_line_def Let_def)
qed

lemma pick_rate_sound:
  assumes "fst (pick_rate_for_line rates h first) = Some rate"
  shows "rate \<in> set rates" "rr_is_active rate"
proof -
  let ?el = "filter (\<lambda>r. rr_is_active r \<and> matches_applicability (rr_applicability r) h) rates"
  have "rate \<in> set rates \<and> rr_is_active rate"
  proof (cases "?el = []")
    case True
    have "filter rr_is_active rates \<noteq> [] \<Longrightarrow> hd (filter rr_is_active rates) \<in> set (filter rr_is_active rates)"
      by (rule hd_in_set)
    with True assms show ?thesis
      by (auto simp: pick_rate_for_line_def Let_def dest: find_Some_set split: option.splits if_splits)
  next
    case False
    then show ?thesis using assms hd_sort_key(1) [OF False, of rate_sort_key]
      by (auto simp: pick_rate_for_line_def Let_def)
  qed
  then show "rate \<in> set rates" "rr_is_active rate" by simp_all
qed

lemma pick_rate_first_active:
  assumes "rate \<in> set rates" "rr_is_active rate"
  shows "fst (pick_rate_for_line rates h True) \<noteq> None"
proof -
  have "filter rr_is_active rates \<noteq> []" using assms by (auto simp: filter_empty_conv)
  then show ?thesis by (auto simp: pick_rate_for_line_def Let_def split: option.splits)
qed

lemma pick_rate_none_active:
  assumes "\<forall>rate\<in>set rates. \<not> rr_is_active rate"
  shows "fst (pick_rate_for_line rates h first) = None"
  using pick_rate_sound [of rates h first] assms by (cases "fst (pick_rate_for_line rates h first)") auto

text \<open>
  A room is quotable as soon as the catalog has one active template: bindings to other templates can
  only change which one prices it.
\<close>

lemma resolve_rate_None:
  "resolve_rate_for_room s facility_id h d = None \<longleftrightarrow>
     (\<forall>t\<in>set (db_rate_templates s). rt_is_deleted t \<or> \<not> rt_is_active t)"
proof
  assume none: "resolve_rate_for_room s facility_id h d = None"
  show "\<forall>t\<in>set (db_rate_templates s). rt_is_deleted t \<or> \<not> rt_is_active t"
  proof (rule ccontr)
    assume "\<not> ?thesis"
    then obtain t where "t \<in> set (list_templates s True)" "rt_is_active t" by (auto simp: list_templates_def)
    then have "template_to_rate_candidate t \<in> set (map template_to_rate_candidate (list_templates s True))"
      "rr_is_active (template_to_rate_candidate t)" by (simp_all add: template_to_rate_candidate_def)
    from pick_rate_first_active [OF this, of h] none show False
      by (auto simp: resolve_rate_for_room_def Let_def split: option.splits if_splits)
  qed
next
  assume a: "\<forall>t\<in>set (db_rate_templates s). rt_is_deleted t \<or> \<not> rt_is_active t"
  have "set (list_active_rates_for_facility s facility_id d) = {}"
    using a by (auto simp: list_active_rates_for_facility_def)
  then have b: "list_active_rates_for_facility s facility_id d = []" by simp
  have "list_templates s True = []" using a by (simp add: list_templates_def filter_empty_conv)
  then show "resolve_rate_for_room s facility_id h d = None"
    using b by (simp add: resolve_rate_for_room_def pick_rate_none_active)
qed

lemma quote_line_ok:
  "(\<exists>r. quote_line s d line = Inr r) \<longleftrightarrow>
     (\<exists>t\<in>set (db_rate_templates s). \<not> rt_is_deleted t \<and> rt_is_active t)"
  using resolve_rate_None [of s "ql_facility_id line" "ql_billed_hours line" d]
  by (auto simp: quote_line_def Let_def split: option.splits)

subsection \<open>Surcharges\<close>

definition surcharge_value :: "dec \<Rightarrow> surcharge \<Rightarrow> dec" where
  "surcharge_value billed_hours u =
     (if su_charge_type u = charge_type_value CT_PER_HOUR then su_unit_amount u * billed_hours else su_unit_amount u)"

lemma foldE_sum:
  "foldE (\<lambda>total c. case g c of None \<Rightarrow> Inl e | Some u \<Rightarrow> Inr (if P u then total + a u else total + b u)) t cs =
     (if \<forall>c\<in>set cs. g c \<noteq> None
      then Inr (t + sum_list (map (\<lambda>c. if P (the (g c)) then a (the (g c)) else b (the (g c))) cs))
      else Inl e)" for t :: dec
  by (induction cs arbitrary: t) (auto split: option.splits)

lemma compute_surcharges_eq:
  "compute_surcharges s command =
     (if \<forall>c\<in>set (pq_surcharge_codes command). active_surcharge s c \<noteq> None
      then Inr (sum_list (map (\<lambda>c. surcharge_value (sum_list (map ql_billed_hours (pq_room_lines command)))
                                     (the (active_surcharge s c))) (pq_surcharge_codes command)))
      else Inl bad_request_plain)"
  by (simp add: compute_surcharges_def Let_def foldE_sum surcharge_value_def [abs_def] cong: if_cong)

lemma active_surcharge_Some:
  "active_surcharge s c = Some u \<Longrightarrow> su_code u = c \<and> su_is_active u \<and> u \<in> set (db_surcharges s) \<and> \<not> su_is_deleted u"
  by (auto simp: active_surcharge_def list_surcharges_def dest: find_Some_set)

subsection \<open>The shape of a quote\<close>

lemma check_quote_lines_ok:
  "forE (check_quote_line s) ls = Inr u \<longleftrightarrow>
     (\<forall>l\<in>set ls. room_exists_by_id s (ql_facility_id l) \<and> 0 < ql_billed_hours l)"
  by (auto simp: forE_Inr_iff check_quote_line_def guard_simps not_le)

text \<open>Success of a quote, split at the free-Ministry policy.\<close>

lemma preview_quote_Inr:
  "preview_quote e s command = Inr q \<longleftrightarrow>
     pq_room_lines command \<noteq> [] \<and>
     (\<forall>l\<in>set (pq_room_lines command). room_exists_by_id s (ql_facility_id l) \<and> 0 < ql_billed_hours l) \<and>
     (\<exists>el. evaluate_eligibility e s \<lparr>ec_booking_type = pq_booking_type command,
              ec_ministry_id = pq_ministry_id command, ec_booker_id = pq_booker_id command\<rparr> = Inr el \<and>
        (if el_is_free_ministry el then q = free_ministry_quote command
         else (\<exists>lines U. mapE (quote_line s (pq_as_of_date command)) (pq_room_lines command) = Inr lines \<and>
            compute_surcharges s command = Inr U \<and>
            (let S = sum_list (map snd lines);
                 D = quantize_half_up (S * el_discount_percent el / 100)
             in q = \<lparr>qt_subtotal_amount = quantize_half_up S, qt_discount_code = el_discount_code el,
                     qt_discount_percent = el_discount_percent el, qt_discount_amount = D,
                     qt_surcharge_amount = quantize_half_up U,
                     qt_quoted_amount = quantize_half_up (S - D + U),
                     qt_currency = pq_currency command, qt_is_free_ministry = False,
                     qt_room_lines = map fst lines\<rparr>))))"
  unfolding preview_quote_def
  by (simp add: guard_simps check_quote_lines_ok Let_def) (auto simp: guard_simps split: if_splits)

lemma ex_if_split:
  "(\<exists>q. P \<and> Q \<and> (\<exists>el. E el \<and> (if F el then q = A else (\<exists>l u. L l \<and> C u \<and> q = f el l u)))) \<longleftrightarrow>
     P \<and> Q \<and> (\<exists>el. E el \<and> (F el \<or> (\<exists>l. L l) \<and> (\<exists>u. C u)))"
  by (simp split: if_split) blast

lemma evaluate_eligibility_free:
  "evaluate_eligibility e s command = Inr el \<Longrightarrow>
     el_is_free_ministry el \<longleftrightarrow>
       (\<exists>b. resolve_booker_id e (ec_booker_id command) = Inr b \<and>
          is_qualifying_ministry_booking s (ec_ministry_id command) b)"
  by (auto simp: evaluate_eligibility_def guard_simps free_ministry_def no_discount_def
      active_discount_for_code_def split: if_splits option.splits)

lemma evaluate_eligibility_ok:
  "(\<exists>el. evaluate_eligibility e s command = Inr el) \<longleftrightarrow>
     ec_booker_id command \<noteq> None \<or> en_user_id e \<noteq> None"
  by (auto simp: evaluate_eligibility_def resolve_booker_id_def split: option.splits)

lemma free_ministry_quote_simps [simp]:
  "qt_subtotal_amount (free_ministry_quote c) = 0" "qt_discount_amount (free_ministry_quote c) = 0"
  "qt_surcharge_amount (free_ministry_quote c) = 0" "qt_quoted_amount (free_ministry_quote c) = 0"
  "qt_discount_percent (free_ministry_quote c) = 0" "qt_is_free_ministry (free_ministry_quote c)"
  "length (qt_room_lines (free_ministry_quote c)) = length (pq_room_lines c)"
  by (simp_all add: free_ministry_quote_def Let_def)

lemma preview_quote_lines:
  assumes "preview_quote e s command = Inr q"
  shows "length (qt_room_lines q) = length (pq_room_lines command)"
  using assms by (auto simp: preview_quote_Inr Let_def dest: mapE_length split: if_splits)

lemma evaluate_eligibility_percent:
  assumes "evaluate_eligibility e s command = Inr el"
    and "\<And>r. r \<in> set (db_discount_rules s) \<Longrightarrow> 0 \<le> dr_percent_off r \<and> dr_percent_off r \<le> 100"
  shows "0 \<le> el_discount_percent el \<and> el_discount_percent el \<le> 100"
  using assms
  by (auto simp: evaluate_eligibility_def guard_simps free_ministry_def no_discount_def
      active_discount_for_code_def list_discount_rules_def dest!: find_Some_set split: if_splits option.splits)

lemma resolve_rate_template:
  assumes "resolve_rate_for_room s facility_id h d = Some rate"
  shows "\<exists>t\<in>set (db_rate_templates s). rr_unit_amount rate = rt_unit_amount t"
proof -
  have "rate \<in> set (list_active_rates_for_facility s facility_id d) \<or>
      rate \<in> template_to_rate_candidate ` set (list_templates s True)"
    using assms by (auto simp: resolve_rate_for_room_def Let_def dest: pick_rate_sound split: option.splits if_splits)
  then show ?thesis
    by (auto simp: list_active_rates_for_facility_def list_templates_def rate_of_binding_def
        template_to_rate_candidate_def)
qed

lemma quote_line_nonneg:
  assumes "quote_line s d line = Inr r" "0 < ql_billed_hours line"
    and "\<And>t. t \<in> set (db_rate_templates s) \<Longrightarrow> 0 \<le> rt_unit_amount t"
  shows "0 \<le> snd r"
proof -
  from assms(1) obtain rate where rate: "resolve_rate_for_room s (ql_facility_id line) (ql_billed_hours line) d = Some rate"
    and r: "snd r = compute_line_subtotal (unit_or_hourly (rr_billing_unit rate)) (rr_unit_amount rate) (ql_billed_hours line)"
    by (auto simp: quote_line_def Let_def split: option.splits)
  have "0 \<le> rr_unit_amount rate" using resolve_rate_template [OF rate] assms(3) by auto
  then show ?thesis unfolding r using assms(2) by (simp add: compute_line_subtotal_def)
qed

lemma sum_list_nonneg_map: "(\<And>x. x \<in> set xs \<Longrightarrow> 0 \<le> f x) \<Longrightarrow> 0 \<le> sum_list (map f xs)" for f :: "'a \<Rightarrow> dec"
  by (induction xs) auto

lemma compute_surcharges_nonneg:
  assumes "compute_surcharges s command = Inr U"
    and "\<forall>l\<in>set (pq_room_lines command). 0 < ql_billed_hours l"
    and "\<forall>u\<in>set (db_surcharges s). 0 \<le> su_unit_amount u"
  shows "0 \<le> U"
proof -
  have h: "0 \<le> sum_list (map ql_billed_hours (pq_room_lines command))"
    by (rule sum_list_nonneg_map) (use assms(2) in \<open>auto intro: less_imp_le\<close>)
  have "0 \<le> surcharge_value (sum_list (map ql_billed_hours (pq_room_lines command))) u"
    if "active_surcharge s c = Some u" for c u
    using active_surcharge_Some [OF that] assms(3) h by (simp add: surcharge_value_def)
  then show ?thesis using assms(1)
    by (auto simp: compute_surcharges_eq split: if_splits intro!: sum_list_nonneg_map)
qed

text \<open>Amounts that differ by less than two cents differ by at most one.\<close>

lemma cents_gap:
  assumes "x = of_int m / (100 :: dec)" "y = of_int n / 100" "\<bar>x - y\<bar> < 2 / 100"
  shows "\<bar>x - y\<bar> \<le> 1 / 100"
proof -
  have eq: "(x - y) * 100 = of_int (m - n)" using assms(1,2) by simp
  have abs: "\<bar>(x - y) * 100\<bar> = \<bar>x - y\<bar> * 100" by (simp only: abs_mult abs_numeral)
  have "\<bar>(x - y) * 100\<bar> < 2" unfolding abs using assms(3) by simp
  then have "\<bar>m - n\<bar> < 2" unfolding eq by linarith
  then have "\<bar>of_int (m - n) :: dec\<bar> \<le> 1" by linarith
  then have "\<bar>(x - y) * 100\<bar> \<le> 1" unfolding eq .
  then show ?thesis unfolding abs by simp
qed

section \<open>Properties\<close>

text \<open>
  Whenever some active rate applies to the billed hours, the rate picked is the first of the best
  ones in the order of the rates given: active, applicable, scoped by a rule rather than unscoped, and
  among those marked as default rather than not.
\<close>

lemma pick_rate_for_line_best:
  assumes "rate \<in> set rates" "rr_is_active rate" "matches_applicability (rr_applicability rate) billed_hours"
  shows "\<exists>best. pick_rate_for_line rates billed_hours first = (Some best, unit_or_hourly (rr_billing_unit best)) \<and>
    rr_is_active best \<and> matches_applicability (rr_applicability best) billed_hours \<and>
    (\<forall>r\<in>set rates. rr_is_active r \<longrightarrow> matches_applicability (rr_applicability r) billed_hours \<longrightarrow>
        rate_sort_key best \<le> rate_sort_key r) \<and>
    best = hd (filter (\<lambda>r. rr_is_active r \<and> matches_applicability (rr_applicability r) billed_hours \<and>
                         rate_sort_key r = rate_sort_key best) rates)"
proof -
  let ?el = "filter (\<lambda>r. rr_is_active r \<and> matches_applicability (rr_applicability r) billed_hours) rates"
  let ?best = "hd (sort_key rate_sort_key ?el)"
  have ne: "?el \<noteq> []" using assms by (auto simp: filter_empty_conv)
  note best = hd_sort_key [OF ne, where k = rate_sort_key]
  have "pick_rate_for_line rates billed_hours first = (Some ?best, unit_or_hourly (rr_billing_unit ?best))"
    using ne by (simp add: pick_rate_for_line_def Let_def)
  moreover have "?best = hd (filter (\<lambda>r. rr_is_active r \<and> matches_applicability (rr_applicability r) billed_hours \<and>
      rate_sort_key r = rate_sort_key ?best) rates)"
    using best(3) by (simp add: conj_ac)
  ultimately show ?thesis using best(1,2) by (intro exI [of _ ?best]) auto
qed

text \<open>
  C29. A quote is computed exactly when it has a line, every room exists, every line bills a positive
  time, the booker is known, and -- unless the free Ministry policy applies -- the catalog has some
  active rate template and every surcharge code is active; in every other case the request is refused.
\<close>

theorem preview_quote_succeeds_iff:
  "(\<exists>q. preview_quote e s command = Inr q) \<longleftrightarrow>
     pq_room_lines command \<noteq> [] \<and>
     (\<forall>l\<in>set (pq_room_lines command). room_exists_by_id s (ql_facility_id l) \<and> 0 < ql_billed_hours l) \<and>
     (\<exists>b. resolve_booker_id e (pq_booker_id command) = Inr b \<and>
       (is_qualifying_ministry_booking s (pq_ministry_id command) b \<or>
        (\<exists>t\<in>set (db_rate_templates s). \<not> rt_is_deleted t \<and> rt_is_active t) \<and>
        (\<forall>c\<in>set (pq_surcharge_codes command). active_surcharge s c \<noteq> None)))"
proof -
  let ?ec = "\<lparr>ec_booking_type = pq_booking_type command, ec_ministry_id = pq_ministry_id command,
              ec_booker_id = pq_booker_id command\<rparr>"
  have lines: "(\<exists>lines. mapE (quote_line s d) (pq_room_lines command) = Inr lines) \<longleftrightarrow>
      pq_room_lines command = [] \<or> (\<exists>t\<in>set (db_rate_templates s). \<not> rt_is_deleted t \<and> rt_is_active t)" for d
    unfolding mapE_Inr_iff quote_line_ok by (cases "pq_room_lines command") auto
  have sur: "(\<exists>U. compute_surcharges s command = Inr U) \<longleftrightarrow>
      (\<forall>c\<in>set (pq_surcharge_codes command). active_surcharge s c \<noteq> None)"
    by (simp add: compute_surcharges_eq)
  have el: "(\<exists>el. evaluate_eligibility e s ?ec = Inr el \<and> Q (el_is_free_ministry el)) \<longleftrightarrow>
      (\<exists>b. resolve_booker_id e (pq_booker_id command) = Inr b \<and>
         Q (is_qualifying_ministry_booking s (pq_ministry_id command) b))" for Q
    by (cases "resolve_booker_id e (pq_booker_id command)")
       (simp_all add: evaluate_eligibility_def free_ministry_def no_discount_def
          active_discount_for_code_def split: option.splits)
  have "(\<exists>q. preview_quote e s command = Inr q) \<longleftrightarrow>
     pq_room_lines command \<noteq> [] \<and>
     (\<forall>l\<in>set (pq_room_lines command). room_exists_by_id s (ql_facility_id l) \<and> 0 < ql_billed_hours l) \<and>
     (\<exists>el. evaluate_eligibility e s ?ec = Inr el \<and>
        (el_is_free_ministry el \<or>
         (\<exists>lines. mapE (quote_line s (pq_as_of_date command)) (pq_room_lines command) = Inr lines) \<and>
         (\<exists>U. compute_surcharges s command = Inr U)))"
    unfolding preview_quote_Inr Let_def by (rule ex_if_split)
  then show ?thesis unfolding lines sur
    using el [of "\<lambda>f. f \<or> (pq_room_lines command = [] \<or>
        (\<exists>t\<in>set (db_rate_templates s). \<not> rt_is_deleted t \<and> rt_is_active t)) \<and>
      (\<forall>c\<in>set (pq_surcharge_codes command). active_surcharge s c \<noteq> None)"] by auto
qed

text \<open>
  C30. The free Ministry policy: a quote is free exactly when the proposal names an active Ministry of
  which the booker is a current steward, and then every amount and every line is zero, whatever the
  rental catalog says.
\<close>

theorem quote_free_iff_steward_of_active_ministry:
  assumes "preview_quote e s command = Inr q" and "resolve_booker_id e (pq_booker_id command) = Inr b"
  shows "qt_is_free_ministry q \<longleftrightarrow>
      (\<exists>i. pq_ministry_id command = Some i \<and> ministry_get_status s i = Some MS_ACTIVE \<and> is_user_booking_member s i b) \<and>
    (qt_is_free_ministry q \<longrightarrow>
      qt_quoted_amount q = 0 \<and> qt_subtotal_amount q = 0 \<and> qt_discount_amount q = 0 \<and>
      qt_surcharge_amount q = 0 \<and> (\<forall>l\<in>set (qt_room_lines q). qr_line_subtotal l = 0))"
proof -
  from assms(1) obtain el where el: "evaluate_eligibility e s \<lparr>ec_booking_type = pq_booking_type command,
      ec_ministry_id = pq_ministry_id command, ec_booker_id = pq_booker_id command\<rparr> = Inr el"
    and q: "el_is_free_ministry el \<longrightarrow> q = free_ministry_quote command"
      "\<not> el_is_free_ministry el \<longrightarrow> \<not> qt_is_free_ministry q"
    by (auto simp: preview_quote_Inr Let_def split: if_splits)
  have free: "qt_is_free_ministry q \<longleftrightarrow> el_is_free_ministry el" using q by auto
  also have "\<dots> \<longleftrightarrow> is_qualifying_ministry_booking s (pq_ministry_id command) b"
    using evaluate_eligibility_free [OF el] assms(2) by simp
  finally have "qt_is_free_ministry q \<longleftrightarrow>
      (\<exists>i. pq_ministry_id command = Some i \<and> ministry_get_status s i = Some MS_ACTIVE \<and> is_user_booking_member s i b)"
    by (auto simp: is_qualifying_ministry_booking_def split: option.splits if_splits)
  moreover have "qt_is_free_ministry q \<longrightarrow>
      qt_quoted_amount q = 0 \<and> qt_subtotal_amount q = 0 \<and> qt_discount_amount q = 0 \<and>
      qt_surcharge_amount q = 0 \<and> (\<forall>l\<in>set (qt_room_lines q). qr_line_subtotal l = 0)"
    unfolding free using q(1) by (auto simp: free_ministry_quote_def Let_def)
  ultimately show ?thesis by blast
qed

definition sample_quote_command :: "uuid option \<Rightarrow> preview_quote_command" where
  "sample_quote_command ministry =
     \<lparr>pq_booking_type = BT_ONE_TIME, pq_currency = ''CAD'', pq_as_of_date = None,
      pq_room_lines = [\<lparr>ql_facility_id = hall_id, ql_billed_hours = 1 / 2\<rparr>],
      pq_surcharge_codes = [''audio_system''], pq_ministry_id = ministry, pq_booker_id = Some steward_id\<rparr>"

theorem preview_quote_succeeds_iff_witness:
  "\<exists>q. preview_quote (sample_env member_id 0) sample_db (sample_quote_command None) = Inr q"
proof -
  have "pq_room_lines (sample_quote_command None) \<noteq> []"
    "list_all (\<lambda>l. room_exists_by_id sample_db (ql_facility_id l) \<and> 0 < ql_billed_hours l) (pq_room_lines (sample_quote_command None))"
    "resolve_booker_id (sample_env member_id 0) (pq_booker_id (sample_quote_command None)) = Inr steward_id"
    "list_ex (\<lambda>t. \<not> rt_is_deleted t \<and> rt_is_active t) (db_rate_templates sample_db)"
    "list_all (\<lambda>c. active_surcharge sample_db c \<noteq> None) (pq_surcharge_codes (sample_quote_command None))" by code_simp+
  then show ?thesis
    unfolding preview_quote_succeeds_iff list_all_iff list_ex_iff by blast
qed

theorem quote_free_iff_steward_of_active_ministry_witness:
  "\<exists>q. preview_quote (sample_env member_id 0) sample_db (sample_quote_command (Some priority_ministry_id)) = Inr q \<and>
     qt_is_free_ministry q \<and> qt_quoted_amount q = 0"
proof -
  let ?c = "sample_quote_command (Some priority_ministry_id)"
  have m: "ministry_get_status sample_db priority_ministry_id = Some MS_ACTIVE"
    "is_user_booking_member sample_db priority_ministry_id steward_id" by code_simp+
  have b: "resolve_booker_id (sample_env member_id 0) (pq_booker_id ?c) = Inr steward_id" by code_simp
  have i: "pq_ministry_id ?c = Some priority_ministry_id" by code_simp
  have "isr (preview_quote (sample_env member_id 0) sample_db ?c)" by code_simp
  then obtain q where q: "preview_quote (sample_env member_id 0) sample_db ?c = Inr q" by (auto simp: isr_eq)
  from quote_free_iff_steward_of_active_ministry [OF q b] m i q show ?thesis by blast
qed

text \<open>
  The amounts of a quote add up to the cent and no further: the quoted amount differs from subtotal
  minus discount plus surcharges, as shown, by at most one cent.
\<close>

lemma quote_adds_up_to_a_cent:
  assumes "preview_quote e s command = Inr q"
  shows "\<bar>qt_quoted_amount q - (qt_subtotal_amount q - qt_discount_amount q + qt_surcharge_amount q)\<bar> \<le> 1 / 100"
proof (cases "qt_is_free_ministry q")
  case True
  with assms have "q = free_ministry_quote command" by (auto simp: preview_quote_Inr Let_def split: if_splits)
  then show ?thesis by simp
next
  case False
  with assms obtain S D U where q: "qt_subtotal_amount q = quantize_half_up S" "qt_discount_amount q = quantize_half_up D"
      "qt_surcharge_amount q = quantize_half_up U"
      "qt_quoted_amount q = quantize_half_up (S - quantize_half_up D + U)"
    by (auto simp: preview_quote_Inr Let_def split: if_splits)
  let ?x = "qt_quoted_amount q" and ?y = "qt_subtotal_amount q - qt_discount_amount q + qt_surcharge_amount q"
  have "\<bar>?x - (S - quantize_half_up D + U)\<bar> \<le> 1 / 200" "\<bar>quantize_half_up S - S\<bar> \<le> 1 / 200"
    "\<bar>quantize_half_up U - U\<bar> \<le> 1 / 200"
    unfolding q by (rule quantize_half_up_close)+
  then have close: "\<bar>?x - ?y\<bar> < 2 / 100" unfolding q by (simp add: abs_if split: if_splits)
  obtain a b c d where abcd: "quantize_half_up S = of_int a / 100" "quantize_half_up D = of_int b / 100"
      "quantize_half_up U = of_int c / 100" "?x = of_int d / 100"
    unfolding q using quantize_half_up_cents by metis
  have "?y = of_int (a - b + c) / 100"
    unfolding q(1-3) abcd(1-3) by (simp add: add_divide_distrib diff_divide_distrib)
  with abcd(4) close show ?thesis by (intro cents_gap)
qed

text \<open>
  With a sane catalog -- no negative rate or surcharge, percentages between 0 and 100 -- subtotal,
  discount and surcharges are not negative, the discount never exceeds the subtotal, and the quoted
  amount never falls more than one cent below zero.
\<close>

lemma quote_bounds:
  assumes "preview_quote e s command = Inr q"
    and "\<forall>t\<in>set (db_rate_templates s). 0 \<le> rt_unit_amount t"
    and "\<forall>u\<in>set (db_surcharges s). 0 \<le> su_unit_amount u"
    and "\<forall>r\<in>set (db_discount_rules s). 0 \<le> dr_percent_off r \<and> dr_percent_off r \<le> 100"
  shows "0 \<le> qt_discount_amount q \<and> qt_discount_amount q \<le> qt_subtotal_amount q \<and>
    0 \<le> qt_surcharge_amount q \<and> - (1 / 100) \<le> qt_quoted_amount q"
proof (cases "qt_is_free_ministry q")
  case True
  with assms have "q = free_ministry_quote command" by (auto simp: preview_quote_Inr Let_def split: if_splits)
  then show ?thesis by simp
next
  case False
  with assms(1) obtain el lines U where
      hrs: "\<forall>l\<in>set (pq_room_lines command). 0 < ql_billed_hours l"
    and el: "evaluate_eligibility e s \<lparr>ec_booking_type = pq_booking_type command,
        ec_ministry_id = pq_ministry_id command, ec_booker_id = pq_booker_id command\<rparr> = Inr el"
    and lines: "mapE (quote_line s (pq_as_of_date command)) (pq_room_lines command) = Inr lines"
    and U: "compute_surcharges s command = Inr U"
    and q: "qt_subtotal_amount q = quantize_half_up (sum_list (map snd lines))"
      "qt_discount_amount q = quantize_half_up (sum_list (map snd lines) * el_discount_percent el / 100)"
      "qt_surcharge_amount q = quantize_half_up U"
      "qt_quoted_amount q = quantize_half_up (sum_list (map snd lines) -
         quantize_half_up (sum_list (map snd lines) * el_discount_percent el / 100) + U)"
    by (auto simp: preview_quote_Inr Let_def split: if_splits)
  let ?S = "sum_list (map snd lines)" and ?p = "el_discount_percent el"
  have p: "0 \<le> ?p" "?p \<le> 100" using evaluate_eligibility_percent [OF el] assms(4) by auto
  have "0 \<le> snd r" if "r \<in> set lines" for r
  proof -
    from that obtain i where i: "i < length lines" "r = lines ! i" by (auto simp: in_set_conv_nth)
    have len: "length lines = length (pq_room_lines command)" using mapE_length [OF lines] .
    have "quote_line s (pq_as_of_date command) (pq_room_lines command ! i) = Inr r"
      using mapE_nth [OF lines] i len by simp
    then show ?thesis by (rule quote_line_nonneg) (use hrs assms(2) i len in auto)
  qed
  then have S: "0 \<le> ?S" by (rule sum_list_nonneg_map)
  have U0: "0 \<le> U" by (rule compute_surcharges_nonneg [OF U hrs assms(3)])
  have le: "?S * ?p / 100 \<le> ?S" using mult_left_mono [OF p(2) S] by simp
  have "- (1 / 200) \<le> ?S - quantize_half_up (?S * ?p / 100) + U"
    using quantize_half_up_close [of "?S * ?p / 100", unfolded abs_le_iff] le U0 by linarith
  then have "quantize_half_up (- (1 / 200)) \<le> qt_quoted_amount q" unfolding q by (rule quantize_half_up_mono)
  moreover have "quantize_half_up (- (1 / 200)) = - (1 / 100)" by (simp add: quantize_half_up_def)
  ultimately show ?thesis
    using S p U0 le by (simp add: q quantize_half_up_nonneg quantize_half_up_mono)
qed

definition sample_recurring_quote :: preview_quote_command where
  "sample_recurring_quote = (sample_quote_command None)\<lparr>pq_booking_type := BT_RECURRING, pq_surcharge_codes := []\<rparr>"

section \<open>Two rounding surprises\<close>

text \<open>
  The one cent of both statements is attained. Half an hour at 10.01 an hour with a surcharge of 10.01
  an hour shows 5.01 plus 5.01 and quotes 10.01; and with a discount of 100 percent, which the catalog
  accepts, half an hour at 10.01 is quoted at minus one cent.
\<close>

lemma quote_off_by_a_cent:
  "inr_sat (preview_quote (sample_env member_id 0) sample_db (sample_quote_command None))
     (\<lambda>q. qt_quoted_amount q = 1001 / 100 \<and>
          qt_subtotal_amount q - qt_discount_amount q + qt_surcharge_amount q = 1002 / 100)"
  by code_simp

lemma full_discount_quotes_below_zero:
  "inr_sat (preview_quote (sample_env member_id 0)
       (sample_db\<lparr>db_discount_rules := [\<lparr>dr_id = 50, dr_code = ''recurring_weekly_monthly'', dr_percent_off = 100, dr_description = None,
                    dr_is_active = True, dr_is_deleted = False\<rparr>]\<rparr>) sample_recurring_quote)
     (\<lambda>q. qt_quoted_amount q = - (1 / 100))"
  by code_simp

end
