(* ===== verification/Participant.thy ===== *)
theory Participant imports Review_Token Booking_Store begin

text \<open>
  What a participant sees: who may see a Booking, its timeline, the actions its booker has
  (\<open>domain/facility/participant_detail.py\<close>), the detail (\<open>application/facility/participant_detail.py\<close>) and
  the cards of My Bookings (\<open>my_bookings.py\<close>). Photo links, which the file service signs, are left out.
\<close>

section \<open>Authorization, timeline and actions\<close>

definition is_current_booking_participant :: "uuid \<Rightarrow> uuid \<Rightarrow> uuid option \<Rightarrow> uuid list \<Rightarrow> bool" where
  "is_current_booking_participant viewer_id booker_id ministry_id owned_ministry_ids =
     (if viewer_id = booker_id then True
      else (case ministry_id of None \<Rightarrow> False | Some i \<Rightarrow> i \<in> set owned_ministry_ids))"

record lifecycle_event =
  lc_kind :: lifecycle_kind
  lc_occurred_at :: instant
  lc_reason :: "string option"

definition build_booking_lifecycle_timeline ::
  "booking_status \<Rightarrow> instant option \<Rightarrow> instant option \<Rightarrow> string option \<Rightarrow> lifecycle_event list" where
  "build_booking_lifecycle_timeline status created_at cancelled_at cancel_reason =
     (let events = (case created_at of None \<Rightarrow> []
                    | Some c \<Rightarrow> [\<lparr>lc_kind = LE_CREATED, lc_occurred_at = c, lc_reason = None\<rparr>])
      in case cancelled_at of
           None \<Rightarrow> events
         | Some x \<Rightarrow>
             if status = BS_OVERRIDDEN
             then events @ [\<lparr>lc_kind = LE_OVERRIDDEN, lc_occurred_at = x, lc_reason = None\<rparr>]
             else if status \<noteq> BS_CANCELLED then events
             else if cancel_reason = Some PENDING_PAYMENT_HOLD_EXPIRED_REASON
             then events @ [\<lparr>lc_kind = LE_PAYMENT_EXPIRED, lc_occurred_at = x, lc_reason = Some PENDING_PAYMENT_HOLD_EXPIRED_REASON\<rparr>]
             else events @ [\<lparr>lc_kind = LE_CANCELLED, lc_occurred_at = x, lc_reason = cancel_reason\<rparr>])"

record action_eligibility =
  ae_can_edit_title :: bool
  ae_can_cancel :: bool
  ae_can_view_payment_instructions :: bool
  ae_can_book_again :: bool
  ae_book_again_date :: "date option"

definition NO_ACTIONS :: action_eligibility where
  "NO_ACTIONS = \<lparr>ae_can_edit_title = False, ae_can_cancel = False, ae_can_view_payment_instructions = False,
     ae_can_book_again = False, ae_book_again_date = None\<rparr>"

definition booker_action_eligibility ::
  "bool \<Rightarrow> booking_status \<Rightarrow> instant \<Rightarrow> instant option \<Rightarrow> instant \<Rightarrow> zone \<Rightarrow> bool \<Rightarrow> action_eligibility" where
  "booker_action_eligibility is_booker status start_at payment_hold_expires_at now facility_tz series_level =
     (if \<not> is_booker then NO_ACTIONS
      else (let hold_active = is_pending_payment_hold_active payment_hold_expires_at now;
                pending_expired = (status = BS_PENDING_PAYMENT \<and> \<not> hold_active);
                local_start = to_local facility_tz start_at;
                local_now = to_local facility_tz now;
                is_future = local_start > local_now;
                can_book_again = (\<not> series_level \<and> status = BS_OVERRIDDEN \<and> is_future)
            in \<lparr>ae_can_edit_title = True,
                ae_can_cancel = (\<not> pending_expired \<and> status \<in> {BS_CONFIRMED, BS_PENDING_PAYMENT} \<and> is_future),
                ae_can_view_payment_instructions = (status = BS_PENDING_PAYMENT \<and> hold_active),
                ae_can_book_again = can_book_again,
                ae_book_again_date = (if can_book_again then Some (wall_date local_start) else None)\<rparr>))"

section \<open>The participant's detail\<close>

record participant_detail =
  pd_row :: booking_detail
  pd_payment_hold_expires_at :: "instant option"
  pd_is_booker :: bool
  pd_is_view_only :: bool
  pd_timeline :: "lifecycle_event list"
  pd_actions :: action_eligibility

definition assemble_participant_booking_detail ::
  "booking_detail \<Rightarrow> uuid \<Rightarrow> instant \<Rightarrow> zone \<Rightarrow> bool \<Rightarrow> participant_detail" where
  "assemble_participant_booking_detail row viewer_id now facility_tz series_level =
     (let b = dt_row row;
          is_booker = (bk_user_id b = viewer_id);
          eligibility = booker_action_eligibility is_booker (bk_status b) (bk_start_at b) (dt_payment_hold_expires_at row)
                          now facility_tz series_level
      in \<lparr>pd_row = row,
          pd_payment_hold_expires_at =
            (if ae_can_view_payment_instructions eligibility then dt_payment_hold_expires_at row else None),
          pd_is_booker = is_booker, pd_is_view_only = (\<not> is_booker),
          pd_timeline = build_booking_lifecycle_timeline (bk_status b) (Some (bk_created_at b)) (bk_cancelled_at b) (bk_cancel_reason b),
          pd_actions = eligibility\<rparr>)"

section \<open>The cards of My Bookings\<close>

text \<open>A browse row is the Booking with its series' title and hold (\<open>_browse_query\<close>).\<close>

record browse_row =
  br_booking :: booking
  br_series_title :: "string option"
  br_payment_hold_expires_at :: "instant option"

definition browse_row_of :: "db \<Rightarrow> booking \<Rightarrow> browse_row" where
  "browse_row_of s b =
     \<lparr>br_booking = b,
      br_series_title = (case bk_series_id b of None \<Rightarrow> None | Some i \<Rightarrow> map_option se_title (find_series s i)),
      br_payment_hold_expires_at = joined_hold s b\<rparr>"

record card =
  cd_kind :: card_kind
  cd_is_booker :: bool
  cd_is_view_only :: bool
  cd_booking :: "browse_row option"
  cd_series_id :: "uuid option"
  cd_series_title :: "string option"
  cd_occurrences :: "browse_row list"

definition one_time_card :: "uuid \<Rightarrow> browse_row \<Rightarrow> card" where
  "one_time_card user_id row =
     (let is_booker = (bk_user_id (br_booking row) = user_id)
      in \<lparr>cd_kind = CK_ONE_TIME, cd_is_booker = is_booker, cd_is_view_only = (\<not> is_booker), cd_booking = Some row,
          cd_series_id = None, cd_series_title = None, cd_occurrences = []\<rparr>)"

definition series_card :: "uuid \<Rightarrow> uuid \<times> browse_row list \<Rightarrow> card" where
  "series_card user_id series_rows =
     (let ordered = sort_key (\<lambda>r. (bk_start_at (br_booking r), bk_id (br_booking r))) (snd series_rows);
          is_booker = (bk_user_id (br_booking (hd ordered)) = user_id)
      in \<lparr>cd_kind = CK_SERIES, cd_is_booker = is_booker, cd_is_view_only = (\<not> is_booker), cd_booking = None,
          cd_series_id = Some (fst series_rows), cd_series_title = br_series_title (hd ordered), cd_occurrences = ordered\<rparr>)"

definition card_start_times :: "card \<Rightarrow> instant list" where
  "card_start_times c =
     (if cd_kind c = CK_SERIES then map (\<lambda>r. bk_start_at (br_booking r)) (cd_occurrences c)
      else (case cd_booking c of Some r \<Rightarrow> [bk_start_at (br_booking r)] | None \<Rightarrow> []))"

text \<open>\<open>(min(times), str(card_id))\<close>, or \<open>(-max(times).timestamp(), str(card_id))\<close>; the times are not empty.\<close>

definition card_sort_key :: "my_bookings_section \<Rightarrow> card \<Rightarrow> instant \<times> string" where
  "card_sort_key section c =
     (let times = card_start_times c;
          card_id = (case cd_booking c of Some r \<Rightarrow> bk_id (br_booking r) | None \<Rightarrow> the (cd_series_id c))
      in if section = MB_UPCOMING then (fold min (tl times) (hd times), str_uuid card_id)
         else (- fold max (tl times) (hd times), str_uuid card_id))"

definition section_of_row :: "instant \<Rightarrow> zone \<Rightarrow> browse_row \<Rightarrow> my_bookings_section option" where
  "section_of_row now facility_tz r =
     classify_my_bookings_section (bk_status (br_booking r)) (bk_end_at (br_booking r)) (br_payment_hold_expires_at r) now facility_tz"

definition in_series :: "browse_row \<Rightarrow> bool" where
  "in_series r \<longleftrightarrow> bk_booking_type (br_booking r) = BT_RECURRING \<and> bk_series_id (br_booking r) \<noteq> None"

text \<open>\<open>series_occurrences.setdefault(row.series_id, []).append(row)\<close>\<close>

definition group_step :: "(uuid \<times> browse_row list) list \<Rightarrow> browse_row \<Rightarrow> (uuid \<times> browse_row list) list" where
  "group_step d r =
     (let i = the (bk_series_id (br_booking r));
          existing = (case map_of d i of None \<Rightarrow> [] | Some rs \<Rightarrow> rs)
      in dict_set d i (existing @ [r]))"

definition group_series :: "browse_row list \<Rightarrow> (uuid \<times> browse_row list) list" where
  "group_series rows = foldl group_step [] rows"

definition project_my_bookings_cards ::
  "browse_row list \<Rightarrow> my_bookings_section \<Rightarrow> uuid \<Rightarrow> instant \<Rightarrow> zone \<Rightarrow> card list" where
  "project_my_bookings_cards rows section user_id now facility_tz =
     (let matching = filter (\<lambda>r. section_of_row now facility_tz r = Some section) rows;
          ungrouped = filter (\<lambda>r. \<not> in_series r) matching;
          cards = map (one_time_card user_id) ungrouped @ map (series_card user_id) (group_series (filter in_series matching))
      in sort_key (card_sort_key section) cards)"

definition paginate_my_bookings_cards :: "card list \<Rightarrow> nat \<Rightarrow> nat \<Rightarrow> card list \<times> nat" where
  "paginate_my_bookings_cards cards page page_size =
     (let start = page * page_size in (take page_size (drop start cards), length cards))"

definition card_primary_facility_id :: "card \<Rightarrow> uuid option" where
  "card_primary_facility_id c =
     (if cd_kind c = CK_SERIES \<and> cd_occurrences c \<noteq> [] then bk_facility_id (br_booking (hd (cd_occurrences c)))
      else (case cd_booking c of Some r \<Rightarrow> bk_facility_id (br_booking r) | None \<Rightarrow> None))"

section \<open>Lemmas\<close>

text \<open>The rows a card stands for.\<close>

definition card_rows :: "card \<Rightarrow> browse_row list" where
  "card_rows c = (case cd_booking c of Some r \<Rightarrow> [r] | None \<Rightarrow> cd_occurrences c)"

lemma mset_concat_cong: "(\<And>x. x \<in> set xs \<Longrightarrow> mset (f x) = mset (g x)) \<Longrightarrow> mset (concat (map f xs)) = mset (concat (map g xs))"
  by (induction xs) simp_all

lemma mset_dict_set:
  assumes "distinct (map fst d)"
  shows "mset (concat (map snd (dict_set d i ((case map_of d i of None \<Rightarrow> [] | Some rs \<Rightarrow> rs) @ [r])))) =
    mset (concat (map snd d)) + {#r#}"
  using assms
proof (induction d)
  case Nil
  then show ?case by simp
next
  case (Cons kv d)
  then show ?case by (cases kv) (auto simp: map_of_eq_None_iff split: option.splits)
qed

lemma group_series_step:
  assumes "distinct (map fst d)"
  shows "mset (concat (map snd (foldl group_step d rows))) = mset (concat (map snd d)) + mset rows \<and>
    distinct (map fst (foldl group_step d rows))"
  using assms
proof (induction rows arbitrary: d)
  case Nil
  then show ?case by simp
next
  case (Cons r rows)
  have "distinct (map fst (group_step d r))"
    unfolding group_step_def Let_def by (rule distinct_keys_dict_set) (rule Cons.prems)
  from Cons.IH [OF this] mset_dict_set [OF Cons.prems, of "the (bk_series_id (br_booking r))" r]
  show ?case by (simp add: group_step_def Let_def)
qed

lemma group_series_mset:
  "mset (concat (map snd (group_series rows))) = mset rows" "distinct (map fst (group_series rows))"
  using group_series_step [of "[]" rows] by (simp_all add: group_series_def)

definition keyed :: "(uuid \<times> browse_row list) list \<Rightarrow> bool" where
  "keyed d \<longleftrightarrow> (\<forall>g \<in> set d. snd g \<noteq> [] \<and> (\<forall>r \<in> set (snd g). bk_series_id (br_booking r) = Some (fst g)))"

lemma keyed_dict_set:
  "keyed d \<Longrightarrow> rs \<noteq> [] \<Longrightarrow> (\<And>r. r \<in> set rs \<Longrightarrow> bk_series_id (br_booking r) = Some i) \<Longrightarrow> keyed (dict_set d i rs)"
  by (induction d i rs rule: dict_set.induct) (auto simp: keyed_def)

lemma keyed_map_of: "keyed d \<Longrightarrow> map_of d i = Some rs \<Longrightarrow> r \<in> set rs \<Longrightarrow> bk_series_id (br_booking r) = Some i"
  by (auto simp: keyed_def dest: map_of_SomeD)

lemma group_series_keyed:
  assumes "\<forall>r \<in> set rows. bk_series_id (br_booking r) \<noteq> None"
  shows "keyed (group_series rows)"
proof -
  have step: "keyed (group_step d r)" if d: "keyed d" and i: "bk_series_id (br_booking r) = Some i" for d r i
  proof -
    define rs where "rs = (case map_of d i of None \<Rightarrow> [] | Some rs \<Rightarrow> rs) @ [r]"
    have own: "bk_series_id (br_booking r') = Some i" if "r' \<in> set rs" for r'
      using that i keyed_map_of [OF d, of i _ r'] by (cases "map_of d i") (auto simp: rs_def)
    have "rs \<noteq> []" by (simp add: rs_def)
    then have "keyed (dict_set d i rs)" by (rule keyed_dict_set [OF d]) (rule own)
    then show ?thesis by (simp add: group_step_def i rs_def)
  qed
  have "keyed (foldl group_step d rows)" if "keyed d" for d
    using that assms by (induction rows arbitrary: d) (auto intro: step)
  from this [of "[]"] show ?thesis by (simp add: group_series_def keyed_def)
qed

lemma card_rows_simps [simp]:
  "card_rows (one_time_card u r) = [r]"
  "mset (card_rows (series_card u g)) = mset (snd g)"
  by (simp_all add: card_rows_def one_time_card_def series_card_def Let_def)

lemma mset_card_rows:
  "mset (concat (map card_rows (map (one_time_card u) rs))) = mset rs"
  "mset (concat (map card_rows (map (series_card u) gs))) = mset (concat (map snd gs))"
proof -
  show "mset (concat (map card_rows (map (one_time_card u) rs))) = mset rs" by (induction rs) simp_all
  show "mset (concat (map card_rows (map (series_card u) gs))) = mset (concat (map snd gs))" by (induction gs) simp_all
qed

lemma mset_concat_sort: "mset (concat (map f (sort_key k cs))) = mset (concat (map f cs))"
proof -
  have "mset (concat (map f xs)) = sum_mset (image_mset (mset \<circ> f) (mset xs))" for xs by (induction xs) simp_all
  then show ?thesis by simp
qed

lemma take_drop_pages:
  "0 < n \<Longrightarrow> concat (map (\<lambda>p. take n (drop (p * n) xs)) [0..<m]) = take (m * n) xs"
proof (induction m)
  case (Suc m)
  have "take (m * n) xs @ take n (drop (m * n) xs) = take (m * n + n) xs" by (simp add: take_add)
  with Suc show ?case by (simp add: add.commute)
qed simp

section \<open>Properties\<close>

text \<open>
  My Bookings shows everything once: the cards of a section stand for exactly the Bookings classified in it, each
  as often as it was listed; a Series has one card, which holds only its own occurrences; the cards are in the section's
  order.\<close>

lemma cards_partition_the_section:
  "(let cards = project_my_bookings_cards rows section user_id now tz in
    mset (concat (map card_rows cards)) = mset (filter (\<lambda>r. section_of_row now tz r = Some section) rows) \<and>
    distinct (filter (\<lambda>i. i \<noteq> None) (map cd_series_id cards)) \<and>
    (\<forall>c \<in> set cards. \<forall>i. cd_series_id c = Some i \<longrightarrow> (\<forall>r \<in> set (card_rows c). bk_series_id (br_booking r) = Some i)) \<and>
    sorted (map (card_sort_key section) cards))"
proof -
  define matching where "matching = filter (\<lambda>r. section_of_row now tz r = Some section) rows"
  define groups where "groups = group_series (filter in_series matching)"
  define solo where "solo = map (one_time_card user_id) (filter (\<lambda>r. \<not> in_series r) matching)"
  define multi where "multi = map (series_card user_id) groups"
  have cards: "project_my_bookings_cards rows section user_id now tz = sort_key (card_sort_key section) (solo @ multi)"
    by (simp add: project_my_bookings_cards_def Let_def solo_def multi_def groups_def matching_def)
  have "mset (concat (map card_rows (solo @ multi))) = mset (filter (\<lambda>r. \<not> in_series r) matching) + mset (filter in_series matching)"
    by (simp only: map_append concat_append mset_append solo_def multi_def groups_def mset_card_rows group_series_mset)
  then have m: "mset (concat (map card_rows (solo @ multi))) = mset matching"
    by (metis mset_filter multiset_partition add.commute)
  have none: "filter (\<lambda>i. i \<noteq> None) (map cd_series_id solo) = []"
    by (simp add: solo_def one_time_card_def Let_def filter_empty_conv)
  have ids: "filter (\<lambda>i. i \<noteq> None) (map cd_series_id multi) = map Some (map fst groups)"
    by (simp add: multi_def series_card_def Let_def filter_map comp_def)
  have "distinct (map Some (map fst groups))"
    unfolding distinct_map [of Some] using group_series_mset(2) [of "filter in_series matching"] by (simp add: groups_def)
  then have "distinct (filter (\<lambda>i. i \<noteq> None) (map cd_series_id (solo @ multi)))"
    by (simp only: map_append filter_append none ids append_Nil)
  moreover have "mset (filter (\<lambda>i. i \<noteq> None) (map cd_series_id (sort_key (card_sort_key section) (solo @ multi)))) =
      mset (filter (\<lambda>i. i \<noteq> None) (map cd_series_id (solo @ multi)))"
    by (simp only: mset_filter mset_map mset_sort)
  ultimately have d: "distinct (filter (\<lambda>i. i \<noteq> None) (map cd_series_id (sort_key (card_sort_key section) (solo @ multi))))"
    using mset_eq_imp_distinct_iff by blast
  have k: "keyed groups" unfolding groups_def by (rule group_series_keyed) (simp add: in_series_def)
  have own: "bk_series_id (br_booking r) = Some i"
    if c: "c \<in> set (solo @ multi)" "cd_series_id c = Some i" "r \<in> set (card_rows c)" for c i r
  proof -
    from c obtain g where g: "g \<in> set groups" "c = series_card user_id g"
      by (auto simp: solo_def multi_def one_time_card_def Let_def)
    have "set (card_rows c) = set (snd g)" using g(2) card_rows_simps(2) mset_eq_setD by metis
    moreover have "i = fst g" using c(2) g(2) by (simp add: series_card_def Let_def)
    ultimately show ?thesis using k g(1) c(3) by (simp add: keyed_def)
  qed
  show ?thesis
    unfolding Let_def cards using m d own by (simp add: mset_concat_sort matching_def)
qed

definition sample_row :: "uuid \<Rightarrow> uuid option \<Rightarrow> instant \<Rightarrow> browse_row" where
  "sample_row i series_id a =
     \<lparr>br_booking = \<lparr>bk_id = i, bk_user_id = member_id, bk_title = ''Choir'', bk_series_id = series_id, bk_facility_id = Some hall_id,
        bk_ministry_id = None, bk_booking_type = (if series_id = None then BT_ONE_TIME else BT_RECURRING), bk_start_at = a,
        bk_end_at = a + HOUR_US, bk_status = BS_CONFIRMED, bk_is_mission_aligned = False, bk_billed_hours = None,
        bk_subtotal_amount = None, bk_discount_percent = None, bk_discount_amount = None, bk_surcharge_amount = None,
        bk_quoted_amount = None, bk_currency = None, bk_cancelled_at = None, bk_cancelled_by_id = None,
        bk_cancel_reason = None, bk_remark = None, bk_created_at = 0, bk_is_deleted = False\<rparr>,
      br_series_title = None, br_payment_hold_expires_at = None\<rparr>"

text \<open>One booking and two occurrences of Series 7: two cards.\<close>

definition sample_rows :: "browse_row list" where
  "sample_rows = [sample_row 1 (Some 7) (moment 2026 6 1 10 0), sample_row 2 None (moment 2026 6 2 10 0),
                  sample_row 3 (Some 7) (moment 2026 6 8 10 0)]"

text \<open>
  Pages of My Bookings neither overlap nor lose a card: the first \<open>m\<close> pages put together are the first
  \<open>m * page_size\<close> cards, and every page reports the same total.\<close>

lemma pages_concatenate:
  assumes "0 < page_size"
  shows "concat (map (\<lambda>p. fst (paginate_my_bookings_cards cards p page_size)) [0..<m]) = take (m * page_size) cards \<and>
    snd (paginate_my_bookings_cards cards p page_size) = length cards"
  using take_drop_pages [OF assms] by (simp add: paginate_my_bookings_cards_def Let_def)


definition sample_detail :: booking_detail where
  "sample_detail =
     \<lparr>dt_row = \<lparr>bk_id = 41, bk_user_id = member_id, bk_title = ''Choir'', bk_series_id = None, bk_facility_id = Some hall_id,
        bk_ministry_id = None, bk_booking_type = BT_ONE_TIME, bk_start_at = moment 2026 6 1 14 0, bk_end_at = moment 2026 6 1 16 0,
        bk_status = BS_CONFIRMED, bk_is_mission_aligned = False, bk_billed_hours = None, bk_subtotal_amount = None,
        bk_discount_percent = None, bk_discount_amount = None, bk_surcharge_amount = None, bk_quoted_amount = None,
        bk_currency = None, bk_cancelled_at = None, bk_cancelled_by_id = None, bk_cancel_reason = None, bk_remark = None,
        bk_created_at = 0, bk_is_deleted = False\<rparr>,
      dt_user_email = ''ann@efcnewlife.org'', dt_user_display_name = None, dt_ministry_name = None,
      dt_payment_hold_expires_at = None, dt_rooms = [], dt_slots = []\<rparr>"


end
