(* ===== verification/Booking_Service.thy ===== *)
theory Booking_Service imports One_Time_Override Room_Hours Pricing Participant begin

text \<open>
  The one-time booking service (\<open>booking_service.py\<close>): range and detail reads, admin cancellation and
  update, creation with its conflict check, displacement and draft clean-up, and the member's browse, detail,
  title, cancellation and quote. A handler maps a request and the tables to an error, which rolls back, or to
  a result and the new tables.
\<close>

section \<open>Writing a Booking\<close>

definition new_room_row :: "uuid \<Rightarrow> uuid \<Rightarrow> resolved_line \<Rightarrow> quote_line_result \<Rightarrow> room_line" where
  "new_room_row i booking_id line quoted_line =
     \<lparr>rl_id = i, rl_booking_id = booking_id, rl_facility_id = ln_facility_id line, rl_sequence = ln_sequence line,
      rl_start_at = ln_start_at line, rl_end_at = ln_end_at line, rl_billed_hours = Some (qr_billed_hours quoted_line),
      rl_rental_rate_name = qr_rental_rate_name quoted_line, rl_billing_unit = qr_billing_unit quoted_line,
      rl_unit_amount = qr_unit_amount quoted_line, rl_currency = Some (qr_currency quoted_line),
      rl_applicability = qr_applicability quoted_line, rl_is_default = Some (qr_is_default quoted_line),
      rl_line_subtotal = Some (qr_line_subtotal quoted_line)\<rparr>"

definition new_slot_row :: "uuid \<Rightarrow> uuid \<Rightarrow> resolved_line \<Rightarrow> slot" where
  "new_slot_row i booking_id line =
     \<lparr>sl_id = i, sl_booking_id = booking_id, sl_facility_id = ln_facility_id line, sl_start_at = ln_start_at line,
      sl_end_at = ln_end_at line, sl_status = SS_CONFIRMED\<rparr>"

text \<open>The loop over the lines; each row draws its own id. A quote has one line per proposal line.\<close>

definition new_rows :: "uuid \<Rightarrow> room_line list \<times> slot list \<times> db \<Rightarrow> resolved_line \<times> quote_line_result \<Rightarrow> room_line list \<times> slot list \<times> db" where
  "new_rows booking_id acc line_quote =
     (case acc of (room_rows, slot_rows, s) \<Rightarrow>
      case line_quote of (line, quoted_line) \<Rightarrow>
      case fresh_uuid s of (i, s1) \<Rightarrow>
      case fresh_uuid s1 of (j, s2) \<Rightarrow>
        (room_rows @ [new_room_row i booking_id line quoted_line], slot_rows @ [new_slot_row j booking_id line], s2))"

definition insert_with_rows :: "booking \<Rightarrow> resolved_line list \<Rightarrow> quote_result \<Rightarrow> db \<Rightarrow> exn + db" where
  "insert_with_rows b resolved_lines quote s =
     bindE (insert_booking b s) (\<lambda>s1.
       case foldl (new_rows (bk_id b)) ([], [], s1) (zip resolved_lines (qt_room_lines quote)) of (room_rows, slot_rows, s2) \<Rightarrow>
       bindE (replace_booking_rooms (bk_id b) room_rows s2) (replace_booking_slots (bk_id b) slot_rows))"

section \<open>Guards\<close>

definition validate_ministry_booking_gate :: "env \<Rightarrow> db \<Rightarrow> uuid option \<Rightarrow> uuid option \<Rightarrow> exn + unit" where
  "validate_ministry_booking_gate e s ministry_id booker_id =
     (case ministry_id of
        None \<Rightarrow> Inr ()
      | Some i \<Rightarrow>
          raise_if (ministry_get_status s i \<noteq> Some MS_ACTIVE)
            (raise_exn BadRequest (Some (FCode BOOKING_MINISTRY_INACTIVE)) (CtxId i))
            (case (case booker_id of Some b \<Rightarrow> Some b | None \<Rightarrow> en_user_id e) of
               None \<Rightarrow> Inl forbidden
             | Some user_id \<Rightarrow> raise_if (\<not> is_user_booking_member s i user_id) forbidden (Inr ())))"

definition raise_if_too_many_booking_lines :: "env \<Rightarrow> room_line_command list \<Rightarrow> exn + unit" where
  "raise_if_too_many_booking_lines e rooms =
     raise_if (int (length rooms) > set_max_booking_lines (en_settings e)) (bad_request BOOKING_MAX_ROOMS) (Inr ())"

definition scheduling_conflict :: "booking_conflict list \<Rightarrow> exn" where
  "scheduling_conflict conflicts =
     raise_exn Conflict (Some (BCode SCHEDULING_CONFLICT)) (CtxConflicts (bc_facility_id (hd conflicts)) conflicts)"

definition raise_if_room_closed :: "db \<Rightarrow> uuid \<Rightarrow> instant \<Rightarrow> instant \<Rightarrow> zone \<Rightarrow> bool \<Rightarrow> exn + unit" where
  "raise_if_room_closed s facility_id start_at end_at local_tz enforce_opening_hours =
     raise_if (has_blackout_overlap s facility_id start_at end_at local_tz)
       (raise_exn BadRequest (Some (BCode ROOM_BLACKOUT)) (CtxId facility_id))
       (if enforce_opening_hours
        then (let day = wall_date (to_local local_tz start_at);
                  templates = list_active_for_day s facility_id (weekday day)
              in raise_if_outside_opening_hours facility_id start_at end_at templates local_tz)
        else Inr ())"

definition quote_line_of :: "resolved_line \<Rightarrow> quote_line_command" where
  "quote_line_of line = \<lparr>ql_facility_id = ln_facility_id line, ql_billed_hours = billed_hours (ln_start_at line) (ln_end_at line)\<rparr>"

section \<open>Creation\<close>

definition booker_of :: "uuid option \<Rightarrow> uuid \<Rightarrow> uuid" where
  "booker_of user_id operator_id = (case user_id of None \<Rightarrow> operator_id | Some u \<Rightarrow> u)"

definition draft_title :: "draft_row option \<Rightarrow> uuid \<Rightarrow> string option \<Rightarrow> string option" where
  "draft_title draft booker_id title =
     (case draft of None \<Rightarrow> title
      | Some d \<Rightarrow> if df_user_id d = booker_id \<and> df_title d \<noteq> [] then Some (df_title d) else title)"

definition new_booking ::
  "env \<Rightarrow> create_booking_command \<Rightarrow> uuid \<Rightarrow> string \<Rightarrow> resolved_line list \<Rightarrow> quote_result \<Rightarrow> uuid \<Rightarrow> booking" where
  "new_booking e command booker_id title resolved_lines quote booking_id =
     \<lparr>bk_id = booking_id, bk_user_id = booker_id, bk_title = title, bk_series_id = None,
      bk_facility_id = Some (primary_facility_id resolved_lines), bk_ministry_id = cb_ministry_id command,
      bk_booking_type = BT_ONE_TIME, bk_start_at = fst (envelope_interval resolved_lines),
      bk_end_at = snd (envelope_interval resolved_lines), bk_status = BS_CONFIRMED,
      bk_is_mission_aligned = qt_is_free_ministry quote,
      bk_billed_hours = Some (sum_list (map qr_billed_hours (qt_room_lines quote))),
      bk_subtotal_amount = Some (qt_subtotal_amount quote), bk_discount_percent = Some (qt_discount_percent quote),
      bk_discount_amount = Some (qt_discount_amount quote), bk_surcharge_amount = Some (qt_surcharge_amount quote),
      bk_quoted_amount = Some (qt_quoted_amount quote), bk_currency = Some (qt_currency quote),
      bk_cancelled_at = None, bk_cancelled_by_id = None, bk_cancel_reason = None, bk_remark = cb_remark command,
      bk_created_at = en_sql_now e, bk_is_deleted = False\<rparr>"

definition displace_targets ::
  "evaluation \<Rightarrow> ministry_context option \<Rightarrow> uuid \<Rightarrow> uuid \<Rightarrow> env \<Rightarrow> db \<Rightarrow> db" where
  "displace_targets evaluation context booking_id operator_id e s =
     (case context of
        None \<Rightarrow> s
      | Some c \<Rightarrow>
          if ev_targets evaluation = [] then s
          else (case apply_whole_booking_overrides (map (Pair booking_id) (ev_targets evaluation)) operator_id e s of
                  (items, s') \<Rightarrow>
                    notify_displaced_bookers_after_commit items (mc_ministry_id c) (mc_name_en c) (mc_name_zh c) operator_id None s'))"

definition delete_own_draft :: "create_booking_command \<Rightarrow> draft_row option \<Rightarrow> uuid \<Rightarrow> db \<Rightarrow> db" where
  "delete_own_draft command draft booker_id s =
     (case (cb_booking_draft_id command, draft) of
        (Some i, Some d) \<Rightarrow> if df_user_id d = booker_id then draft_delete s i else s
      | _ \<Rightarrow> s)"

definition create_booking :: "crypto \<Rightarrow> string \<Rightarrow> create_booking_command \<Rightarrow> uuid handler" where
  "create_booking c review_secret command e s =
     raise_if (cb_rooms command = []) (bad_request BOOKING_ROOMS_REQUIRED)
     (case en_user_id e of
        None \<Rightarrow> Inl forbidden
      | Some operator_id \<Rightarrow>
          (let booker_id = booker_of (cb_user_id command) operator_id;
               ministry_id = cb_ministry_id command
           in bindE (validate_ministry_booking_gate e s ministry_id (Some booker_id)) (\<lambda>_.
           let draft = (case cb_booking_draft_id command of None \<Rightarrow> None | Some i \<Rightarrow> draft_get_detail s i);
               title = draft_title draft booker_id (cb_title command)
           in raise_if (\<not> truthy title) (bad_request BOOKING_TITLE_INVALID)
             (bindE (raise_if_too_many_booking_lines e (cb_rooms command)) (\<lambda>_.
              let local_tz = set_facility_timezone (en_settings e);
                  resolved_lines = resolve_booking_lines (cb_rooms command) (cb_start_at command) (cb_end_at command)
              in bindE (validate_booking_lines resolved_lines local_tz) (\<lambda>_.
              let context = (case ministry_id of None \<Rightarrow> None | Some i \<Rightarrow> load_ministry_proposal_context s i booker_id);
                  evaluation = evaluate_one_time_occupancy e s resolved_lines context (en_now_utc e) local_tz
                    (cb_allow_priority_override command) (en_locale_id e)
              in raise_if (ev_conflicts evaluation \<noteq> []) (scheduling_conflict (ev_conflicts evaluation))
                (bindE (forE (\<lambda>line. raise_if_room_closed s (ln_facility_id line) (ln_start_at line) (ln_end_at line) local_tz
                    (cb_enforce_opening_hours command)) resolved_lines) (\<lambda>_.
                 bindE (require_reviewed_override c review_secret (cb_override_review_token command) booker_id ministry_id
                    (one_time_proposal resolved_lines) (ev_impacts evaluation)) (\<lambda>_.
                 bindE (preview_quote e s
                    \<lparr>pq_booking_type = BT_ONE_TIME, pq_currency = ''CAD'', pq_as_of_date = None,
                     pq_room_lines = map quote_line_of resolved_lines, pq_surcharge_codes = cb_surcharge_codes command,
                     pq_ministry_id = ministry_id, pq_booker_id = Some booker_id\<rparr>) (\<lambda>quote.
                 case fresh_uuid s of (booking_id, s0) \<Rightarrow>
                 bindE (insert_with_rows (new_booking e command booker_id (the title) resolved_lines quote booking_id)
                    resolved_lines quote s0) (\<lambda>s1.
                 let s2 = displace_targets evaluation context booking_id operator_id e s1
                 in Inr (booking_id, delete_own_draft command draft booker_id s2))))))))))))"

section \<open>Administration\<close>

definition get_booking_range :: "range_query_command \<Rightarrow> booking list handler" where
  "get_booking_range command e s =
     raise_if (rq_date_to command \<le> rq_date_from command) (bad_request BOOKING_INVALID_TIME_RANGE)
       (raise_if (rq_date_to command - rq_date_from command > BOOKING_RANGE_MAX_DAYS * DAY_US)
          (bad_request BOOKING_RANGE_WINDOW_TOO_LARGE) (Inr (fetch_range s command, s)))"

definition get_booking_by_id :: "uuid \<Rightarrow> booking_detail handler" where
  "get_booking_by_id booking_id e s =
     (case booking_get_detail s booking_id (en_locale_id e) of
        None \<Rightarrow> Inl (not_found BOOKING_NOT_FOUND (CtxId booking_id))
      | Some row \<Rightarrow> Inr (row, s))"

definition service_cancel_booking :: "uuid \<Rightarrow> cancel_booking_command \<Rightarrow> unit handler" where
  "service_cancel_booking booking_id command e s =
     raise_if (\<not> booking_exists_by_id s booking_id) (not_found BOOKING_NOT_FOUND (CtxId booking_id))
       (let cancel_slots = (xb_scope command \<noteq> ''series'')
        in Inr ((), cancel_booking (en_repo_now e) booking_id (en_user_id e) (xb_cancel_reason command) cancel_slots s))"

definition update_booking :: "uuid \<Rightarrow> update_booking_command \<Rightarrow> booking_detail handler" where
  "update_booking booking_id command e s =
     (case booking_get_detail s booking_id (en_locale_id e) of
        None \<Rightarrow> Inl (not_found BOOKING_NOT_FOUND (CtxId booking_id))
      | Some existing \<Rightarrow>
          raise_if (changes_ministry_association command (bk_ministry_id (dt_row existing)))
            (raise_exn Conflict (Some (BCode MINISTRY_ASSOCIATION_LOCKED)) (CtxId booking_id))
            (bindE (update_booking_title booking_id (ub_title command) s) (get_booking_by_id booking_id e)))"

section \<open>The member's own Bookings\<close>

definition owned_ministry_ids :: "db \<Rightarrow> uuid \<Rightarrow> uuid list" where
  "owned_ministry_ids s user_id = list_owned_active s user_id"

definition require_participant_booking :: "env \<Rightarrow> db \<Rightarrow> uuid \<Rightarrow> uuid \<Rightarrow> exn + booking_detail" where
  "require_participant_booking e s booking_id user_id =
     (case booking_get_detail s booking_id (en_locale_id e) of
        None \<Rightarrow> Inl (not_found BOOKING_NOT_FOUND (CtxId booking_id))
      | Some row \<Rightarrow>
          raise_if (\<not> is_current_booking_participant user_id (bk_user_id (dt_row row)) (bk_ministry_id (dt_row row))
              (owned_ministry_ids s user_id))
            (not_found BOOKING_NOT_FOUND (CtxId booking_id)) (Inr row))"

definition require_member_cancellation_reason :: "string option \<Rightarrow> exn + string" where
  "require_member_cancellation_reason cancel_reason =
     (case normalize_member_cancellation_reason (if truthy cancel_reason then the cancel_reason else []) of
        None \<Rightarrow> Inl (bad_request BOOKING_CANCEL_REASON_INVALID)
      | Some r \<Rightarrow> Inr r)"

text \<open>\<open>now\<close> is the optional argument of the browse and detail operations, else the clock of the service.\<close>

definition browse_my_bookings :: "browse_query_command \<Rightarrow> instant option \<Rightarrow> (card list \<times> nat) handler" where
  "browse_my_bookings command now e s =
     (case en_user_id e of
        None \<Rightarrow> Inl forbidden
      | Some user_id \<Rightarrow>
          (let browse_now = (case now of None \<Rightarrow> en_now_utc e | Some t \<Rightarrow> t);
               rows = map (browse_row_of s) (list_participant_bookings s user_id (owned_ministry_ids s user_id));
               cards = project_my_bookings_cards rows (bq_section command) user_id browse_now
                         (set_facility_timezone (en_settings e))
           in Inr (paginate_my_bookings_cards cards (bq_page command) (bq_page_size command), s)))"

definition get_my_booking_by_id :: "uuid \<Rightarrow> instant option \<Rightarrow> participant_detail handler" where
  "get_my_booking_by_id booking_id now e s =
     (case en_user_id e of
        None \<Rightarrow> Inl forbidden
      | Some user_id \<Rightarrow>
          bindE (require_participant_booking e s booking_id user_id) (\<lambda>row.
            let browse_now = (case now of None \<Rightarrow> en_now_utc e | Some t \<Rightarrow> t)
            in Inr (assemble_participant_booking_detail row user_id browse_now (set_facility_timezone (en_settings e)) False, s)))"

definition update_my_booking_title :: "uuid \<Rightarrow> update_title_command \<Rightarrow> participant_detail handler" where
  "update_my_booking_title booking_id command e s =
     (case en_user_id e of
        None \<Rightarrow> Inl forbidden
      | Some user_id \<Rightarrow>
          bindE (require_participant_booking e s booking_id user_id) (\<lambda>row.
            raise_if (bk_user_id (dt_row row) \<noteq> user_id) forbidden
              (bindE (update_booking_title booking_id (ut_title command) s) (get_my_booking_by_id booking_id None e))))"

definition cancel_my_booking :: "uuid \<Rightarrow> cancel_booking_command \<Rightarrow> unit handler" where
  "cancel_my_booking booking_id command e s =
     (case en_user_id e of
        None \<Rightarrow> Inl forbidden
      | Some user_id \<Rightarrow>
          bindE (require_participant_booking e s booking_id user_id) (\<lambda>row.
            raise_if (bk_user_id (dt_row row) \<noteq> user_id) forbidden
              (bindE (require_member_cancellation_reason (xb_cancel_reason command)) (\<lambda>cancel_reason.
                service_cancel_booking booking_id \<lparr>xb_scope = xb_scope command, xb_cancel_reason = Some cancel_reason\<rparr> e s))))"

definition preview_quote_for_member :: "member_preview_command \<Rightarrow> quote_result handler" where
  "preview_quote_for_member command e s =
     bindE (validate_ministry_booking_gate e s (mp_ministry_id command) None) (\<lambda>_.
       let resolved_lines = map (\<lambda>(index, line). \<lparr>ln_facility_id = pl_facility_id line, ln_start_at = pl_start_at line,
               ln_end_at = pl_end_at line, ln_sequence = int index\<rparr>) (enumerate 0 (mp_lines command))
       in bindE (validate_booking_lines resolved_lines (set_facility_timezone (en_settings e))) (\<lambda>_.
          bindE (preview_quote e s
            \<lparr>pq_booking_type = BT_ONE_TIME, pq_currency = mp_currency command, pq_as_of_date = None,
             pq_room_lines = map quote_line_of resolved_lines, pq_surcharge_codes = mp_surcharge_codes command,
             pq_ministry_id = mp_ministry_id command, pq_booker_id = en_user_id e\<rparr>) (\<lambda>quote. Inr (quote, s))))"

end
