(* ===== verification/Recurring_Conflicts.thy ===== *)
theory Recurring_Conflicts imports One_Time_Override Room_Hours Pricing Booking_Service begin

text \<open>
  The first half of the recurring booking service (\<open>recurring_booking_service.py\<close>): who may propose a
  series, the checked and localised schedule (\<open>_prepare_series\<close>), the conflicts of its occurrences
  (\<open>_collect_conflicts\<close>), exclusions (\<open>_unexcluded_occurrences\<close>), displacement targets and prices.
\<close>

section \<open>Prepared series\<close>

record prepared_occurrence =
  po_occurrence_date :: date
  po_start_at :: instant
  po_end_at :: instant

record prepared_series =
  ps_booker_id :: uuid
  ps_operator_id :: uuid
  ps_local_tz :: zone
  ps_now_utc :: instant
  ps_occurrences :: "prepared_occurrence list"
  ps_is_priority :: bool
  ps_ministry_name :: "string option"
  ps_ministry_name_zh :: "string option"

definition value_error :: exn where "value_error = raise_exn ValueErr None CtxNone"

text \<open>\<open>_pending_payment_hold\<close>; a noon or midnight the clocks skip raises \<open>ValueError\<close>.\<close>

definition pending_payment_hold :: "env \<Rightarrow> instant \<Rightarrow> exn + (int \<times> instant)" where
  "pending_payment_hold e now_utc =
     (let hold_days = set_pending_payment_hold_days (en_settings e);
          local_tz = set_facility_timezone (en_settings e)
      in case calendar_day_payment_hold_expires_at now_utc hold_days local_tz of
           None \<Rightarrow> Inl value_error
         | Some expires \<Rightarrow> Inr (hold_days, expires))"

definition proposal_payment_hold :: "env \<Rightarrow> create_series_command \<Rightarrow> instant \<Rightarrow> exn + (int option \<times> instant option)" where
  "proposal_payment_hold e command now_utc =
     (if cs_ministry_id command \<noteq> None then Inr (None, None)
      else bindE (pending_payment_hold e now_utc) (\<lambda>(hold_days, expires). Inr (Some hold_days, Some expires)))"

definition effective_test_window_override :: "env \<Rightarrow> bool" where
  "effective_test_window_override e = (if en_is_prod e then False else set_test_window_override (en_settings e))"

text \<open>The mail address of the booker, taken from the request when the booker is the caller.\<close>

definition booker_email_of :: "env \<Rightarrow> db \<Rightarrow> uuid \<Rightarrow> string option" where
  "booker_email_of e s booker_id =
     (let email = (if en_user_id e = Some booker_id then en_user_email e else None)
      in if truthy email then email else user_sensitive_email s booker_id)"

definition raise_if_ineligible_booker :: "env \<Rightarrow> db \<Rightarrow> uuid \<Rightarrow> exn + unit" where
  "raise_if_ineligible_booker e s booker_id =
     (let email = booker_email_of e s booker_id
      in if is_church_email email CHURCH_EMAIL_DOMAIN then Inr ()
         else if \<not> en_is_prod e \<and>
                 is_test_booker_allowlisted email (set_allowlist_addresses (en_settings e)) (set_allowlist_suffixes (en_settings e))
         then Inr ()
         else Inl (raise_exn Forbidden (Some (FCode RECURRING_NOT_ELIGIBLE)) CtxNone))"

definition validate_ministry_series :: "db \<Rightarrow> uuid \<Rightarrow> uuid \<Rightarrow> exn + (bool \<times> string option \<times> string option)" where
  "validate_ministry_series s ministry_id booker_id =
     (let ministry = find_ministry s ministry_id;
          status = (case ministry of Some m \<Rightarrow> Some (mi_status m) | None \<Rightarrow> ministry_get_status s ministry_id)
      in raise_if (status \<noteq> Some MS_ACTIVE)
           (raise_exn BadRequest (Some (FCode BOOKING_MINISTRY_INACTIVE)) (CtxId ministry_id))
           (raise_if (\<not> is_user_booking_member s ministry_id booker_id) forbidden
             (let is_priority = (case ministry of None \<Rightarrow> False | Some m \<Rightarrow> mi_has_priority_booking m);
                  trs = (case ministry of None \<Rightarrow> [] | Some m \<Rightarrow> mi_translations m);
                  name = (case ministry of None \<Rightarrow> None | Some m \<Rightarrow> ministry_name_fallback s None (mi_translations m))
              in case resolve_bilingual_activity_names trs name of
                   (name_en, name_zh) \<Rightarrow> Inr (is_priority, Some name_en, Some name_zh))))"

definition prepare_occurrence :: "create_series_command \<Rightarrow> zone \<Rightarrow> date \<Rightarrow> exn + prepared_occurrence" where
  "prepare_occurrence command local_tz occurrence_date =
     (case (localize_wall_time local_tz occurrence_date (cs_local_start_time command),
            localize_wall_time local_tz occurrence_date (cs_local_end_time command)) of
        (Some start_at, Some end_at) \<Rightarrow>
          Inr \<lparr>po_occurrence_date = occurrence_date, po_start_at = start_at, po_end_at = end_at\<rparr>
      | _ \<Rightarrow> Inl (bad_request RECURRING_DST_NONEXISTENT))"

definition series_lines :: "create_series_command \<Rightarrow> prepared_occurrence \<Rightarrow> resolved_line list" where
  "series_lines command occurrence =
     map (\<lambda>room. \<lparr>ln_facility_id = rc_facility_id room, ln_start_at = po_start_at occurrence,
                  ln_end_at = po_end_at occurrence, ln_sequence = rc_sequence room\<rparr>) (cs_rooms command)"

definition prepare_series :: "create_series_command \<Rightarrow> env \<Rightarrow> db \<Rightarrow> exn + prepared_series" where
  "prepare_series command e s =
     (case en_user_id e of
        None \<Rightarrow> Inl forbidden
      | Some operator_id \<Rightarrow>
          (let booker_id = booker_of (cs_user_id command) operator_id;
               first = cs_first_occurrence_date command; last = cs_last_occurrence_date command;
               st = en_settings e; min_weeks = set_min_recurring_booking_weeks st
           in bindE (raise_if_ineligible_booker e s booker_id) (\<lambda>_.
              raise_if (cs_rooms command = []) (bad_request BOOKING_ROOMS_REQUIRED)
             (raise_if (cs_local_end_time command \<le> cs_local_start_time command) (bad_request RECURRING_INVALID_TIME_RANGE)
             (bindE (raise_if_too_many_booking_lines e (cs_rooms command)) (\<lambda>_.
              raise_if (last < first) (bad_request RECURRING_INVALID_TIME_RANGE)
             (raise_if (weekday first \<noteq> weekday last) (bad_request RECURRING_WEEKDAY_MISMATCH)
             (let first_period = use_period_for_date first; last_period = use_period_for_date last
              in raise_if (first_period \<noteq> last_period) (bad_request RECURRING_USE_PERIOD)
             (let local_tz = set_facility_timezone st; now_utc = en_now_utc e; now_local = to_local local_tz now_utc;
                  opening = opening_date_for_period first_period (date_year first);
                  override_open = effective_test_window_override e
              in raise_if (\<not> (override_open \<or>
                    is_within_availability_window now_local opening (set_window_amount st) (set_window_unit st)))
                  (bad_request RECURRING_AVAILABILITY_WINDOW)
             (let occurrence_dates = weekly_occurrence_dates first last
              in raise_if (int (length occurrence_dates) < min_weeks) (bad_request RECURRING_MIN_OCCURRENCES)
             (bindE (mapE (prepare_occurrence command local_tz) occurrence_dates) (\<lambda>occurrences.
              bindE (validate_booking_lines (series_lines command (hd occurrences)) local_tz) (\<lambda>_.
              bindE (case cs_ministry_id command of None \<Rightarrow> Inr (False, None, None)
                     | Some m \<Rightarrow> validate_ministry_series s m booker_id) (\<lambda>(is_priority, name_en, name_zh).
              Inr \<lparr>ps_booker_id = booker_id, ps_operator_id = operator_id, ps_local_tz = local_tz, ps_now_utc = now_utc,
                   ps_occurrences = occurrences, ps_is_priority = is_priority, ps_ministry_name = name_en,
                   ps_ministry_name_zh = name_zh\<rparr>))))))))))))))"

section \<open>Conflicts\<close>

text \<open>\<open>redact_conflict_for_personal\<close>: the kind and ministry of a conflict a Personal proposal sees.\<close>

definition redact_conflict_for_personal ::
  "conflict_kind \<Rightarrow> uuid option \<Rightarrow> conflict_kind \<times> uuid option \<times> string option \<times> string option" where
  "redact_conflict_for_personal kind ministry_id =
     (if kind = KMINISTRY \<or> ministry_id \<noteq> None then (KOCCUPANCY, None, None, None) else (kind, ministry_id, None, None))"

text \<open>\<open>member_safe_conflicts\<close> drops the occupying bookings from what an error shows.\<close>

definition member_safe :: "series_conflict \<Rightarrow> member_safe_conflict" where
  "member_safe c =
     \<lparr>ms_occurrence_date = sc_occurrence_date c, ms_kind = sc_kind c, ms_facility_ids = sc_facility_ids c,
      ms_is_overridable = sc_is_overridable c, ms_ministry_id = sc_ministry_id c,
      ms_ministry_steward_display_name = sc_ministry_steward_display_name c,
      ms_ministry_steward_email = sc_ministry_steward_email c,
      ms_booker_display_name = sc_booker_display_name c, ms_booker_email = sc_booker_email c\<rparr>"

definition member_safe_conflicts :: "series_conflict list \<Rightarrow> member_safe_conflict list" where
  "member_safe_conflicts conflicts = map member_safe conflicts"

text \<open>\<open>merged\<close>: one entry per booking, in the order the rooms meet them, with the rooms it holds.\<close>

definition merge_occupying :: "uuid \<Rightarrow> (uuid \<times> occupying) list \<Rightarrow> occupying \<Rightarrow> (uuid \<times> occupying) list" where
  "merge_occupying facility_id merged item =
     (let facility_ids = dict_fromkeys (oc_facility_ids item @ [facility_id])
      in case map_of merged (oc_booking_id item) of
           Some existing \<Rightarrow> dict_set merged (oc_booking_id item)
             (existing\<lparr>oc_facility_ids := dict_fromkeys (oc_facility_ids existing @ facility_ids)\<rparr>)
         | None \<Rightarrow> dict_set merged (oc_booking_id item) (item\<lparr>oc_facility_ids := facility_ids\<rparr>))"

definition occupying_bookings_for_occurrence ::
  "env \<Rightarrow> db \<Rightarrow> create_series_command \<Rightarrow> prepared_occurrence \<Rightarrow> occupying list" where
  "occupying_bookings_for_occurrence e s command occurrence =
     map snd (foldl (\<lambda>merged room.
         foldl (merge_occupying (rc_facility_id room)) merged
           (list_occupying_slots s (en_sql_now e) (rc_facility_id room) (po_start_at occurrence) (po_end_at occurrence) None))
       [] (cs_rooms command))"

definition unique_facility_ids :: "occupying list \<Rightarrow> uuid list" where
  "unique_facility_ids items = dict_fromkeys (concat (map oc_facility_ids items))"

definition weekly_quota_conflict_dates ::
  "env \<Rightarrow> db \<Rightarrow> uuid \<Rightarrow> prepared_occurrence list \<Rightarrow> zone \<Rightarrow> date list" where
  "weekly_quota_conflict_dates e s booker_id occurrences local_tz =
     (let local_dates = map (\<lambda>item. wall_date (to_local local_tz (po_start_at item))) occurrences;
          first_week = sunday_week_start (fold min (tl local_dates) (hd local_dates));
          last_week = sunday_week_start (fold max (tl local_dates) (hd local_dates));
          range_start = from_local local_tz (combine first_week 0);
          range_end = from_local local_tz (combine (last_week + 7) 0);
          existing = list_rental_occurrence_starts s (en_sql_now e) booker_id range_start range_end;
          occupied_weeks = map (\<lambda>start_at. sunday_week_start (wall_date (to_local local_tz start_at))) existing
      in map po_occurrence_date
           (filter (\<lambda>item. sunday_week_start (wall_date (to_local local_tz (po_start_at item))) \<in> set occupied_weeks)
              occurrences))"

definition occurrence_conflict :: "date \<Rightarrow> conflict_kind \<Rightarrow> uuid list \<Rightarrow> occupying list \<Rightarrow> series_conflict" where
  "occurrence_conflict occurrence_date kind facility_ids occupying_bookings =
     \<lparr>sc_occurrence_date = occurrence_date, sc_kind = kind, sc_facility_ids = facility_ids, sc_is_overridable = False,
      sc_occupying_bookings = occupying_bookings, sc_ministry_id = None, sc_ministry_steward_display_name = None,
      sc_ministry_steward_email = None, sc_booker_display_name = None, sc_booker_email = None\<rparr>"

text \<open>The three classes of occupants; displacing needs priority and an occurrence that has not started.\<close>

definition rental_overridable :: "prepared_series \<Rightarrow> occupying \<Rightarrow> bool" where
  "rental_overridable prepared item \<longleftrightarrow>
     oc_ministry_id item = None \<and> ps_is_priority prepared \<and> oc_start_at item > ps_now_utc prepared"

definition overridable_conflicts :: "prepared_series \<Rightarrow> date \<Rightarrow> occupying list \<Rightarrow> series_conflict list" where
  "overridable_conflicts prepared occurrence_date occupying =
     (let items = filter (rental_overridable prepared) occupying
      in if items = [] then []
         else [(occurrence_conflict occurrence_date KOCCUPANCY (unique_facility_ids items) items)\<lparr>sc_is_overridable := True\<rparr>])"

definition blocked_conflicts :: "create_series_command \<Rightarrow> prepared_series \<Rightarrow> date \<Rightarrow> occupying list \<Rightarrow> series_conflict list" where
  "blocked_conflicts command prepared occurrence_date occupying =
     (let items = filter (\<lambda>item. oc_ministry_id item = None \<and> \<not> rental_overridable prepared item) occupying;
          show_booker = (cs_ministry_id command \<noteq> None \<and> \<not> ps_is_priority prepared)
      in if items = [] then []
         else [(occurrence_conflict occurrence_date KOCCUPANCY (unique_facility_ids items) items)
                 \<lparr>sc_booker_display_name := (if show_booker then oc_booker_display_name (hd items) else None),
                  sc_booker_email := (if show_booker then oc_booker_email (hd items) else None)\<rparr>])"

definition steward_contact_of :: "db \<Rightarrow> uuid option \<Rightarrow> string option \<times> string option" where
  "steward_contact_of s ministry_id = (case ministry_id of None \<Rightarrow> (None, None) | Some i \<Rightarrow> primary_steward_contact s i)"

definition ministry_conflicts :: "db \<Rightarrow> create_series_command \<Rightarrow> date \<Rightarrow> occupying list \<Rightarrow> series_conflict list" where
  "ministry_conflicts s command occurrence_date occupying =
     (let items = filter (\<lambda>item. oc_ministry_id item \<noteq> None) occupying
      in if items = [] then []
         else (let first = hd items;
                   shown = (if cs_ministry_id command = None
                            then redact_conflict_for_personal KMINISTRY (oc_ministry_id first)
                            else (case steward_contact_of s (oc_ministry_id first) of
                                    (steward_name, steward_email) \<Rightarrow> (KMINISTRY, oc_ministry_id first, steward_name, steward_email)))
               in case shown of (kind, ministry_id, steward_name, steward_email) \<Rightarrow>
                    [(occurrence_conflict occurrence_date kind (unique_facility_ids items) items)
                       \<lparr>sc_ministry_id := ministry_id, sc_ministry_steward_display_name := steward_name,
                        sc_ministry_steward_email := steward_email\<rparr>]))"

definition closed_conflicts :: "db \<Rightarrow> create_series_command \<Rightarrow> zone \<Rightarrow> prepared_occurrence \<Rightarrow> series_conflict list" where
  "closed_conflicts s command local_tz occurrence =
     (let blackout_ids = filter (\<lambda>f. has_blackout_overlap s f (po_start_at occurrence) (po_end_at occurrence) local_tz)
            (map rc_facility_id (cs_rooms command));
          opening_hours_ids = (if cs_enforce_opening_hours command
            then filter (\<lambda>f. f \<notin> set blackout_ids \<and>
                   \<not> member_interval_within_opening_hours (po_start_at occurrence) (po_end_at occurrence)
                       (list_active_for_day s f (weekday (po_occurrence_date occurrence))) local_tz)
                   (map rc_facility_id (cs_rooms command))
            else [])
      in (if blackout_ids = [] then [] else [occurrence_conflict (po_occurrence_date occurrence) KBLACKOUT blackout_ids []]) @
         (if opening_hours_ids = [] then []
          else [occurrence_conflict (po_occurrence_date occurrence) KOPENING_HOURS opening_hours_ids []]))"

definition conflicts_of_occurrence ::
  "env \<Rightarrow> db \<Rightarrow> create_series_command \<Rightarrow> prepared_series \<Rightarrow> prepared_occurrence \<Rightarrow> series_conflict list" where
  "conflicts_of_occurrence e s command prepared occurrence =
     (let occupying = occupying_bookings_for_occurrence e s command occurrence; d = po_occurrence_date occurrence
      in overridable_conflicts prepared d occupying @ blocked_conflicts command prepared d occupying @
         ministry_conflicts s command d occupying @ closed_conflicts s command (ps_local_tz prepared) occurrence)"

fun kind_order :: "conflict_kind \<Rightarrow> int" where
  "kind_order KOCCUPANCY = 0"
| "kind_order KMINISTRY = 1"
| "kind_order KBLACKOUT = 2"
| "kind_order KOPENING_HOURS = 3"
| "kind_order KWEEKLY_QUOTA = 4"

definition collect_conflicts :: "env \<Rightarrow> db \<Rightarrow> create_series_command \<Rightarrow> prepared_series \<Rightarrow> series_conflict list" where
  "collect_conflicts e s command prepared =
     (let quota = (if cs_ministry_id command = None
            then map (\<lambda>d. occurrence_conflict d KWEEKLY_QUOTA [] [])
                   (weekly_quota_conflict_dates e s (ps_booker_id prepared) (ps_occurrences prepared) (ps_local_tz prepared))
            else []);
          conflicts = quota @ concat (map (conflicts_of_occurrence e s command prepared) (ps_occurrences prepared))
      in sort_key (\<lambda>c. (sc_occurrence_date c, kind_order (sc_kind c), if sc_is_overridable c then 0 :: int else 1)) conflicts)"

text \<open>What a blocking conflict is reported as: by evaluation (a code), and by creation (an exception).\<close>

definition blocking_conflict_invalidity :: "series_conflict \<Rightarrow> err_code" where
  "blocking_conflict_invalidity conflict =
     (case sc_kind conflict of
        KMINISTRY \<Rightarrow> FCode RECURRING_MINISTRY_CONFLICT
      | KOCCUPANCY \<Rightarrow> BCode SCHEDULING_CONFLICT
      | KBLACKOUT \<Rightarrow> BCode ROOM_BLACKOUT
      | KOPENING_HOURS \<Rightarrow> BCode OUTSIDE_OPENING_HOURS
      | KWEEKLY_QUOTA \<Rightarrow> FCode RECURRING_WEEKLY_QUOTA)"

definition remaining_conflict :: "series_conflict list \<Rightarrow> exn" where
  "remaining_conflict blocking =
     (let conflict = hd blocking;
          facility_id = (case sc_facility_ids conflict of [] \<Rightarrow> None | f # fs \<Rightarrow> Some f);
          ctx_id = (case facility_id of None \<Rightarrow> CtxNone | Some f \<Rightarrow> CtxId f)
      in case sc_kind conflict of
           KMINISTRY \<Rightarrow> raise_exn Conflict (Some (FCode RECURRING_MINISTRY_CONFLICT))
             (CtxSeriesConflicts facility_id
                (map_option (\<lambda>m. (m, sc_ministry_steward_display_name conflict, sc_ministry_steward_email conflict))
                   (sc_ministry_id conflict))
                (member_safe_conflicts blocking))
         | KOCCUPANCY \<Rightarrow> raise_exn Conflict (Some (BCode SCHEDULING_CONFLICT))
             (CtxSeriesConflicts facility_id None (member_safe_conflicts blocking))
         | KBLACKOUT \<Rightarrow> raise_exn BadRequest (Some (BCode ROOM_BLACKOUT)) ctx_id
         | KOPENING_HOURS \<Rightarrow> raise_exn BadRequest (Some (BCode OUTSIDE_OPENING_HOURS)) ctx_id
         | KWEEKLY_QUOTA \<Rightarrow> bad_request RECURRING_WEEKLY_QUOTA)"

section \<open>Exclusions\<close>

text \<open>\<open>excluded_dates - generated_dates or excluded_dates - conflict_dates\<close> is not empty.\<close>

definition invalid_exclusion :: "create_series_command \<Rightarrow> prepared_series \<Rightarrow> series_conflict list \<Rightarrow> bool" where
  "invalid_exclusion command prepared conflicts \<longleftrightarrow>
     \<not> set (cs_excluded_dates command) \<subseteq> set (map po_occurrence_date (ps_occurrences prepared)) \<or>
     \<not> set (cs_excluded_dates command) \<subseteq> set (map sc_occurrence_date conflicts)"

definition remaining_of :: "create_series_command \<Rightarrow> prepared_series \<Rightarrow> prepared_occurrence list" where
  "remaining_of command prepared =
     filter (\<lambda>item. po_occurrence_date item \<notin> set (cs_excluded_dates command)) (ps_occurrences prepared)"

definition remaining_conflicts_of :: "create_series_command \<Rightarrow> series_conflict list \<Rightarrow> series_conflict list" where
  "remaining_conflicts_of command conflicts =
     filter (\<lambda>c. sc_occurrence_date c \<notin> set (cs_excluded_dates command)) conflicts"

definition unexcluded_occurrences ::
  "env \<Rightarrow> db \<Rightarrow> create_series_command \<Rightarrow> prepared_series \<Rightarrow> exn + (prepared_occurrence list \<times> series_conflict list)" where
  "unexcluded_occurrences e s command prepared =
     (let conflicts = collect_conflicts e s command prepared;
          remaining = remaining_of command prepared;
          remaining_conflicts = remaining_conflicts_of command conflicts;
          blocking = filter (\<lambda>c. \<not> sc_is_overridable c) remaining_conflicts
      in raise_if (invalid_exclusion command prepared conflicts) (bad_request RECURRING_INVALID_EXCLUSION)
        (raise_if (int (length remaining) < set_min_recurring_booking_weeks (en_settings e))
           (bad_request RECURRING_MIN_OCCURRENCES)
        (raise_if (blocking \<noteq> []) (remaining_conflict blocking)
          (Inr (remaining, filter sc_is_overridable remaining_conflicts)))))"

section \<open>Displacement targets and the reviewed proposal\<close>

definition override_targets :: "db \<Rightarrow> series_conflict list \<Rightarrow> zone \<Rightarrow> (date \<times> override_target) list" where
  "override_targets s conflicts local_tz =
     (let occupying = concat (map (\<lambda>c. map (Pair (sc_occurrence_date c)) (sc_occupying_bookings c)) conflicts);
          target_ids = dict_fromkeys (map (\<lambda>(d, item). oc_booking_id item) occupying)
      in map (\<lambda>(occurrence_date, item). (occurrence_date,
           \<lparr>tg_impact = \<lparr>im_booking_id = oc_booking_id item, im_is_series_occurrence = (oc_series_id item \<noteq> None),
              im_start_at = oc_start_at item, im_end_at = oc_end_at item,
              im_released_intervals = list_live_slot_intervals s target_ids (oc_booking_id item)\<rparr>,
            tg_booker_id = oc_user_id item,
            tg_occurrence_date = wall_date (to_local local_tz (oc_start_at item)),
            tg_overlapping_facility_ids = oc_facility_ids item\<rparr>)) occupying)"

definition unique_impacts :: "(date \<times> override_target) list \<Rightarrow> override_impact list" where
  "unique_impacts targets =
     map snd (foldl (\<lambda>d (_, target). setdefault d (im_booking_id (tg_impact target)) (tg_impact target)) [] targets)"

definition RECURRING_PROPOSAL_MARKER :: string where "RECURRING_PROPOSAL_MARKER = ''recurring-series''"

text \<open>\<open>date.isoformat()\<close>\<close>

definition date_isoformat :: "date \<Rightarrow> string" where
  "date_isoformat d =
     digits dec_digit 10 4 (date_year d) @ ''-'' @ digits dec_digit 10 2 (date_month d) @ ''-'' @
     digits dec_digit 10 2 (date_day d)"

definition series_proposal :: "create_series_command \<Rightarrow> prepared_occurrence list \<Rightarrow> string list" where
  "series_proposal command remaining =
     RECURRING_PROPOSAL_MARKER #
     concat (map (\<lambda>item. map (\<lambda>room. room_interval_key (rc_facility_id room) (po_start_at item) (po_end_at item))
       (cs_rooms command)) remaining) @
     map (\<lambda>excluded. ''excluded|'' @ date_isoformat excluded) (sorted_list_of_set (set (cs_excluded_dates command)))"

definition issue_review_token ::
  "crypto \<Rightarrow> string \<Rightarrow> create_series_command \<Rightarrow> prepared_series \<Rightarrow> prepared_occurrence list \<Rightarrow> override_impact list \<Rightarrow> string option" where
  "issue_review_token c review_secret command prepared remaining impacts =
     (if impacts = [] then None
      else Some (issue_override_review_token c review_secret (ps_booker_id prepared) (cs_ministry_id command)
                   (series_proposal command remaining) impacts))"

section \<open>Prices\<close>

definition occurrence_quote_command :: "create_series_command \<Rightarrow> uuid \<Rightarrow> prepared_occurrence \<Rightarrow> preview_quote_command" where
  "occurrence_quote_command command booker_id item =
     (let hours = billed_hours (po_start_at item) (po_end_at item)
      in \<lparr>pq_booking_type = BT_RECURRING, pq_currency = ''CAD'', pq_as_of_date = Some (po_occurrence_date item),
          pq_room_lines = map (\<lambda>room. \<lparr>ql_facility_id = rc_facility_id room, ql_billed_hours = hours\<rparr>) (cs_rooms command),
          pq_surcharge_codes = cs_surcharge_codes command, pq_ministry_id = cs_ministry_id command,
          pq_booker_id = Some booker_id\<rparr>)"

definition occurrence_quote :: "env \<Rightarrow> db \<Rightarrow> create_series_command \<Rightarrow> uuid \<Rightarrow> prepared_occurrence \<Rightarrow> exn + quote_result" where
  "occurrence_quote e s command booker_id item = preview_quote e s (occurrence_quote_command command booker_id item)"

definition quotes_of :: "env \<Rightarrow> db \<Rightarrow> create_series_command \<Rightarrow> uuid \<Rightarrow> prepared_occurrence list \<Rightarrow> exn + quote_result list" where
  "quotes_of e s command booker_id occurrences =
     mapE (occurrence_quote e s command booker_id) occurrences"

text \<open>A variable the loop assigns on every turn holds its last value, or the initial one.\<close>

definition last_or :: "'b \<Rightarrow> ('a \<Rightarrow> 'b) \<Rightarrow> 'a list \<Rightarrow> 'b" where
  "last_or z f xs = foldl (\<lambda>_ x. f x) z xs"

record series_quote =
  sq_quoted_amount :: dec
  sq_subtotal_amount :: dec
  sq_discount_percent :: dec
  sq_discount_amount :: dec
  sq_surcharge_amount :: dec
  sq_currency :: string
  sq_discount_code :: "string option"
  sq_is_free_ministry :: bool

definition sum_quotes :: "quote_result list \<Rightarrow> series_quote" where
  "sum_quotes quotes =
     \<lparr>sq_quoted_amount = sum_list (map qt_quoted_amount quotes), sq_subtotal_amount = sum_list (map qt_subtotal_amount quotes),
      sq_discount_percent = last_or 0 qt_discount_percent quotes, sq_discount_amount = sum_list (map qt_discount_amount quotes),
      sq_surcharge_amount = sum_list (map qt_surcharge_amount quotes), sq_currency = last_or ''CAD'' qt_currency quotes,
      sq_discount_code = last_or None qt_discount_code quotes, sq_is_free_ministry = last_or False qt_is_free_ministry quotes\<rparr>"

definition quote_occurrences ::
  "env \<Rightarrow> db \<Rightarrow> create_series_command \<Rightarrow> prepared_occurrence list \<Rightarrow> uuid \<Rightarrow> exn + series_quote" where
  "quote_occurrences e s command occurrences booker_id =
     bindE (quotes_of e s command booker_id occurrences) (\<lambda>quotes. Inr (sum_quotes quotes))"

end
