(* ===== verification/Recurring_Service.thy ===== *)
theory Recurring_Service imports Recurring_Conflicts begin

text \<open>
  The operations of the recurring booking service (\<open>recurring_booking_service.py\<close>): the preview and the
  live evaluation of a proposal, creation, payment confirmation, reads, titles, cancellation, the impact of
  a blackout, and the sweep that expires payment holds.
\<close>

section \<open>Preview and evaluation\<close>

record series_preview =
  rp_conflicts :: "series_conflict list"
  rp_quoted_amount :: dec
  rp_currency :: string
  rp_is_free_ministry :: bool
  rp_override_impacts :: "override_impact list"
  rp_override_review_token :: "string option"

definition preview_conflicts :: "crypto \<Rightarrow> string \<Rightarrow> create_series_command \<Rightarrow> series_preview handler" where
  "preview_conflicts c review_secret command e s =
     bindE (prepare_series command e s) (\<lambda>prepared.
       let conflicts = collect_conflicts e s command prepared
       in bindE (quote_occurrences e s command (ps_occurrences prepared) (ps_booker_id prepared)) (\<lambda>quote.
          let remaining = remaining_of command prepared;
              remaining_conflicts = remaining_conflicts_of command conflicts;
              impacts = unique_impacts (override_targets s (filter sc_is_overridable remaining_conflicts) (ps_local_tz prepared));
              is_reviewable = (set (cs_excluded_dates command) \<subseteq> set (map sc_occurrence_date conflicts) \<and>
                set_min_recurring_booking_weeks (en_settings e) \<le> int (length remaining) \<and>
                list_all sc_is_overridable remaining_conflicts)
          in Inr (\<lparr>rp_conflicts = conflicts, rp_quoted_amount = sq_quoted_amount quote, rp_currency = sq_currency quote,
               rp_is_free_ministry = sq_is_free_ministry quote, rp_override_impacts = impacts,
               rp_override_review_token =
                 (if is_reviewable then issue_review_token c review_secret command prepared remaining impacts else None)\<rparr>, s)))"

record proposal_result =
  pe_is_confirmable :: bool
  pe_conflicts :: "series_conflict list"
  pe_quote :: series_quote
  pe_occurrence_count :: nat
  pe_pending_payment_hold_days :: "int option"
  pe_payment_hold_expires_at :: "instant option"
  pe_invalidity_code :: "err_code option"
  pe_override_impacts :: "override_impact list"
  pe_override_review_token :: "string option"

definition unevaluable_proposal ::
  "err_code option \<Rightarrow> int option \<Rightarrow> instant option \<Rightarrow> series_conflict list \<Rightarrow> nat \<Rightarrow> proposal_result" where
  "unevaluable_proposal error_code hold_days payment_hold_expires_at conflicts occurrence_count =
     \<lparr>pe_is_confirmable = False, pe_conflicts = conflicts, pe_quote = sum_quotes [], pe_occurrence_count = occurrence_count,
      pe_pending_payment_hold_days = hold_days, pe_payment_hold_expires_at = payment_hold_expires_at,
      pe_invalidity_code = error_code, pe_override_impacts = [], pe_override_review_token = None\<rparr>"

text \<open>Only a \<open>BadRequestException\<close> of the preparation becomes a result; any other error is raised.\<close>

definition evaluate_proposal :: "crypto \<Rightarrow> string \<Rightarrow> create_series_command \<Rightarrow> proposal_result handler" where
  "evaluate_proposal c review_secret command e s =
     bindE (proposal_payment_hold e command (en_now_utc e)) (\<lambda>(hold_days, expires).
       case prepare_series command e s of
         Inl error \<Rightarrow>
           if ex_kind error = BadRequest then Inr (unevaluable_proposal (ex_code error) hold_days expires [] 0, s)
           else Inl error
       | Inr prepared \<Rightarrow>
           (let conflicts = collect_conflicts e s command prepared; remaining = remaining_of command prepared
            in if invalid_exclusion command prepared conflicts
               then Inr (unevaluable_proposal (Some (FCode RECURRING_INVALID_EXCLUSION)) hold_days expires conflicts 0, s)
               else if int (length remaining) < set_min_recurring_booking_weeks (en_settings e)
               then Inr (unevaluable_proposal (Some (FCode RECURRING_MIN_OCCURRENCES)) hold_days expires conflicts
                      (length remaining), s)
               else (let remaining_conflicts = remaining_conflicts_of command conflicts;
                         blocking = filter (\<lambda>x. \<not> sc_is_overridable x) remaining_conflicts;
                         impacts = unique_impacts (override_targets s (filter sc_is_overridable remaining_conflicts)
                                     (ps_local_tz prepared))
                     in bindE (quote_occurrences e s command remaining (ps_booker_id prepared)) (\<lambda>quote.
                        let invalidity = (if blocking \<noteq> [] then Some (blocking_conflict_invalidity (hd blocking))
                              else if \<not> truthy (cs_title command) then Some (FCode BOOKING_TITLE_INVALID) else None);
                            is_confirmable = (invalidity = None)
                        in Inr (\<lparr>pe_is_confirmable = is_confirmable, pe_conflicts = conflicts, pe_quote = quote,
                             pe_occurrence_count = length remaining, pe_pending_payment_hold_days = hold_days,
                             pe_payment_hold_expires_at = expires, pe_invalidity_code = invalidity,
                             pe_override_impacts = impacts,
                             pe_override_review_token =
                               (if is_confirmable then issue_review_token c review_secret command prepared remaining impacts
                                else None)\<rparr>, s)))))"

record window_status =
  ws_is_open :: bool
  ws_next_opening_date :: "date option"

definition get_window_status :: "date option \<Rightarrow> env \<Rightarrow> window_status" where
  "get_window_status first_occurrence_date e =
     (let st = en_settings e; now_local = to_local (set_facility_timezone st) (en_now_utc e);
          amount = set_window_amount st; unit = set_window_unit st;
          override_open = effective_test_window_override e;
          is_open = (case first_occurrence_date of
              Some d \<Rightarrow> override_open \<or> is_first_occurrence_in_availability_window now_local d amount unit
            | None \<Rightarrow> override_open \<or> is_any_recurring_period_open now_local amount unit)
      in \<lparr>ws_is_open = is_open, ws_next_opening_date = (if is_open then None else next_recurring_opening_date now_local)\<rparr>)"

section \<open>Creation\<close>

text \<open>\<open>created_by_id\<close> and \<open>updated_by_id\<close> default to the caller (\<open>get_current_id\<close>).\<close>

definition current_id :: "env \<Rightarrow> uuid" where
  "current_id e = (case en_user_id e of Some u \<Rightarrow> u | None \<Rightarrow> 0)"

definition new_series ::
  "env \<Rightarrow> create_series_command \<Rightarrow> prepared_series \<Rightarrow> quote_result list \<Rightarrow> instant option \<Rightarrow> uuid \<Rightarrow> series" where
  "new_series e command prepared quotes hold series_id =
     (let is_free_ministry = list_all qt_is_free_ministry quotes; q = sum_quotes quotes
      in \<lparr>se_id = series_id, se_user_id = ps_booker_id prepared, se_title = the (cs_title command),
          se_ministry_id = cs_ministry_id command, se_first_occurrence_date = cs_first_occurrence_date command,
          se_last_occurrence_date = cs_last_occurrence_date command, se_local_start_time = cs_local_start_time command,
          se_local_end_time = cs_local_end_time command,
          se_status = (if is_free_ministry then BS_CONFIRMED else BS_PENDING_PAYMENT), se_payment_hold_expires_at = hold,
          se_billed_hours = Some (sum_list (map (\<lambda>x. sum_list (map qr_billed_hours (qt_room_lines x))) quotes)),
          se_subtotal_amount = Some (sq_subtotal_amount q), se_discount_percent = Some (sq_discount_percent q),
          se_discount_amount = Some (sq_discount_amount q), se_surcharge_amount = Some (sq_surcharge_amount q),
          se_quoted_amount = Some (sq_quoted_amount q), se_currency = Some (sq_currency q),
          se_is_mission_aligned = is_free_ministry, se_is_priority = ps_is_priority prepared, se_remark = cs_remark command,
          se_updated_by_id = Some (current_id e), se_created_at = en_sql_now e, se_is_deleted = False\<rparr>)"

definition new_occurrence ::
  "env \<Rightarrow> create_series_command \<Rightarrow> uuid \<Rightarrow> uuid \<Rightarrow> booking_status \<Rightarrow> prepared_occurrence \<Rightarrow> quote_result \<Rightarrow> uuid \<Rightarrow> booking" where
  "new_occurrence e command booker_id series_id status item quote booking_id =
     \<lparr>bk_id = booking_id, bk_user_id = booker_id, bk_title = the (cs_title command), bk_series_id = Some series_id,
      bk_facility_id = Some (primary_facility_id (series_lines command item)), bk_ministry_id = cs_ministry_id command,
      bk_booking_type = BT_RECURRING, bk_start_at = po_start_at item, bk_end_at = po_end_at item, bk_status = status,
      bk_is_mission_aligned = qt_is_free_ministry quote,
      bk_billed_hours = Some (sum_list (map qr_billed_hours (qt_room_lines quote))),
      bk_subtotal_amount = Some (qt_subtotal_amount quote), bk_discount_percent = Some (qt_discount_percent quote),
      bk_discount_amount = Some (qt_discount_amount quote), bk_surcharge_amount = Some (qt_surcharge_amount quote),
      bk_quoted_amount = Some (qt_quoted_amount quote), bk_currency = Some (qt_currency quote),
      bk_cancelled_at = None, bk_cancelled_by_id = None, bk_cancel_reason = None, bk_remark = cs_remark command,
      bk_created_at = en_sql_now e, bk_is_deleted = False\<rparr>"

definition created_occurrence :: "create_series_command \<Rightarrow> booking_status \<Rightarrow> prepared_occurrence \<Rightarrow> quote_result \<Rightarrow> uuid \<Rightarrow> occurrence_result" where
  "created_occurrence command status item quote booking_id =
     \<lparr>or_id = booking_id, or_title = the (cs_title command), or_start_at = po_start_at item, or_end_at = po_end_at item,
      or_status = status, or_quoted_amount = Some (qt_quoted_amount quote), or_currency = Some (qt_currency quote),
      or_facility_ids = map ln_facility_id (series_lines command item), or_is_free_ministry = qt_is_free_ministry quote\<rparr>"

text \<open>The loop over the remaining occurrences: a Booking with its rows for each.\<close>

definition insert_occurrence ::
  "env \<Rightarrow> create_series_command \<Rightarrow> uuid \<Rightarrow> uuid \<Rightarrow> booking_status \<Rightarrow> occurrence_result list \<times> db \<Rightarrow>
     prepared_occurrence \<times> quote_result \<Rightarrow> exn + (occurrence_result list \<times> db)" where
  "insert_occurrence e command booker_id series_id status acc item_quote =
     (case acc of (occurrences, s) \<Rightarrow> case item_quote of (item, quote) \<Rightarrow> case fresh_uuid s of (booking_id, s0) \<Rightarrow>
       bindE (insert_with_rows (new_occurrence e command booker_id series_id status item quote booking_id)
                (series_lines command item) quote s0) (\<lambda>s1.
         Inr (occurrences @ [created_occurrence command status item quote booking_id], s1)))"

definition displace_series_targets ::
  "create_series_command \<Rightarrow> prepared_series \<Rightarrow> prepared_occurrence list \<Rightarrow> occurrence_result list \<Rightarrow>
     (date \<times> override_target) list \<Rightarrow> uuid \<Rightarrow> env \<Rightarrow> db \<Rightarrow> db" where
  "displace_series_targets command prepared remaining occurrences targets series_id e s =
     (case cs_ministry_id command of
        None \<Rightarrow> s
      | Some ministry_id \<Rightarrow>
          if targets = [] then s
          else (let occurrence_id_by_date = (\<lambda>d. the (map_of (rev (zip (map po_occurrence_date remaining) (map or_id occurrences))) d));
                    name = the (py_or (ps_ministry_name prepared) (Some ''Church Activity''));
                    name_zh = the (py_or (ps_ministry_name_zh prepared) (py_or (ps_ministry_name prepared) (Some ''Church Activity'')))
                in case apply_whole_booking_overrides (map (\<lambda>(d, target). (occurrence_id_by_date d, target)) targets)
                          (ps_operator_id prepared) e s of
                     (items, s') \<Rightarrow> notify_displaced_bookers_after_commit items ministry_id name name_zh
                                     (ps_operator_id prepared) (Some series_id) s'))"

definition created_series ::
  "create_series_command \<Rightarrow> prepared_series \<Rightarrow> quote_result list \<Rightarrow> instant option \<Rightarrow> uuid \<Rightarrow> occurrence_result list \<Rightarrow> series_result" where
  "created_series command prepared quotes hold series_id occurrences =
     (let is_free_ministry = list_all qt_is_free_ministry quotes
      in \<lparr>sr_id = series_id, sr_title = the (cs_title command), sr_user_id = ps_booker_id prepared, sr_user_email = None,
          sr_user_display_name = None, sr_ministry_id = cs_ministry_id command, sr_ministry_name = None, sr_remark = None,
          sr_first_occurrence_date = cs_first_occurrence_date command,
          sr_last_occurrence_date = cs_last_occurrence_date command, sr_local_start_time = cs_local_start_time command,
          sr_local_end_time = cs_local_end_time command,
          sr_status = (if is_free_ministry then BS_CONFIRMED else BS_PENDING_PAYMENT),
          sr_payment_hold_expires_at = hold, sr_quoted_amount = sq_quoted_amount (sum_quotes quotes),
          sr_currency = sq_currency (sum_quotes quotes), sr_occurrence_count = length occurrences,
          sr_is_priority = ps_is_priority prepared, sr_is_free_ministry = is_free_ministry, sr_confirmed_by_id = None,
          sr_created_at = None, sr_occurrences = occurrences\<rparr>)"

text \<open>\<open>lock_rooms\<close> takes the advisory locks of the rooms before the conflicts are read and changes no row.\<close>

definition create_series :: "crypto \<Rightarrow> string \<Rightarrow> create_series_command \<Rightarrow> series_result handler" where
  "create_series c review_secret command e s =
     raise_if (\<not> truthy (cs_title command)) (bad_request BOOKING_TITLE_INVALID)
     (bindE (prepare_series command e s) (\<lambda>prepared.
      bindE (unexcluded_occurrences e s command prepared) (\<lambda>(remaining, overridable_list).
      let targets = override_targets s overridable_list (ps_local_tz prepared)
      in bindE (if cs_require_override_review command
                then require_reviewed_override c review_secret (cs_override_review_token command) (ps_booker_id prepared)
                       (cs_ministry_id command) (series_proposal command remaining) (unique_impacts targets)
                else Inr ()) (\<lambda>_.
         bindE (quotes_of e s command (ps_booker_id prepared) remaining) (\<lambda>quotes.
         let is_free_ministry = list_all qt_is_free_ministry quotes;
             status = (if is_free_ministry then BS_CONFIRMED else BS_PENDING_PAYMENT)
         in bindE (if is_free_ministry then Inr None
                   else bindE (pending_payment_hold e (ps_now_utc prepared)) (\<lambda>(days, expires). Inr (Some expires))) (\<lambda>hold.
            case fresh_uuid s of (series_id, s0) \<Rightarrow>
            bindE (insert_series (new_series e command prepared quotes hold series_id) s0) (\<lambda>s1.
            bindE (foldE (insert_occurrence e command (ps_booker_id prepared) series_id status) ([], s1)
                     (zip remaining quotes)) (\<lambda>(occurrences, s2).
            Inr (created_series command prepared quotes hold series_id occurrences,
                 displace_series_targets command prepared remaining occurrences targets series_id e s2)))))))))"

section \<open>Payment confirmation\<close>

definition series_not_found :: exn where "series_not_found = not_found BOOKING_SERIES_NOT_FOUND CtxNone"

definition with_occurrences :: "occurrence_result list \<Rightarrow> series_result \<Rightarrow> series_result" where
  "with_occurrences occurrences series = series\<lparr>sr_occurrences := occurrences, sr_occurrence_count := length occurrences\<rparr>"

definition confirm_payment :: "uuid \<Rightarrow> series_result handler" where
  "confirm_payment series_id e s =
     (case en_user_id e of
        None \<Rightarrow> Inl forbidden
      | Some operator_id \<Rightarrow>
          (case series_get_by_id s series_id (en_locale_id e) of
             None \<Rightarrow> Inl series_not_found
           | Some series \<Rightarrow>
               (let occurrences = list_series_occurrences s series_id
                in if sr_status series = BS_CONFIRMED then Inr (with_occurrences occurrences series, s)
                   else raise_if (sr_status series \<noteq> BS_PENDING_PAYMENT \<or>
                       \<not> is_pending_payment_hold_active (sr_payment_hold_expires_at series) (en_now_utc e))
                     (bad_request BOOKING_SERIES_NOT_PENDING_PAYMENT)
                     (let s1 = update_series series_id (\<lambda>x. x\<lparr>se_status := BS_CONFIRMED,
                                 se_payment_hold_expires_at := None, se_updated_by_id := Some operator_id\<rparr>) s;
                          s2 = confirm_pending_series_bookings series_id s1
                      in Inr (with_occurrences (list_series_occurrences s2 series_id)
                           (series\<lparr>sr_status := BS_CONFIRMED, sr_payment_hold_expires_at := None,
                                   sr_confirmed_by_id := Some operator_id\<rparr>), s2)))))"

definition list_pending_payment :: "env \<Rightarrow> db \<Rightarrow> series list" where
  "list_pending_payment e s = list_pending_payment_series s (en_now_utc e)"

section \<open>Reads and titles\<close>

definition series_with_occurrences :: "env \<Rightarrow> db \<Rightarrow> uuid \<Rightarrow> exn + series_result" where
  "series_with_occurrences e s series_id =
     (case series_get_by_id s series_id (en_locale_id e) of
        None \<Rightarrow> Inl series_not_found
      | Some series \<Rightarrow> Inr (with_occurrences (list_series_occurrences s series_id) series))"

definition get_series :: "uuid \<Rightarrow> env \<Rightarrow> db \<Rightarrow> exn + series_result" where
  "get_series series_id e s = (case en_user_id e of None \<Rightarrow> Inl forbidden | Some u \<Rightarrow> series_with_occurrences e s series_id)"

definition raise_if_not_participant :: "env \<Rightarrow> db \<Rightarrow> series_result \<Rightarrow> exn + unit" where
  "raise_if_not_participant e s series =
     (case en_user_id e of
        None \<Rightarrow> Inl forbidden
      | Some viewer_id \<Rightarrow>
          raise_if (\<not> is_current_booking_participant viewer_id (sr_user_id series) (sr_ministry_id series)
              (list_owned_active s viewer_id)) series_not_found (Inr ()))"

definition get_my_series :: "uuid \<Rightarrow> env \<Rightarrow> db \<Rightarrow> exn + series_result" where
  "get_my_series series_id e s =
     bindE (get_series series_id e s) (\<lambda>series. bindE (raise_if_not_participant e s series) (\<lambda>_. Inr series))"

record participant_series_detail =
  psd_series :: series_result
  psd_payment_hold_expires_at :: "instant option"
  psd_booker_display_name :: "string option"
  psd_booker_email :: "string option"
  psd_is_booker :: bool
  psd_is_view_only :: bool
  psd_timeline :: "lifecycle_event list"
  psd_actions :: action_eligibility
  psd_occurrences :: "participant_detail list"

text \<open>
  The series offers a cancellation when one of its occurrences does; its start is that of its first
  occurrence, or its local start time.
\<close>

definition assemble_participant_series_detail ::
  "series_result \<Rightarrow> participant_detail list \<Rightarrow> uuid \<Rightarrow> instant \<Rightarrow> zone \<Rightarrow> participant_series_detail" where
  "assemble_participant_series_detail series occurrences viewer_id now facility_tz =
     (let is_booker = (sr_user_id series = viewer_id);
          start_at = (case occurrences of
              d # ds \<Rightarrow> bk_start_at (dt_row (pd_row d))
            | [] \<Rightarrow> from_local facility_tz (combine (sr_first_occurrence_date series) (sr_local_start_time series)));
          eligibility = booker_action_eligibility is_booker (sr_status series) start_at (sr_payment_hold_expires_at series)
                          now facility_tz True;
          can_cancel = (is_booker \<and> list_ex (\<lambda>d. ae_can_cancel (pd_actions d)) occurrences)
      in \<lparr>psd_series = series,
          psd_payment_hold_expires_at =
            (if ae_can_view_payment_instructions eligibility then sr_payment_hold_expires_at series else None),
          psd_booker_display_name = py_or (sr_user_display_name series)
            (case occurrences of d # ds \<Rightarrow> dt_user_display_name (pd_row d) | [] \<Rightarrow> None),
          psd_booker_email = py_or (sr_user_email series)
            (case occurrences of d # ds \<Rightarrow> Some (dt_user_email (pd_row d)) | [] \<Rightarrow> None),
          psd_is_booker = is_booker, psd_is_view_only = (\<not> is_booker),
          psd_timeline = build_booking_lifecycle_timeline (sr_status series) (sr_created_at series) None None,
          psd_actions = \<lparr>ae_can_edit_title = ae_can_edit_title eligibility, ae_can_cancel = can_cancel,
            ae_can_view_payment_instructions = ae_can_view_payment_instructions eligibility,
            ae_can_book_again = False, ae_book_again_date = None\<rparr>,
          psd_occurrences = occurrences\<rparr>)"

definition get_my_series_detail :: "uuid \<Rightarrow> instant option \<Rightarrow> env \<Rightarrow> db \<Rightarrow> exn + participant_series_detail" where
  "get_my_series_detail series_id now e s =
     bindE (get_my_series series_id e s) (\<lambda>series.
       case en_user_id e of
         None \<Rightarrow> Inl forbidden
       | Some viewer_id \<Rightarrow>
           (let browse_now = (case now of None \<Rightarrow> en_now_utc e | Some t \<Rightarrow> t);
                facility_tz = set_facility_timezone (en_settings e);
                details = concat (map (\<lambda>occ. case booking_get_detail s (or_id occ) (en_locale_id e) of None \<Rightarrow> [] | Some row \<Rightarrow> [row])
                            (sr_occurrences series));
                with_hold = (\<lambda>row. row\<lparr>dt_payment_hold_expires_at :=
                    (case dt_payment_hold_expires_at row of None \<Rightarrow> sr_payment_hold_expires_at series | Some h \<Rightarrow> Some h)\<rparr>);
                occurrences = map (\<lambda>row. assemble_participant_booking_detail (with_hold row) viewer_id browse_now facility_tz False)
                                details
            in Inr (assemble_participant_series_detail series occurrences viewer_id browse_now facility_tz)))"

text \<open>The column's length constraint is the one of a Booking title; \<open>onupdate\<close> writes the caller.\<close>

definition update_series_title :: "uuid \<Rightarrow> string \<Rightarrow> env \<Rightarrow> db \<Rightarrow> exn + db" where
  "update_series_title series_id title e s =
     raise_if (\<not> title_length_ok title \<and> list_ex (\<lambda>x. se_id x = series_id \<and> \<not> se_is_deleted x) (db_series s)) integrity
       (Inr (update_series series_id (\<lambda>x. x\<lparr>se_title := title, se_updated_by_id := Some (current_id e)\<rparr>) s))"

definition update_my_series_title :: "uuid \<Rightarrow> update_title_command \<Rightarrow> series_result handler" where
  "update_my_series_title series_id command e s =
     bindE (get_my_series series_id e s) (\<lambda>series.
       raise_if (Some (sr_user_id series) \<noteq> en_user_id e) forbidden
         (bindE (update_series_title (sr_id series) (ut_title command) e s) (\<lambda>s'.
            bindE (get_my_series series_id e s') (\<lambda>r. Inr (r, s')))))"

section \<open>Cancellation\<close>

definition is_cancellable :: "occurrence_result \<Rightarrow> instant \<Rightarrow> bool" where
  "is_cancellable occurrence now \<longleftrightarrow>
     or_status occurrence \<in> {BS_PENDING_PAYMENT, BS_CONFIRMED} \<and> or_start_at occurrence > now"

definition require_occurrence :: "occurrence_result list \<Rightarrow> uuid option \<Rightarrow> exn + occurrence_result" where
  "require_occurrence occurrences occurrence_id =
     (case occurrence_id of
        None \<Rightarrow> Inl (bad_request RECURRING_OCCURRENCE_REQUIRED)
      | Some i \<Rightarrow>
          (case List.find (\<lambda>item. or_id item = i) occurrences of
             None \<Rightarrow> Inl (not_found RECURRING_OCCURRENCE_NOT_FOUND CtxNone)
           | Some item \<Rightarrow> Inr item))"

definition cancellation_targets ::
  "occurrence_result list \<Rightarrow> cancel_series_command \<Rightarrow> instant \<Rightarrow> exn + occurrence_result list" where
  "cancellation_targets occurrences command now =
     (if xs_scope command = cancellation_scope_value CS_OCCURRENCE
      then bindE (require_occurrence occurrences (xs_occurrence_id command)) (\<lambda>occurrence.
             raise_if (or_start_at occurrence \<le> now) (bad_request RECURRING_HISTORICAL_OCCURRENCE)
               (Inr (if is_cancellable occurrence now then [occurrence] else [])))
      else if xs_scope command = cancellation_scope_value CS_THIS_AND_FUTURE
      then bindE (require_occurrence occurrences (xs_occurrence_id command)) (\<lambda>pivot.
             Inr (filter (\<lambda>item. or_start_at item \<ge> or_start_at pivot \<and> is_cancellable item now) occurrences))
      else Inr (filter (\<lambda>item. is_cancellable item now) occurrences))"

definition close_series :: "uuid \<Rightarrow> uuid \<Rightarrow> db \<Rightarrow> db" where
  "close_series series_id operator_id s =
     update_series series_id (\<lambda>x. x\<lparr>se_status := BS_CANCELLED, se_payment_hold_expires_at := None,
       se_updated_by_id := Some operator_id\<rparr>) s"

definition apply_cancellation :: "series_result \<Rightarrow> cancel_series_command \<Rightarrow> series_result handler" where
  "apply_cancellation series command e s =
     raise_if (xs_scope command \<notin> cancellation_scope_value ` {CS_OCCURRENCE, CS_THIS_AND_FUTURE, CS_ENTIRE_SERIES})
       (bad_request RECURRING_INVALID_CANCELLATION_SCOPE)
     (let now = en_now_utc e
      in bindE (cancellation_targets (sr_occurrences series) command now) (\<lambda>targets.
         case en_user_id e of
           None \<Rightarrow> Inl forbidden
         | Some operator_id \<Rightarrow>
             (let s1 = fold (\<lambda>occurrence. cancel_booking (en_repo_now e) (or_id occurrence) (Some operator_id)
                         (xs_cancel_reason command) True) targets s;
                  remaining_live = filter (\<lambda>item. is_cancellable item now) (list_series_occurrences s1 (sr_id series));
                  cancel_series = (xs_scope command = cancellation_scope_value CS_ENTIRE_SERIES \<or> remaining_live = []);
                  s2 = (if cancel_series \<and> sr_status series \<noteq> BS_CANCELLED then close_series (sr_id series) operator_id s1 else s1)
              in bindE (series_with_occurrences e s2 (sr_id series)) (\<lambda>r. Inr (r, s2)))))"

definition cancel_series :: "uuid \<Rightarrow> cancel_series_command \<Rightarrow> series_result handler" where
  "cancel_series series_id command e s =
     (case en_user_id e of
        None \<Rightarrow> Inl forbidden
      | Some u \<Rightarrow> bindE (series_with_occurrences e s series_id) (\<lambda>series. apply_cancellation series command e s))"

definition cancel_my_series :: "uuid \<Rightarrow> cancel_series_command \<Rightarrow> series_result handler" where
  "cancel_my_series series_id command e s =
     bindE (get_my_series series_id e s) (\<lambda>series.
       raise_if (Some (sr_user_id series) \<noteq> en_user_id e) forbidden
         (bindE (require_member_cancellation_reason (xs_cancel_reason command)) (\<lambda>cancel_reason.
            apply_cancellation series (command\<lparr>xs_cancel_reason := Some cancel_reason\<rparr>) e s)))"

section \<open>The impact of a blackout\<close>

definition preview_blackout_impact :: "blackout \<Rightarrow> env \<Rightarrow> db \<Rightarrow> blackout_impact" where
  "preview_blackout_impact b e s =
     (if \<not> bo_is_active b then \<lparr>bx_confirmation_required = False, bx_items = []\<rparr>
      else (let items = filter (\<lambda>occurrence. list_ex (\<lambda>facility_id.
                    interval_overlaps_blackout b facility_id (bi_start_at occurrence) (bi_end_at occurrence)
                      (set_facility_timezone (en_settings e))) (bi_facility_ids occurrence))
                  (list_live_future_series_occurrences s (en_sql_now e) (en_now_utc e))
            in \<lparr>bx_confirmation_required = (items \<noteq> []), bx_items = items\<rparr>))"

definition settle_series :: "env \<Rightarrow> uuid \<Rightarrow> db \<Rightarrow> uuid \<Rightarrow> exn + db" where
  "settle_series e operator_id s series_id =
     bindE (series_with_occurrences e s series_id) (\<lambda>series.
       let remaining_live = filter (\<lambda>item. is_cancellable item (en_now_utc e)) (sr_occurrences series)
       in Inr (if remaining_live = [] \<and> sr_status series \<noteq> BS_CANCELLED then close_series (sr_id series) operator_id s else s))"

text \<open>The set of series is visited in the order of the items; the visits touch different series.\<close>

definition apply_blackout_impact :: "blackout_impact_item list \<Rightarrow> string \<Rightarrow> blackout_impact handler" where
  "apply_blackout_impact items reason e s =
     (case en_user_id e of
        None \<Rightarrow> Inl forbidden
      | Some operator_id \<Rightarrow>
          (let series_ids = dict_fromkeys (map bi_series_id items);
               s1 = fold (\<lambda>occurrence. cancel_booking (en_repo_now e) (bi_id occurrence) (Some operator_id) (Some reason) True) items s
           in bindE (foldE (settle_series e operator_id) s1 series_ids) (\<lambda>s2.
                Inr (\<lparr>bx_confirmation_required = False, bx_items = items\<rparr>, s2))))"

section \<open>The expiry sweep\<close>

record sweep_result =
  sw_skipped :: bool
  sw_expired_series_ids :: "uuid list"
  sw_notifications :: "expiry_notification list"

definition expire_series :: "env \<Rightarrow> sweep_result \<times> db \<Rightarrow> series_result \<Rightarrow> sweep_result \<times> db" where
  "expire_series e acc series =
     (case acc of (r, s) \<Rightarrow>
       let pending_occurrences = filter (\<lambda>item. or_status item = BS_PENDING_PAYMENT) (list_series_occurrences s (sr_id series));
           s1 = update_series (sr_id series) (\<lambda>x. x\<lparr>se_status := BS_CANCELLED, se_updated_by_id := Some (current_id e)\<rparr>) s;
           s2 = fold (\<lambda>occurrence. cancel_booking (en_repo_now e) (or_id occurrence) None
                  (Some PENDING_PAYMENT_HOLD_EXPIRED_REASON) True) pending_occurrences s1
       in (r\<lparr>sw_expired_series_ids := sw_expired_series_ids r @ [sr_id series],
             sw_notifications := sw_notifications r @
               [\<lparr>xn_series_id = sr_id series, xn_booker_id = sr_user_id series, xn_quoted_amount = sr_quoted_amount series,
                 xn_currency = sr_currency series, xn_occurrences = pending_occurrences\<rparr>]\<rparr>, s2))"

text \<open>
  \<open>acquired\<close> is the answer of the advisory lock. A notifier that raises is logged and skipped, so the
  notifications are those attempted.
\<close>

definition expire_pending_holds :: "bool \<Rightarrow> env \<Rightarrow> db \<Rightarrow> sweep_result \<times> db" where
  "expire_pending_holds acquired e s =
     (if \<not> acquired then (\<lparr>sw_skipped = True, sw_expired_series_ids = [], sw_notifications = []\<rparr>, s)
      else foldl (expire_series e) (\<lparr>sw_skipped = False, sw_expired_series_ids = [], sw_notifications = []\<rparr>, s)
             (list_expired_pending_series s (en_now_utc e)))"

end
