(* ===== verification/Booking_Safety.thy ===== *)
theory Booking_Safety imports Booking_Service begin

text \<open>
  What the one-time booking service guarantees: exclusive use of the rooms, the well-formedness of the
  tables, who may be displaced, and what a member may touch.
\<close>

section \<open>Well-formed tables\<close>

text \<open>Every Booking has its booker, and the supply of ids is ahead of every id in use.\<close>

definition ids_below :: "db \<Rightarrow> bool" where
  "ids_below s \<longleftrightarrow>
     (\<forall>b\<in>set (db_bookings s). bk_id b < db_next_uuid s \<and> (\<forall>i\<in>set_option (bk_series_id b). i < db_next_uuid s)) \<and>
     (\<forall>sl\<in>set (db_slots s). sl_booking_id sl < db_next_uuid s) \<and>
     (\<forall>x\<in>set (db_series s). se_id x < db_next_uuid s)"

definition wf_db :: "db \<Rightarrow> bool" where
  "wf_db s \<longleftrightarrow> bookers_exist s \<and> ids_below s \<and> distinct (map bk_id (db_bookings s))"

lemma find_user_fk: "fk us_id (db_users s) (Some u) \<Longrightarrow> find_user s u \<noteq> None"
  by (auto simp: fk_def find_user_def list_ex_iff find_None_iff)

lemma wf_occupancy_fresh:
  assumes "wf_db s" "x \<in> occupancy s t"
  shows "fst x < db_next_uuid s"
  using assms by (auto simp: wf_db_def ids_below_def occupancy_def)

section \<open>Inserting a Booking with its rows\<close>

definition slot_facts :: "slot \<Rightarrow> holding" where
  "slot_facts sl = (sl_booking_id sl, sl_facility_id sl, sl_start_at sl, sl_end_at sl)"

definition line_holding :: "uuid \<Rightarrow> resolved_line \<Rightarrow> holding" where
  "line_holding i l = (i, ln_facility_id l, ln_start_at l, ln_end_at l)"

lemma new_rows_fold:
  "\<exists>rs' ss'. foldl (new_rows i) (rs, ss, s) zs = (rs', ss', s\<lparr>db_next_uuid := db_next_uuid s + 2 * int (length zs)\<rparr>) \<and>
     map slot_facts ss' = map slot_facts ss @ map (line_holding i \<circ> fst) zs \<and>
     (\<forall>sl\<in>set ss'. sl \<in> set ss \<or> sl_status sl = SS_CONFIRMED)"
proof (induction zs arbitrary: rs ss s)
  case Nil
  then show ?case by simp
next
  case (Cons z zs)
  obtain l q where z: "z = (l, q)" by (cases z)
  let ?rs = "rs @ [new_room_row (db_next_uuid s) i l q]" and ?ss = "ss @ [new_slot_row (db_next_uuid s + 1) i l]"
  let ?s = "s\<lparr>db_next_uuid := db_next_uuid s + 2\<rparr>"
  have step: "new_rows i (rs, ss, s) z = (?rs, ?ss, ?s)" by (simp add: new_rows_def z fresh_uuid_def)
  obtain rs' ss' where r: "foldl (new_rows i) (?rs, ?ss, ?s) zs = (rs', ss', ?s\<lparr>db_next_uuid := db_next_uuid ?s + 2 * int (length zs)\<rparr>)"
    "map slot_facts ss' = map slot_facts ?ss @ map (line_holding i \<circ> fst) zs"
    "\<forall>sl\<in>set ss'. sl \<in> set ?ss \<or> sl_status sl = SS_CONFIRMED"
    using Cons.IH [of ?rs ?ss ?s] by blast
  show ?case
  proof (intro exI conjI)
    show "foldl (new_rows i) (rs, ss, s) (z # zs) = (rs', ss', s\<lparr>db_next_uuid := db_next_uuid s + 2 * int (length (z # zs))\<rparr>)"
      unfolding foldl_Cons step r(1) by simp
    show "map slot_facts ss' = map slot_facts ss @ map (line_holding i \<circ> fst) (z # zs)"
      unfolding r(2) by (simp add: z slot_facts_def new_slot_row_def line_holding_def)
    show "\<forall>sl\<in>set ss'. sl \<in> set ss \<or> sl_status sl = SS_CONFIRMED"
      using r(3) by (auto simp: new_slot_row_def)
  qed
qed

lemma insert_with_rows_place:
  assumes "insert_with_rows b lines q s = Inr s'" "length (qt_room_lines q) = length lines"
  shows "\<exists>rooms slots. s' = place (b, rooms, slots) (s\<lparr>db_next_uuid := db_next_uuid s + 2 * int (length lines)\<rparr>) \<and>
    map slot_facts slots = map (line_holding (bk_id b)) lines \<and> (\<forall>sl\<in>set slots. sl_status sl = SS_CONFIRMED) \<and>
    booking_constraints s b"
proof -
  let ?s1 = "s\<lparr>db_bookings := db_bookings s @ [b]\<rparr>" and ?zs = "zip lines (qt_room_lines q)"
  obtain rs ss where f: "foldl (new_rows (bk_id b)) ([], [], ?s1) ?zs = (rs, ss, ?s1\<lparr>db_next_uuid := db_next_uuid s + 2 * int (length ?zs)\<rparr>)"
    "map slot_facts ss = map (line_holding (bk_id b) \<circ> fst) ?zs" "\<forall>sl\<in>set ss. sl_status sl = SS_CONFIRMED"
    using new_rows_fold [of "bk_id b" "[]" "[]" ?s1 ?zs] by auto
  have "map (line_holding (bk_id b) \<circ> fst) ?zs = map (line_holding (bk_id b)) lines"
    using assms(2) by (metis map_fst_zip map_map)
  with assms f show ?thesis
    by (intro exI [of _ rs] exI [of _ ss])
       (auto simp: insert_with_rows_def insert_booking_def replace_booking_rooms_def replace_booking_slots_def guard_simps place_def)
qed

lemma placement_of_slots:
  assumes "map slot_facts slots = map (line_holding (bk_id b)) lines"
  shows "placement_ok (b, rooms, slots)" "placement_wants (b, rooms, slots) = line_holding (bk_id b) ` set lines"
proof -
  have img: "slot_facts ` set slots = line_holding (bk_id b) ` set lines"
    using assms by (metis list.set_map)
  have own: "sl_booking_id sl = bk_id b" if "sl \<in> set slots" for sl
  proof -
    have "slot_facts sl \<in> line_holding (bk_id b) ` set lines" using that img by blast
    then show ?thesis by (auto simp: slot_facts_def line_holding_def)
  qed
  then show ok: "placement_ok (b, rooms, slots)" by (simp add: placement_ok_def)
  have "{(bk_id b, sl_facility_id sl, sl_start_at sl, sl_end_at sl) | sl. sl \<in> set slots} = slot_facts ` set slots"
    using own by (auto simp: slot_facts_def image_iff)
  with ok img show "placement_wants (b, rooms, slots) = line_holding (bk_id b) ` set lines"
    by (simp add: placement_wants_def)
qed

lemma wants_exclusive: "exclusive (line_holding i ` set lines)"
  by (rule exclusive_same_booking [of _ i]) (auto simp: line_holding_def)

lemma bump_occupancy: "occupancy (s\<lparr>db_next_uuid := n\<rparr>) t = occupancy s t"
  by (rule occupancy_cong) simp_all

lemma place_attains:
  assumes "map slot_facts slots = map (line_holding (bk_id b)) lines" "\<forall>sl\<in>set slots. sl_status sl = SS_CONFIRMED"
    "active_occupancy_clause s t b" "\<not> bk_is_deleted b"
  shows "line_holding (bk_id b) ` set lines \<subseteq> occupancy (place (b, rooms, slots) s) t"
proof
  fix h assume "h \<in> line_holding (bk_id b) ` set lines"
  then have "h \<in> slot_facts ` set slots" using assms(1) by (metis list.set_map)
  then obtain sl where sl: "sl \<in> set slots" "h = slot_facts sl" by blast
  have "sl_booking_id sl = bk_id b" using placement_of_slots(1) [OF assms(1)] sl(1) by (simp add: placement_ok_def)
  moreover have "active_occupancy_clause (place (b, rooms, slots) s) t b = active_occupancy_clause s t b"
    by (rule active_cong_series) (simp add: place_def)
  ultimately show "h \<in> occupancy (place (b, rooms, slots) s) t"
    unfolding sl(2) slot_facts_def using sl(1) assms(2-4) by (intro occupancyI) (simp_all add: place_def)
qed

section \<open>A successful creation\<close>

definition proposal_lines :: "create_booking_command \<Rightarrow> resolved_line list" where
  "proposal_lines command = resolve_booking_lines (cb_rooms command) (cb_start_at command) (cb_end_at command)"

definition proposal_context :: "db \<Rightarrow> create_booking_command \<Rightarrow> uuid \<Rightarrow> ministry_context option" where
  "proposal_context s command booker_id =
     (case cb_ministry_id command of None \<Rightarrow> None | Some i \<Rightarrow> load_ministry_proposal_context s i booker_id)"

definition proposal_evaluation :: "env \<Rightarrow> db \<Rightarrow> create_booking_command \<Rightarrow> uuid \<Rightarrow> evaluation" where
  "proposal_evaluation e s command booker_id =
     evaluate_one_time_occupancy e s (proposal_lines command) (proposal_context s command booker_id) (en_now_utc e)
       (set_facility_timezone (en_settings e)) (cb_allow_priority_override command) (en_locale_id e)"

definition proposal_quote_command :: "create_booking_command \<Rightarrow> uuid \<Rightarrow> preview_quote_command" where
  "proposal_quote_command command booker_id =
     \<lparr>pq_booking_type = BT_ONE_TIME, pq_currency = ''CAD'', pq_as_of_date = None,
      pq_room_lines = map quote_line_of (proposal_lines command), pq_surcharge_codes = cb_surcharge_codes command,
      pq_ministry_id = cb_ministry_id command, pq_booker_id = Some booker_id\<rparr>"

lemma create_booking_Inr:
  assumes "create_booking c secret command e s = Inr (i, s')"
  obtains operator booker draft title q s1 where
    "en_user_id e = Some operator" "booker = booker_of (cb_user_id command) operator" "cb_rooms command \<noteq> []"
    "validate_ministry_booking_gate e s (cb_ministry_id command) (Some booker) = Inr ()"
    "validate_booking_lines (proposal_lines command) (set_facility_timezone (en_settings e)) = Inr ()"
    "ev_conflicts (proposal_evaluation e s command booker) = []"
    "forE (\<lambda>line. raise_if_room_closed s (ln_facility_id line) (ln_start_at line) (ln_end_at line)
       (set_facility_timezone (en_settings e)) (cb_enforce_opening_hours command)) (proposal_lines command) = Inr ()"
    "require_reviewed_override c secret (cb_override_review_token command) booker (cb_ministry_id command)
       (one_time_proposal (proposal_lines command)) (ev_impacts (proposal_evaluation e s command booker)) = Inr ()"
    "preview_quote e s (proposal_quote_command command booker) = Inr q"
    "i = db_next_uuid s"
    "insert_with_rows (new_booking e command booker title (proposal_lines command) q i) (proposal_lines command) q
       (s\<lparr>db_next_uuid := db_next_uuid s + 1\<rparr>) = Inr s1"
    "s' = delete_own_draft command draft booker
       (displace_targets (proposal_evaluation e s command booker) (proposal_context s command booker) i operator e s1)"
proof -
  obtain operator where op: "en_user_id e = Some operator"
    using assms by (auto simp: create_booking_def guard_simps split: option.splits)
  show ?thesis
    using assms unfolding create_booking_def op Let_def fresh_uuid_def option.case prod.case guard_simps
      proposal_lines_def [symmetric] proposal_context_def [symmetric] proposal_evaluation_def [symmetric]
      proposal_quote_command_def [symmetric]
    by (elim exE conjE) (rule that [OF op refl]; (simp; fail)?; force)
qed

text \<open>Displacement and the draft touch the occupancy only by releasing the targets.\<close>

lemma displace_occupancy:
  "occupancy (displace_targets ev ctx i op e s) t =
     (case ctx of None \<Rightarrow> occupancy s t | Some c \<Rightarrow> {x \<in> occupancy s t. fst x \<notin> target_booking_id ` set (ev_targets ev)})"
proof (cases ctx)
  case None
  then show ?thesis by (simp add: displace_targets_def)
next
  case (Some c)
  obtain items s' where r: "apply_whole_booking_overrides (map (Pair i) (ev_targets ev)) op e s = (items, s')"
    by (cases "apply_whole_booking_overrides (map (Pair i) (ev_targets ev)) op e s")
  have "occupancy s' t = {x \<in> occupancy s t. fst x \<notin> target_booking_id ` set (ev_targets ev)}"
    using apply_overrides_occupancy [of "map (Pair i) (ev_targets ev)" op e s t] by (simp add: r image_image)
  then show ?thesis by (simp add: displace_targets_def Some r notify_occupancy)
qed

lemma draft_occupancy: "occupancy (delete_own_draft command draft b s) t = occupancy s t"
  by (rule occupancy_cong) (simp_all add: delete_own_draft_def draft_delete_def split: option.splits)

lemma no_targets_without_context:
  "ctx = None \<Longrightarrow> ev_targets (evaluate_one_time_occupancy e s lines ctx now tz allow loc) = []"
proof -
  assume "ctx = None"
  then have "target_booking_id ` set (ev_targets (evaluate_one_time_occupancy e s lines ctx now tz allow loc)) = {}"
    unfolding target_ids by (simp add: can_override_for_def overridable_def)
  then show ?thesis by simp
qed

text \<open>A holding that clashes with a line of a conflict-free proposal belongs to a target.\<close>

lemma clash_is_target:
  assumes "bookers_exist s" "ev_conflicts (evaluate_one_time_occupancy e s lines ctx now tz allow loc) = []"
    and "x \<in> occupancy s (en_sql_now e)" "y \<in> line_holding i ` set lines" "clash x y"
  shows "fst x \<in> target_booking_id ` set (ev_targets (evaluate_one_time_occupancy e s lines ctx now tz allow loc))"
proof -
  obtain l where l: "l \<in> set lines" "y = line_holding i l" using assms(4) by auto
  obtain j f a b where x: "x = (j, f, a, b)" by (cases x)
  have o: "(j, ln_facility_id l, a, b) \<in> occupancy s (en_sql_now e)" "a < ln_end_at l" "ln_start_at l < b"
    using assms(3,5) by (auto simp: x l(2) line_holding_def clash_def)
  obtain r where r: "r \<in> set (line_rows s (en_sql_now e) loc l)" "oc_booking_id r = j"
    using occupancy_reported [OF assms(1) o, of loc] by (auto simp: line_rows_def)
  with l(1) assms(2) have "overridable (can_override_for allow ctx) now r" unfolding conflict_free_iff by blast
  with l(1) r show ?thesis unfolding target_ids x by auto
qed

section \<open>Operations that keep the rows\<close>

text \<open>Updates rewrite rows in place: keys, bookers and series stay, and the supply of ids only grows.\<close>

definition keeps_rows :: "db \<Rightarrow> db \<Rightarrow> bool" where
  "keeps_rows s s' \<longleftrightarrow>
     map (\<lambda>b. (bk_id b, bk_user_id b, bk_series_id b)) (db_bookings s') = map (\<lambda>b. (bk_id b, bk_user_id b, bk_series_id b)) (db_bookings s) \<and>
     map sl_booking_id (db_slots s') = map sl_booking_id (db_slots s) \<and>
     map se_id (db_series s') = map se_id (db_series s) \<and>
     db_users s' = db_users s \<and> db_next_uuid s \<le> db_next_uuid s'"

lemma keeps_rows_refl [simp]: "keeps_rows s s" by (simp add: keeps_rows_def)

lemma keeps_rows_trans: "keeps_rows s s' \<Longrightarrow> keeps_rows s' s'' \<Longrightarrow> keeps_rows s s''"
  by (simp add: keeps_rows_def)

lemma keeps_rows_wf:
  assumes "keeps_rows s s'" "wf_db s"
  shows "wf_db s'"
proof -
  have sets: "(\<lambda>b. (bk_id b, bk_user_id b, bk_series_id b)) ` set (db_bookings s') = (\<lambda>b. (bk_id b, bk_user_id b, bk_series_id b)) ` set (db_bookings s)"
    "sl_booking_id ` set (db_slots s') = sl_booking_id ` set (db_slots s)" "se_id ` set (db_series s') = se_id ` set (db_series s)"
    using assms(1) unfolding keeps_rows_def by (simp_all only: list.set_map [symmetric])
  have n: "db_next_uuid s \<le> db_next_uuid s'" "db_users s' = db_users s" using assms(1) by (simp_all add: keeps_rows_def)
  have "map bk_id (db_bookings s') = map bk_id (db_bookings s)"
    using arg_cong [of _ _ "map fst", OF conjunct1 [OF assms(1) [unfolded keeps_rows_def]]] by (simp add: comp_def)
  moreover have "bookers_exist s'" unfolding bookers_exist_def
  proof
    fix b assume "b \<in> set (db_bookings s')"
    then obtain b0 where "b0 \<in> set (db_bookings s)" "bk_user_id b = bk_user_id b0" using sets(1) by (force simp: image_iff)
    then show "find_user s' (bk_user_id b) \<noteq> None" using assms(2) n(2) by (simp add: wf_db_def bookers_exist_def find_user_def)
  qed
  moreover have "ids_below s'" unfolding ids_below_def
  proof (intro conjI ballI)
    fix b assume "b \<in> set (db_bookings s')"
    then obtain b0 where b0: "b0 \<in> set (db_bookings s)" "bk_id b = bk_id b0" "bk_series_id b = bk_series_id b0"
      using sets(1) by (force simp: image_iff)
    then have "bk_id b0 < db_next_uuid s" using assms(2) by (simp add: wf_db_def ids_below_def)
    then show "bk_id b < db_next_uuid s'" using b0 n(1) by simp
    fix i assume "i \<in> set_option (bk_series_id b)"
    then have "i < db_next_uuid s" using assms(2) b0 by (simp add: wf_db_def ids_below_def)
    then show "i < db_next_uuid s'" using n(1) by simp
  next
    fix sl assume "sl \<in> set (db_slots s')"
    then obtain sl0 where "sl0 \<in> set (db_slots s)" "sl_booking_id sl = sl_booking_id sl0" using sets(2) by (force simp: image_iff)
    then show "sl_booking_id sl < db_next_uuid s'" using assms(2) n(1) by (force simp: wf_db_def ids_below_def)
  next
    fix x assume "x \<in> set (db_series s')"
    then obtain x0 where "x0 \<in> set (db_series s)" "se_id x = se_id x0" using sets(3) by (force simp: image_iff)
    then show "se_id x < db_next_uuid s'" using assms(2) n(1) by (force simp: wf_db_def ids_below_def)
  qed
  ultimately show ?thesis using assms(2) by (simp add: wf_db_def)
qed

lemma keeps_rows_repository:
  "keeps_rows s (override_booking now i by_id reason s)"
  "keeps_rows s (cancel_booking now i by_id reason cs s)"
  "keeps_rows s (confirm_pending_series_bookings i s)"
  "(\<And>x. se_id (f x) = se_id x) \<Longrightarrow> keeps_rows s (update_series i f s)"
  "update_booking_title i title s = Inr s' \<Longrightarrow> keeps_rows s s'"
  "keeps_rows s (insert_logs rows s)"
  "keeps_rows s (draft_delete s i)"
  "keeps_rows s (snd (fresh_uuid s))"
  "keeps_rows s (notify_displaced_bookers_after_commit items m en zh a sid s)"
  by (auto simp: keeps_rows_def override_booking_def cancel_booking_def release_slots_def confirm_pending_series_bookings_def
      update_series_def update_booking_title_def guard_simps insert_logs_def draft_delete_def fresh_uuid_def
      notify_displaced_bookers_after_commit_def map_update_where Let_def)

lemma keeps_rows_log_rows: "keeps_rows (oa_db a) (oa_db (foldl (add_log_row rb b op) a fs))"
proof (induction fs arbitrary: a)
  case Nil
  then show ?case by simp
next
  case (Cons f fs)
  have "keeps_rows (oa_db a) (oa_db (add_log_row rb b op a f))" by (simp add: add_log_row_def fresh_uuid_def keeps_rows_def)
  from keeps_rows_trans [OF this Cons] show ?case by simp
qed

lemma keeps_rows_apply: "keeps_rows (oa_db a) (oa_db (foldl (apply_override now op) a rs))"
proof (induction rs arbitrary: a)
  case Nil
  then show ?case by simp
next
  case (Cons r rs)
  obtain rb tg where r: "r = (rb, tg)" by (cases r)
  have "keeps_rows (oa_db a) (oa_db (apply_override now op a r))"
    unfolding apply_override_def r prod.case Let_def
    by (rule keeps_rows_trans [OF _ keeps_rows_log_rows]) (simp add: keeps_rows_repository)
  from keeps_rows_trans [OF this Cons] show ?case by simp
qed

lemma keeps_rows_overrides: "keeps_rows s (snd (apply_whole_booking_overrides rs op e s))"
  using keeps_rows_apply [of "\<lparr>oa_db = s, oa_log_rows = [], oa_items = [], oa_overridden_ids = []\<rparr>" "en_repo_now e" op rs]
  by (auto simp: apply_whole_booking_overrides_def Let_def intro: keeps_rows_trans [OF _ keeps_rows_repository(6)])

lemma keeps_rows_displace: "keeps_rows s (displace_targets ev ctx i op e s)"
  using keeps_rows_overrides [of s "map (Pair i) (ev_targets ev)" op e]
  by (auto simp: displace_targets_def split: option.splits prod.splits intro: keeps_rows_trans [OF _ keeps_rows_repository(9)])

lemma keeps_rows_draft: "keeps_rows s (delete_own_draft command draft b s)"
  by (auto simp: delete_own_draft_def keeps_rows_repository split: option.splits)

text \<open>Placing a Booking whose id is fresh keeps the tables well-formed.\<close>

lemma wf_place:
  assumes "wf_db s" "bk_id b = i" "\<forall>b'\<in>set (db_bookings s). bk_id b' \<noteq> i" "i < db_next_uuid s" "placement_ok (b, rooms, slots)"
    "fk us_id (db_users s) (Some (bk_user_id b))" "\<forall>j\<in>set_option (bk_series_id b). j < db_next_uuid s"
  shows "wf_db (place (b, rooms, slots) s)"
proof -
  have "bookers_exist (place (b, rooms, slots) s)"
    using assms(1) find_user_fk [OF assms(6)] by (auto simp: wf_db_def bookers_exist_def place_def find_user_def)
  moreover have "ids_below (place (b, rooms, slots) s)"
    using assms by (auto simp: wf_db_def ids_below_def place_def placement_ok_def)
  moreover have "distinct (map bk_id (db_bookings (place (b, rooms, slots) s)))"
    using assms by (auto simp: wf_db_def place_def)
  ultimately show ?thesis by (simp add: wf_db_def)
qed

section \<open>Creation: lemmas\<close>

lemma wf_fresh: "wf_db s \<Longrightarrow> \<forall>b\<in>set (db_bookings s). bk_id b \<noteq> db_next_uuid s"
  by (auto simp: wf_db_def ids_below_def)

lemma bookers_exist_cong:
  "db_bookings s' = db_bookings s \<Longrightarrow> db_users s' = db_users s \<Longrightarrow> bookers_exist s' = bookers_exist s"
  by (simp add: bookers_exist_def find_user_def)

lemma new_booking_fields [simp]:
  "bk_id (new_booking e command booker title lines q i) = i"
  "bk_status (new_booking e command booker title lines q i) = BS_CONFIRMED"
  "\<not> bk_is_deleted (new_booking e command booker title lines q i)"
  "bk_series_id (new_booking e command booker title lines q i) = None"
  "bk_user_id (new_booking e command booker title lines q i) = booker"
  by (simp_all add: new_booking_def)

text \<open>
  The tables after the inserts of a Booking with the next free id: the new Booking, with exactly the intervals of
  its lines, which it holds as soon as it counts as an occupant.
\<close>

lemma insert_places:
  assumes "wf_db s" "bk_id b = db_next_uuid s" "\<not> bk_is_deleted b" "\<forall>j\<in>set_option (bk_series_id b). j < db_next_uuid s"
    and len: "length (qt_room_lines q) = length lines"
    and ins: "insert_with_rows b lines q (s\<lparr>db_next_uuid := db_next_uuid s + 1\<rparr>) = Inr s1"
  shows "\<exists>n rooms slots. s1 = place (b, rooms, slots) (s\<lparr>db_next_uuid := n\<rparr>) \<and> db_next_uuid s < n \<and> wf_db s1 \<and>
    (active_occupancy_clause s t b \<longrightarrow> line_holding (bk_id b) ` set lines \<subseteq> occupancy s1 t) \<and>
    occupancy s1 t \<subseteq> occupancy s t \<union> line_holding (bk_id b) ` set lines \<and> occupancy s t \<subseteq> occupancy s1 t"
proof -
  let ?i = "db_next_uuid s"
  obtain rooms slots where p: "s1 = place (b, rooms, slots) (s\<lparr>db_next_uuid := ?i + 1 + 2 * int (length lines)\<rparr>)"
    "map slot_facts slots = map (line_holding (bk_id b)) lines" "\<forall>sl\<in>set slots. sl_status sl = SS_CONFIRMED"
    "booking_constraints (s\<lparr>db_next_uuid := ?i + 1\<rparr>) b"
    using insert_with_rows_place [OF ins len] by auto
  let ?s0 = "s\<lparr>db_next_uuid := ?i + 1 + 2 * int (length lines)\<rparr>"
  note wants = placement_of_slots [OF p(2), of rooms]
  have wf0: "wf_db ?s0" by (rule keeps_rows_wf [OF _ assms(1)]) (simp add: keeps_rows_def)
  have "fk us_id (db_users s) (Some (bk_user_id b))" using p(4) by (simp add: booking_constraints_def)
  then have wf: "wf_db s1"
    unfolding p(1) using wf_fresh [OF assms(1)] assms(2,4) by (intro wf_place [OF wf0, of _ ?i] wants(1)) auto
  have "occupancy s1 t \<subseteq> occupancy s t \<union> line_holding (bk_id b) ` set lines"
    using occupancy_place [of "(b, rooms, slots)" ?s0 t] wants(2) by (simp add: p(1) bump_occupancy)
  moreover have "line_holding (bk_id b) ` set lines \<subseteq> occupancy s1 t" if "active_occupancy_clause s t b"
  proof -
    have "active_occupancy_clause ?s0 t b = active_occupancy_clause s t b" by (rule active_cong_series) simp
    then show ?thesis using place_attains [OF p(2,3) _ assms(3), of ?s0 t rooms] that by (simp add: p(1))
  qed
  moreover have "occupancy s t \<subseteq> occupancy s1 t"
  proof
    fix x assume x: "x \<in> occupancy s t"
    have act: "active_occupancy_clause s1 t c = active_occupancy_clause s t c" for c
      by (rule active_cong_series) (simp add: p(1) place_def)
    from x obtain sl c where sc: "x = (bk_id c, sl_facility_id sl, sl_start_at sl, sl_end_at sl)" "sl \<in> set (db_slots s)"
        "sl_status sl = SS_CONFIRMED" "c \<in> set (db_bookings s)" "bk_id c = sl_booking_id sl" "\<not> bk_is_deleted c"
        "active_occupancy_clause s t c"
      by (auto simp: occupancy_def)
    have "bk_id c \<noteq> bk_id b" using wf_fresh [OF assms(1)] sc(4) assms(2) by metis
    then show "x \<in> occupancy s1 t"
      unfolding sc(1,5) using sc by (intro occupancyI) (simp_all add: act, simp_all add: p(1) place_def)
  qed
  moreover have "?i < ?i + 1 + 2 * int (length lines)" by linarith
  ultimately show ?thesis using p(1) wf by (intro exI conjI impI)
qed

lemma created_placement:
  assumes "wf_db s" and q: "preview_quote e s (proposal_quote_command command booker) = Inr q"
    and ins: "insert_with_rows (new_booking e command booker title (proposal_lines command) q (db_next_uuid s))
      (proposal_lines command) q (s\<lparr>db_next_uuid := db_next_uuid s + 1\<rparr>) = Inr s1"
  shows "\<exists>n rooms slots. s1 = place (new_booking e command booker title (proposal_lines command) q (db_next_uuid s), rooms, slots)
      (s\<lparr>db_next_uuid := n\<rparr>) \<and> wf_db s1 \<and>
    line_holding (db_next_uuid s) ` set (proposal_lines command) \<subseteq> occupancy s1 t \<and>
    occupancy s1 t \<subseteq> occupancy s t \<union> line_holding (db_next_uuid s) ` set (proposal_lines command) \<and>
    occupancy s t \<subseteq> occupancy s1 t"
proof -
  have len: "length (qt_room_lines q) = length (proposal_lines command)"
    using preview_quote_lines [OF q] by (simp add: proposal_quote_command_def)
  show ?thesis
    using insert_places [OF assms(1) _ _ _ len ins, of t] by (auto simp: active_occupancy_clause_def)
qed

lemma context_of_targets:
  "proposal_context s command booker = None \<Longrightarrow> ev_targets (proposal_evaluation e s command booker) = []"
  by (simp add: proposal_evaluation_def no_targets_without_context)

lemma targets_held:
  assumes "i \<in> target_booking_id ` set (ev_targets (proposal_evaluation e s command booker))"
  shows "\<exists>b\<in>set (db_bookings s). bk_id b = i \<and> bk_ministry_id b = None \<and> en_now_utc e < bk_start_at b \<and>
    can_override_for (cb_allow_priority_override command) (proposal_context s command booker)"
proof -
  obtain l r where r: "r \<in> set (line_rows s (en_sql_now e) (en_locale_id e) l)" "oc_booking_id r = i"
      "overridable (can_override_for (cb_allow_priority_override command) (proposal_context s command booker)) (en_now_utc e) r"
    using assms unfolding proposal_evaluation_def target_ids by auto
  from reported_occupancy [OF r(1) [unfolded line_rows_def]] r(2,3) show ?thesis
    by (auto simp: occupying_rows_iff overridable_def)
qed

section \<open>Creation: properties\<close>

lemma create_booking_exclusive:
  assumes "wf_db s" and "exclusive (occupancy s (en_sql_now e))"
    and "create_booking c secret command e s = Inr (i, s')"
  shows "wf_db s' \<and> exclusive (occupancy s' (en_sql_now e)) \<and>
    line_holding i ` set (proposal_lines command) \<subseteq> occupancy s' (en_sql_now e) \<and>
    (\<forall>x \<in> occupancy s (en_sql_now e) - occupancy s' (en_sql_now e). 
       fst x \<in> target_booking_id ` set (ev_targets (proposal_evaluation e s command (booker_of (cb_user_id command) (the (en_user_id e))))))"
proof -
  from assms(3) obtain operator booker draft title q s1 where
    op: "en_user_id e = Some operator" and bo: "booker = booker_of (cb_user_id command) operator" and
    "cb_rooms command \<noteq> []" "validate_ministry_booking_gate e s (cb_ministry_id command) (Some booker) = Inr ()"
    "validate_booking_lines (proposal_lines command) (set_facility_timezone (en_settings e)) = Inr ()" and
    free: "ev_conflicts (proposal_evaluation e s command booker) = []" and
    "forE (\<lambda>line. raise_if_room_closed s (ln_facility_id line) (ln_start_at line) (ln_end_at line)
       (set_facility_timezone (en_settings e)) (cb_enforce_opening_hours command)) (proposal_lines command) = Inr ()"
    "require_reviewed_override c secret (cb_override_review_token command) booker (cb_ministry_id command)
       (one_time_proposal (proposal_lines command)) (ev_impacts (proposal_evaluation e s command booker)) = Inr ()" and
    q: "preview_quote e s (proposal_quote_command command booker) = Inr q" and i: "i = db_next_uuid s" and
    ins: "insert_with_rows (new_booking e command booker title (proposal_lines command) q i) (proposal_lines command) q
       (s\<lparr>db_next_uuid := db_next_uuid s + 1\<rparr>) = Inr s1" and
    s': "s' = delete_own_draft command draft booker
       (displace_targets (proposal_evaluation e s command booker) (proposal_context s command booker) i operator e s1)"
    by (rule create_booking_Inr)
  let ?t = "en_sql_now e" and ?ev = "proposal_evaluation e s command booker" and ?W = "line_holding i ` set (proposal_lines command)"
  let ?T = "target_booking_id ` set (ev_targets ?ev)"
  obtain n rooms slots where p: "wf_db s1" "?W \<subseteq> occupancy s1 ?t" "occupancy s1 ?t \<subseteq> occupancy s ?t \<union> ?W" "occupancy s ?t \<subseteq> occupancy s1 ?t"
    using created_placement [OF assms(1) q ins [unfolded i], of ?t] unfolding i by blast
  have occ: "occupancy s' ?t = {x \<in> occupancy s1 ?t. fst x \<notin> ?T}"
    using context_of_targets [of s command booker e] by (auto simp: s' draft_occupancy displace_occupancy split: option.splits)
  have be: "bookers_exist s" using assms(1) by (simp add: wf_db_def)
  have old: "j < i" if "j \<in> ?T" for j using targets_held [OF that] assms(1) by (auto simp: i wf_db_def ids_below_def)
  have "exclusive ({x \<in> occupancy s ?t. fst x \<notin> ?T} \<union> ?W)"
    unfolding exclusive_Un
  proof (intro conjI ballI wants_exclusive)
    show "exclusive {x \<in> occupancy s ?t. fst x \<notin> ?T}" by (rule exclusive_mono [OF assms(2)]) auto
    show "\<not> clash x y" if "x \<in> {x \<in> occupancy s ?t. fst x \<notin> ?T}" "y \<in> ?W" for x y
      using clash_is_target [OF be free [unfolded proposal_evaluation_def], of x y i] that by (auto simp: proposal_evaluation_def)
  qed
  then have "exclusive (occupancy s' ?t)" by (rule exclusive_mono) (use occ p(3) in auto)
  moreover have "i \<notin> ?T" using old [of i] by blast
  then have "?W \<subseteq> occupancy s' ?t" using p(2) unfolding occ by (fastforce simp: line_holding_def)
  moreover have "wf_db s'"
    unfolding s' by (rule keeps_rows_wf [OF keeps_rows_trans [OF keeps_rows_displace keeps_rows_draft] p(1)])
  moreover have "\<forall>x \<in> occupancy s ?t - occupancy s' ?t. fst x \<in> ?T" using occ p(4) by auto
  ultimately show ?thesis by (simp add: op bo)
qed

text \<open>C3. No double booking: where no two Bookings hold a room at overlapping times, a successful creation leaves it so, and
  the new Booking holds every interval it asked for; the tables stay well-formed, and every holding that is gone
  belonged to a displaced Booking.\<close>

theorem create_booking_keeps_rooms_exclusive:
  assumes "wf_db s" and "exclusive (occupancy s (en_sql_now e))"
    and "create_booking c secret command e s = Inr (i, s')"
  shows "wf_db s' \<and> exclusive (occupancy s' (en_sql_now e)) \<and>
    line_holding i ` set (proposal_lines command) \<subseteq> occupancy s' (en_sql_now e) \<and>
    (\<forall>x \<in> occupancy s (en_sql_now e) - occupancy s' (en_sql_now e). 
       fst x \<in> target_booking_id ` set (ev_targets (proposal_evaluation e s command (booker_of (cb_user_id command) (the (en_user_id e))))))"
  by (rule create_booking_exclusive [OF assms])

text \<open>The digests of the samples are single characters, which keeps a token short.\<close>

definition short_crypto :: crypto where
  "short_crypto = \<lparr>cy_sha256_hex = (\<lambda>s. ''d''), cy_hmac_sha256 = (\<lambda>secret body. ''h''),
     cy_loads_b64 = (\<lambda>b. Some \<lparr>py_v = Some 1, py_c = Some ''d'', py_t = Some [(''d'', ''d'')]\<rparr>)\<rparr>"

text \<open>The member books the hall from 18:00 to 20:00 on the day it is taken from 14:00 to 16:00.\<close>

definition sample_create :: create_booking_command where
  "sample_create =
     \<lparr>cb_title = Some ''Rehearsal'', cb_start_at = moment 2026 6 1 18 0, cb_end_at = moment 2026 6 1 20 0,
      cb_ministry_id = None, cb_user_id = None,
      cb_rooms = [\<lparr>rc_facility_id = hall_id, rc_start_at = None, rc_end_at = None, rc_sequence = 0\<rparr>],
      cb_surcharge_codes = [], cb_remark = None, cb_booking_draft_id = None, cb_enforce_opening_hours = True,
      cb_allow_priority_override = True, cb_override_review_token = None\<rparr>"

lemma sample_create_returns:
  "inr_sat (create_booking short_crypto ''secret'' sample_create (sample_env member_id (moment 2026 5 1 0 0)) sample_taken)
     (\<lambda>(i, s'). i = 1000 \<and> length (db_bookings s') = 2)"
  by code_simp

text \<open>Two hours earlier it clashes with the hall being taken.\<close>

lemma sample_create_refused:
  "create_booking short_crypto ''secret'' (sample_create\<lparr>cb_start_at := moment 2026 6 1 15 0\<rparr>)
     (sample_env member_id (moment 2026 5 1 0 0)) sample_taken =
   Inl (scheduling_conflict [\<lparr>bc_facility_id = hall_id, bc_start_at = moment 2026 6 1 15 0, bc_end_at = moment 2026 6 1 20 0,
     bc_kind = KOCCUPANCY, bc_ministry_name = None, bc_contact_display_name = None, bc_contact_email = None\<rparr>])"
  by code_simp

lemma sample_taken_wf: "wf_db sample_taken"
  unfolding wf_db_def bookers_exist_def by code_simp

lemma single_booking_exclusive:
  assumes "db_bookings s = [b]" shows "exclusive (occupancy s t)"
  by (rule exclusive_same_booking [of _ "bk_id b"]) (auto simp: occupancy_def assms)

lemma sample_taken_exclusive: "exclusive (occupancy sample_taken t)"
  by (rule single_booking_exclusive) (simp add: sample_taken_def)

theorem create_booking_keeps_rooms_exclusive_witness:
  "\<exists>i s'. create_booking short_crypto ''secret'' sample_create (sample_env member_id (moment 2026 5 1 0 0)) sample_taken = Inr (i, s') \<and>
     exclusive (occupancy s' (moment 2026 5 1 0 0))"
proof -
  obtain i s' where r: "create_booking short_crypto ''secret'' sample_create (sample_env member_id (moment 2026 5 1 0 0)) sample_taken = Inr (i, s')"
    using sample_create_returns unfolding inr_sat_eq by (auto split: prod.splits)
  from create_booking_keeps_rooms_exclusive [OF sample_taken_wf sample_taken_exclusive r] r show ?thesis
    by (auto simp: sample_env_def)
qed

section \<open>Who loses a Booking\<close>

lemma applied_frame:
  "filter (\<lambda>b. bk_id b \<notin> (target_booking_id \<circ> snd) ` set rs) (db_bookings (snd (apply_whole_booking_overrides rs op e s))) =
   filter (\<lambda>b. bk_id b \<notin> (target_booking_id \<circ> snd) ` set rs) (db_bookings s)"
  using other_bookings [of rs "en_repo_now e" op "\<lparr>oa_db = s, oa_log_rows = [], oa_items = [], oa_overridden_ids = []\<rparr>"]
  by (simp only: apply_whole_booking_overrides_def Let_def snd_conv insert_logs_def override_acc.select_convs split: if_split) simp

lemma displace_frame:
  assumes "b \<in> set (db_bookings s)" "bk_id b \<notin> target_booking_id ` set (ev_targets ev)"
  shows "b \<in> set (db_bookings (displace_targets ev ctx i op e s))"
proof -
  have "(target_booking_id \<circ> snd) ` set (map (Pair i) (ev_targets ev)) = target_booking_id ` set (ev_targets ev)"
    by (simp add: image_image)
  with assms applied_frame [of "map (Pair i) (ev_targets ev)" op e s]
  have "b \<in> set (db_bookings (snd (apply_whole_booking_overrides (map (Pair i) (ev_targets ev)) op e s)))"
    by (metis (no_types, lifting) mem_Collect_eq set_filter)
  with assms(1) show ?thesis
    by (auto simp: displace_targets_def notify_displaced_bookers_after_commit_def split: option.splits prod.splits)
qed

lemma can_override_context:
  "can_override_for allow (proposal_context s command booker) \<longleftrightarrow>
     allow \<and> (\<exists>m x. cb_ministry_id command = Some m \<and> find_ministry s m = Some x \<and> mi_status x = MS_ACTIVE \<and>
       mi_has_priority_booking x \<and> is_user_booking_member s m booker)"
  by (auto simp: can_override_for_def proposal_context_def load_ministry_proposal_context_def split: option.splits prod.splits)

text \<open>C4. A creation takes a Booking from its holder only on these terms: the creator acts for an Active ministry with priority
  of which the booker is a current steward, an acknowledgement was submitted, and the Booking is personal and has not
  started; every other Booking comes through unchanged.\<close>

theorem create_booking_displaces_only_on_terms:
  assumes "wf_db s" and "create_booking c secret command e s = Inr (i, s')" and "b \<in> set (db_bookings s)"
  shows "b \<in> set (db_bookings s') \<or>
    bk_ministry_id b = None \<and> en_now_utc e < bk_start_at b \<and> cb_allow_priority_override command \<and>
    truthy (cb_override_review_token command) \<and>
    (\<exists>m x. cb_ministry_id command = Some m \<and> find_ministry s m = Some x \<and> mi_status x = MS_ACTIVE \<and>
       mi_has_priority_booking x \<and> is_user_booking_member s m (booker_of (cb_user_id command) (the (en_user_id e))))"
proof -
  from assms(2) obtain operator booker draft title q s1 where
    op: "en_user_id e = Some operator" and bo: "booker = booker_of (cb_user_id command) operator" and
    "cb_rooms command \<noteq> []" "validate_ministry_booking_gate e s (cb_ministry_id command) (Some booker) = Inr ()"
    "validate_booking_lines (proposal_lines command) (set_facility_timezone (en_settings e)) = Inr ()"
    "ev_conflicts (proposal_evaluation e s command booker) = []"
    "forE (\<lambda>line. raise_if_room_closed s (ln_facility_id line) (ln_start_at line) (ln_end_at line)
       (set_facility_timezone (en_settings e)) (cb_enforce_opening_hours command)) (proposal_lines command) = Inr ()" and
    rev: "require_reviewed_override c secret (cb_override_review_token command) booker (cb_ministry_id command)
       (one_time_proposal (proposal_lines command)) (ev_impacts (proposal_evaluation e s command booker)) = Inr ()" and
    q: "preview_quote e s (proposal_quote_command command booker) = Inr q" and i: "i = db_next_uuid s" and
    ins: "insert_with_rows (new_booking e command booker title (proposal_lines command) q i) (proposal_lines command) q
       (s\<lparr>db_next_uuid := db_next_uuid s + 1\<rparr>) = Inr s1" and
    s': "s' = delete_own_draft command draft booker
       (displace_targets (proposal_evaluation e s command booker) (proposal_context s command booker) i operator e s1)"
    by (rule create_booking_Inr)
  let ?T = "target_booking_id ` set (ev_targets (proposal_evaluation e s command booker))"
  show ?thesis
  proof (cases "bk_id b \<in> ?T")
    case True
    obtain b' where b': "b' \<in> set (db_bookings s)" "bk_id b' = bk_id b" "bk_ministry_id b' = None" "en_now_utc e < bk_start_at b'"
        "can_override_for (cb_allow_priority_override command) (proposal_context s command booker)"
      using targets_held [OF True] by auto
    have "b' = b" using assms(1,3) b'(1,2) by (auto simp: wf_db_def distinct_map inj_on_def)
    moreover have "truthy (cb_override_review_token command)"
      using rev True by (auto simp: require_reviewed_override_def ev_impacts_def split: if_splits)
    ultimately show ?thesis using b' by (auto simp: can_override_context op bo)
  next
    case False
    obtain n rooms slots where "s1 = place (new_booking e command booker title (proposal_lines command) q i, rooms, slots) (s\<lparr>db_next_uuid := n\<rparr>)"
      using created_placement [OF assms(1) q ins [unfolded i]] unfolding i by blast
    then have "b \<in> set (db_bookings s1)" using assms(3) by (simp add: place_def)
    from displace_frame [OF this False] show ?thesis
      by (auto simp: s' delete_own_draft_def draft_delete_def split: option.splits)
  qed
qed

text \<open>The steward's meeting displaces the choir, with the acknowledgement of the review.\<close>

definition sample_override :: create_booking_command where
  "sample_override = sample_create
     \<lparr>cb_start_at := moment 2026 6 1 15 0, cb_end_at := moment 2026 6 1 17 0, cb_ministry_id := Some priority_ministry_id,
      cb_override_review_token := Some (issue_override_review_token short_crypto ''secret'' steward_id (Some priority_ministry_id)
        sample_proposal [sample_impact])\<rparr>"

lemma sample_override_returns:
  "inr_sat (create_booking short_crypto ''secret'' sample_override (sample_env steward_id (moment 2026 5 1 0 0)) sample_taken)
     (\<lambda>(i, s'). map bk_status (db_bookings s') = [BS_OVERRIDDEN, BS_CONFIRMED] \<and> length (db_after_commit s') = 1 \<and>
        length (db_override_logs s') = 1 \<and>
        list_all (\<lambda>b. bk_id b = 41 \<longrightarrow> bk_status b = BS_OVERRIDDEN) (db_bookings s'))"
  by code_simp

theorem create_booking_displaces_only_on_terms_witness:
  "\<exists>i s' b. create_booking short_crypto ''secret'' sample_override (sample_env steward_id (moment 2026 5 1 0 0)) sample_taken = Inr (i, s') \<and>
     b \<in> set (db_bookings sample_taken) \<and> b \<notin> set (db_bookings s') \<and> bk_ministry_id b = None \<and>
     truthy (cb_override_review_token sample_override)"
proof -
  let ?b = "sample_booking 41 (moment 2026 6 1 14 0) (moment 2026 6 1 16 0)"
  obtain i s' where r: "create_booking short_crypto ''secret'' sample_override (sample_env steward_id (moment 2026 5 1 0 0)) sample_taken = Inr (i, s')"
    and st: "\<forall>b\<in>set (db_bookings s'). bk_id b = 41 \<longrightarrow> bk_status b = BS_OVERRIDDEN"
    using sample_override_returns unfolding inr_sat_eq list_all_iff by (auto split: prod.splits)
  have b: "?b \<in> set (db_bookings sample_taken)" by (simp add: sample_taken_def)
  have gone: "?b \<notin> set (db_bookings s')" using st by (auto simp: sample_booking_def)
  from create_booking_displaces_only_on_terms [OF sample_taken_wf r b] gone
  have "bk_ministry_id ?b = None \<and> truthy (cb_override_review_token sample_override)" by simp
  with r b gone show ?thesis by blast
qed

section \<open>Cancelling and retitling\<close>

lemma require_participant_Inr:
  "require_participant_booking e s i u = Inr row \<longleftrightarrow>
     booking_get_detail s i (en_locale_id e) = Some row \<and>
     is_current_booking_participant u (bk_user_id (dt_row row)) (bk_ministry_id (dt_row row)) (owned_ministry_ids s u)"
  by (auto simp: require_participant_booking_def guard_simps split: option.splits)

lemma booking_get_detail_row:
  "booking_get_detail s i loc = Some row \<Longrightarrow> dt_row row \<in> set (db_bookings s) \<and> bk_id (dt_row row) = i \<and> \<not> bk_is_deleted (dt_row row)"
  by (auto simp: booking_get_detail_def dest: find_Some_set split: option.splits)

lemma cancel_booking_others:
  "filter (\<lambda>b. bk_id b \<noteq> i) (db_bookings (cancel_booking now i by_id reason cs s)) = filter (\<lambda>b. bk_id b \<noteq> i) (db_bookings s)"
  by (simp add: cancel_booking_def release_slots_def Let_def filter_update_where)

lemma cancelled_row:
  assumes "b \<in> set (db_bookings (cancel_booking now i by_id reason cs s))" "bk_id b = i"
  shows "bk_status b = BS_CANCELLED \<and> bk_cancelled_by_id b = by_id \<and> bk_cancel_reason b = reason"
proof -
  have "db_bookings (cancel_booking now i by_id reason cs s) = update_where (\<lambda>b. bk_id b = i)
      (\<lambda>b. b\<lparr>bk_status := BS_CANCELLED, bk_cancelled_at := Some now, bk_cancelled_by_id := by_id, bk_cancel_reason := reason\<rparr>)
      (db_bookings s)"
    by (simp add: cancel_booking_def release_slots_def Let_def)
  then obtain c where c: "b = (if bk_id c = i then c\<lparr>bk_status := BS_CANCELLED, bk_cancelled_at := Some now,
      bk_cancelled_by_id := by_id, bk_cancel_reason := reason\<rparr> else c)"
    using assms(1) by (simp only: set_update_where) blast
  show ?thesis
  proof (cases "bk_id c = i")
    case True
    then show ?thesis by (simp add: c)
  next
    case False
    with c assms(2) show ?thesis by simp
  qed
qed

lemma member_reason:
  assumes "require_member_cancellation_reason reason = Inr r"
  shows "r = str_strip (the reason) \<and> 1 \<le> length r \<and> length r \<le> 250"
proof -
  have n: "normalize_member_cancellation_reason (if truthy reason then the reason else []) = Some r"
    using assms by (auto simp: require_member_cancellation_reason_def split: option.splits)
  have "truthy reason"
  proof (rule ccontr)
    assume "\<not> truthy reason"
    with n show False by (auto simp: normalize_reason_Some str_strip_def)
  qed
  with n show ?thesis by (auto simp: normalize_reason_Some)
qed

text \<open>
  A member cancels only a Booking of their own, and says why: after a successful cancellation the Booking was the
  member's, its stored reason is the submitted one without surrounding white space, 1 to 250 characters long, it is
  cancelled by the member and holds no room, and every other Booking is as before.\<close>

lemma cancel_my_booking_own_only:
  assumes "cancel_my_booking i command e s = Inr (u, s')"
  shows "(\<exists>b\<in>set (db_bookings s). bk_id b = i \<and> en_user_id e = Some (bk_user_id b)) \<and>
    (\<forall>b\<in>set (db_bookings s'). bk_id b = i \<longrightarrow> bk_status b = BS_CANCELLED \<and> bk_cancelled_by_id b = en_user_id e \<and>
       (\<exists>r. bk_cancel_reason b = Some r \<and> r = str_strip (the (xb_cancel_reason command)) \<and> 1 \<le> length r \<and> length r \<le> 250)) \<and>
    filter (\<lambda>b. bk_id b \<noteq> i) (db_bookings s') = filter (\<lambda>b. bk_id b \<noteq> i) (db_bookings s) \<and>
    occupancy s' t = {x \<in> occupancy s t. fst x \<noteq> i}"
proof -
  obtain user row r where u: "en_user_id e = Some user" "booking_get_detail s i (en_locale_id e) = Some row"
    "bk_user_id (dt_row row) = user" "require_member_cancellation_reason (xb_cancel_reason command) = Inr r"
    and s': "s' = cancel_booking (en_repo_now e) i (Some user) (Some r) (xb_scope command \<noteq> ''series'') s"
    using assms by (auto simp: cancel_my_booking_def guard_simps require_participant_Inr service_cancel_booking_def Let_def split: option.splits)
  have reason: "r = str_strip (the (xb_cancel_reason command)) \<and> 1 \<le> length r \<and> length r \<le> 250"
    by (rule member_reason [OF u(4)])
  have rows: "\<forall>b\<in>set (db_bookings s'). bk_id b = i \<longrightarrow> bk_status b = BS_CANCELLED \<and> bk_cancelled_by_id b = Some user \<and> bk_cancel_reason b = Some r"
    unfolding s' using cancelled_row by blast
  show ?thesis
  proof (intro conjI)
    show "\<exists>b\<in>set (db_bookings s). bk_id b = i \<and> en_user_id e = Some (bk_user_id b)"
      using booking_get_detail_row [OF u(2)] u(1,3) by blast
    show "\<forall>b\<in>set (db_bookings s'). bk_id b = i \<longrightarrow> bk_status b = BS_CANCELLED \<and> bk_cancelled_by_id b = en_user_id e \<and>
       (\<exists>r. bk_cancel_reason b = Some r \<and> r = str_strip (the (xb_cancel_reason command)) \<and> 1 \<le> length r \<and> length r \<le> 250)"
      using rows reason u(1) by metis
    show "filter (\<lambda>b. bk_id b \<noteq> i) (db_bookings s') = filter (\<lambda>b. bk_id b \<noteq> i) (db_bookings s)"
      unfolding s' by (rule cancel_booking_others)
    show "occupancy s' t = {x \<in> occupancy s t. fst x \<noteq> i}" unfolding s' by (rule cancel_ledger.occ_release)
  qed
qed

text \<open>The detail offers no cancellation of a Booking that is over, and the cancellation does not ask.\<close>

definition sample_cancel :: cancel_booking_command where
  "sample_cancel = \<lparr>xb_scope = ''booking'', xb_cancel_reason = Some ''  plans changed ''\<rparr>"

lemma past_booking_still_cancelled:
  "inr_sat (get_my_booking_by_id 41 None (sample_env member_id (moment 2026 7 1 0 0)) sample_taken)
     (\<lambda>(d, s'). \<not> ae_can_cancel (pd_actions d)) \<and>
   inr_sat (cancel_my_booking 41 sample_cancel (sample_env member_id (moment 2026 7 1 0 0)) sample_taken)
     (\<lambda>(u, s'). map bk_status (db_bookings s') = [BS_CANCELLED])"
  by code_simp

end
