(* ===== verification/Recurring_Safety.thy ===== *)
theory Recurring_Safety imports Recurring_Service Booking_Safety begin

text \<open>
  What the creation of a Recurring Booking Series guarantees: the schedule it writes, the conflicts it
  refuses, exclusive use of the rooms, and who may be displaced.
\<close>

section \<open>The prepared schedule\<close>

text \<open>A command with two times of the day, in a zone whose offsets stay below a day (as \<open>tzinfo\<close> demands).\<close>

definition valid_times :: "create_series_command \<Rightarrow> bool" where
  "valid_times command \<longleftrightarrow> valid_tod (cs_local_start_time command) \<and> valid_tod (cs_local_end_time command)"

definition bounded_zone :: "zone \<Rightarrow> bool" where
  "bounded_zone z \<longleftrightarrow> list_all (\<lambda>off. - DAY_US < off \<and> off < DAY_US) (zone_base z # map snd (zone_trans z))"

lemma utcoff_from_bounded:
  "list_all (\<lambda>off. a < off \<and> off < b) (off # map snd ts) \<Longrightarrow> a < utcoff_from off ts u \<and> utcoff_from off ts u < b"
  by (induction off ts u rule: utcoff_from.induct) auto

lemma bounded_zone_offset:
  "bounded_zone z \<Longrightarrow> - DAY_US < utcoffset_at z u \<and> utcoffset_at z u < DAY_US"
  unfolding bounded_zone_def utcoffset_at_def by (rule utcoff_from_bounded)

definition occurrence_ok :: "create_series_command \<Rightarrow> zone \<Rightarrow> prepared_occurrence \<Rightarrow> bool" where
  "occurrence_ok command tz item \<longleftrightarrow>
     to_local tz (po_start_at item) = combine (po_occurrence_date item) (cs_local_start_time command) \<and>
     to_local tz (po_end_at item) = combine (po_occurrence_date item) (cs_local_end_time command)"

lemma prepare_occurrence_Inr:
  assumes "prepare_occurrence command tz d = Inr item"
  shows "po_occurrence_date item = d \<and> occurrence_ok command tz item"
  using assms localize_wall_time_Some
  by (auto simp: prepare_occurrence_def occurrence_ok_def split: option.splits)

lemma prepare_series_Inr:
  assumes "prepare_series command e s = Inr p"
  obtains operator where
    "en_user_id e = Some operator" "ps_operator_id p = operator" "ps_booker_id p = booker_of (cs_user_id command) operator"
    "ps_local_tz p = set_facility_timezone (en_settings e)" "ps_now_utc p = en_now_utc e"
    "raise_if_ineligible_booker e s (ps_booker_id p) = Inr ()"
    "cs_rooms command \<noteq> []" "cs_local_start_time command < cs_local_end_time command"
    "cs_first_occurrence_date command \<le> cs_last_occurrence_date command"
    "weekday (cs_first_occurrence_date command) = weekday (cs_last_occurrence_date command)"
    "use_period_for_date (cs_first_occurrence_date command) = use_period_for_date (cs_last_occurrence_date command)"
    "effective_test_window_override e \<or> is_within_availability_window (to_local (ps_local_tz p) (en_now_utc e))
       (opening_date_for_period (use_period_for_date (cs_first_occurrence_date command)) (date_year (cs_first_occurrence_date command)))
       (set_window_amount (en_settings e)) (set_window_unit (en_settings e))"
    "mapE (prepare_occurrence command (ps_local_tz p))
       (weekly_occurrence_dates (cs_first_occurrence_date command) (cs_last_occurrence_date command)) = Inr (ps_occurrences p)"
    "validate_booking_lines (series_lines command (hd (ps_occurrences p))) (ps_local_tz p) = Inr ()"
    "case cs_ministry_id command of None \<Rightarrow> \<not> ps_is_priority p
     | Some m \<Rightarrow> validate_ministry_series s m (ps_booker_id p) = Inr (ps_is_priority p, ps_ministry_name p, ps_ministry_name_zh p)"
proof -
  from assms obtain operator where op: "en_user_id e = Some operator"
    by (auto simp: prepare_series_def guard_simps split: option.splits)
  show ?thesis
    using assms unfolding prepare_series_def op Let_def option.case guard_simps
    by (elim exE conjE) (rule that [OF op]; (force simp: guard_simps split: option.splits prod.splits)?)
qed

lemma prepared_dates:
  assumes "prepare_series command e s = Inr p"
  shows "map po_occurrence_date (ps_occurrences p) =
      weekly_occurrence_dates (cs_first_occurrence_date command) (cs_last_occurrence_date command)"
    and "item \<in> set (ps_occurrences p) \<Longrightarrow> occurrence_ok command (ps_local_tz p) item"
proof -
  from assms have m: "list_all2 (\<lambda>d item. prepare_occurrence command (ps_local_tz p) d = Inr item)
      (weekly_occurrence_dates (cs_first_occurrence_date command) (cs_last_occurrence_date command)) (ps_occurrences p)"
    unfolding mapE_list_all2 [symmetric] by (rule prepare_series_Inr)
  then have "list_all2 (\<lambda>d item. po_occurrence_date item = d \<and> occurrence_ok command (ps_local_tz p) item)
      (weekly_occurrence_dates (cs_first_occurrence_date command) (cs_last_occurrence_date command)) (ps_occurrences p)"
    by (rule list_all2_mono) (rule prepare_occurrence_Inr)
  note ok = this
  show "map po_occurrence_date (ps_occurrences p) =
      weekly_occurrence_dates (cs_first_occurrence_date command) (cs_last_occurrence_date command)"
    using ok by (induction rule: list_all2_induct) auto
  show "item \<in> set (ps_occurrences p) \<Longrightarrow> occurrence_ok command (ps_local_tz p) item"
    using ok by (induction rule: list_all2_induct) auto
qed

text \<open>Two occurrences of a series are days apart.\<close>

lemma occurrences_apart:
  assumes "prepare_series command e s = Inr p" "valid_times command" "bounded_zone (ps_local_tz p)"
    and "x \<in> set (ps_occurrences p)" "y \<in> set (ps_occurrences p)" "po_occurrence_date x < po_occurrence_date y"
  shows "po_end_at x < po_start_at y"
proof -
  let ?tz = "ps_local_tz p" and ?W = "weekly_occurrence_dates (cs_first_occurrence_date command) (cs_last_occurrence_date command)"
  have "po_occurrence_date x \<in> set ?W" "po_occurrence_date y \<in> set ?W"
    using prepared_dates(1) [OF assms(1)] assms(4,5) by (metis image_eqI list.set_map)+
  then have "weekday (po_occurrence_date x) = weekday (po_occurrence_date y)"
    by (metis weekday_weekly_occurrence_dates)
  then have "7 dvd po_occurrence_date y - po_occurrence_date x" by (simp add: weekday_eq_iff)
  then have wk: "po_occurrence_date x + 7 \<le> po_occurrence_date y"
    using zdvd_imp_le [of 7 "po_occurrence_date y - po_occurrence_date x"] assms(6) by simp
  have "po_end_at x + utcoffset_at ?tz (po_end_at x) = combine (po_occurrence_date x) (cs_local_end_time command)"
    "po_start_at y + utcoffset_at ?tz (po_start_at y) = combine (po_occurrence_date y) (cs_local_start_time command)"
    using prepared_dates(2) [OF assms(1)] assms(4,5) by (simp_all add: occurrence_ok_def to_local_def)
  moreover have "cs_local_end_time command < DAY_US" "0 \<le> cs_local_start_time command"
    using assms(2) by (simp_all add: valid_times_def valid_tod_def)
  ultimately show ?thesis
    using bounded_zone_offset [OF assms(3), of "po_end_at x"] bounded_zone_offset [OF assms(3), of "po_start_at y"] wk
      mult_right_mono [OF wk, of DAY_US] by (simp add: combine_def algebra_simps)
qed

section \<open>The occupants of an occurrence\<close>

definition occupant_facts :: "occupying \<Rightarrow> uuid \<times> uuid \<times> uuid option \<times> instant \<times> instant \<times> uuid option" where
  "occupant_facts x = (oc_booking_id x, oc_user_id x, oc_ministry_id x, oc_start_at x, oc_end_at x, oc_series_id x)"

definition entry_of :: "(occupying \<Rightarrow> bool) \<Rightarrow> uuid \<times> occupying \<Rightarrow> bool" where
  "entry_of P kv \<longleftrightarrow> fst kv = oc_booking_id (snd kv) \<and> (\<exists>r. P r \<and> occupant_facts (snd kv) = occupant_facts r)"

lemma dict_set_all: "(\<forall>kv\<in>set d. Q kv) \<Longrightarrow> Q (k, v) \<Longrightarrow> \<forall>kv\<in>set (dict_set d k v). Q kv"
  by (induction d k v rule: dict_set.induct) auto

lemma merge_occupying_entry:
  assumes "\<forall>kv\<in>set merged. entry_of P kv" "P item"
  shows "\<forall>kv\<in>set (merge_occupying f merged item). entry_of P kv"
proof (cases "map_of merged (oc_booking_id item)")
  case None
  then show ?thesis unfolding merge_occupying_def Let_def None option.case
    using assms by (intro dict_set_all) (auto simp: entry_of_def occupant_facts_def)
next
  case (Some x)
  then have "entry_of P (oc_booking_id item, x)" using assms(1) map_of_SomeD by metis
  then show ?thesis unfolding merge_occupying_def Let_def Some option.case
    using assms(1) by (intro dict_set_all) (auto simp: entry_of_def occupant_facts_def)
qed

definition covers :: "(uuid \<times> occupying) list \<Rightarrow> uuid \<Rightarrow> uuid \<Rightarrow> bool" where
  "covers merged i f \<longleftrightarrow> (\<exists>x. map_of merged i = Some x \<and> f \<in> set (oc_facility_ids x))"

lemma merge_occupying_covers:
  "covers merged i g \<or> i = oc_booking_id item \<and> g \<in> insert f (set (oc_facility_ids item)) \<Longrightarrow>
   covers (merge_occupying f merged item) i g"
  by (auto simp: covers_def merge_occupying_def Let_def map_of_dict_set split: option.splits)

lemma merge_rows:
  assumes "\<forall>kv\<in>set merged. entry_of P kv" "\<forall>r\<in>set rows. P r"
  shows "(\<forall>kv\<in>set (foldl (merge_occupying f) merged rows). entry_of P kv) \<and>
    (covers merged i g \<or> f = g \<and> i \<in> oc_booking_id ` set rows \<longrightarrow> covers (foldl (merge_occupying f) merged rows) i g)"
  using assms
proof (induction rows arbitrary: merged)
  case Nil
  then show ?case by simp
next
  case (Cons r rows)
  have "\<forall>kv\<in>set (merge_occupying f merged r). entry_of P kv"
    by (rule merge_occupying_entry [OF Cons.prems(1)]) (use Cons.prems(2) in simp)
  note IH = Cons.IH [OF this]
  show ?case using IH Cons.prems(2) merge_occupying_covers [of merged i g r f] by auto
qed

definition occurrence_rows :: "env \<Rightarrow> db \<Rightarrow> prepared_occurrence \<Rightarrow> uuid \<Rightarrow> occupying list" where
  "occurrence_rows e s item f = list_occupying_slots s (en_sql_now e) f (po_start_at item) (po_end_at item) None"

lemma merge_rooms:
  assumes "\<forall>kv\<in>set merged. entry_of P kv" "\<forall>room\<in>set rooms. \<forall>r\<in>set (rows (rc_facility_id room)). P r"
  shows "(\<forall>kv\<in>set (foldl (\<lambda>m room. foldl (merge_occupying (rc_facility_id room)) m (rows (rc_facility_id room))) merged rooms). entry_of P kv) \<and>
    (covers merged i g \<or> g \<in> rc_facility_id ` set rooms \<and> i \<in> oc_booking_id ` set (rows g) \<longrightarrow>
     covers (foldl (\<lambda>m room. foldl (merge_occupying (rc_facility_id room)) m (rows (rc_facility_id room))) merged rooms) i g)"
  using assms
proof (induction rooms arbitrary: merged)
  case Nil
  then show ?case by simp
next
  case (Cons room rooms)
  let ?m = "foldl (merge_occupying (rc_facility_id room)) merged (rows (rc_facility_id room))"
  have "\<forall>r\<in>set (rows (rc_facility_id room)). P r" "\<forall>room\<in>set rooms. \<forall>r\<in>set (rows (rc_facility_id room)). P r"
    using Cons.prems(2) by simp_all
  note step = merge_rows [OF Cons.prems(1) this(1), of "rc_facility_id room" i g] and IH = Cons.IH [of ?m, OF _ this(2)]
  show ?case unfolding foldl_Cons
  proof (intro conjI impI)
    show "covers (foldl (\<lambda>m room. foldl (merge_occupying (rc_facility_id room)) m (rows (rc_facility_id room))) ?m rooms) i g"
      if "covers merged i g \<or> g \<in> rc_facility_id ` set (room # rooms) \<and> i \<in> oc_booking_id ` set (rows g)"
    proof -
      have "covers ?m i g \<or> g \<in> rc_facility_id ` set rooms \<and> i \<in> oc_booking_id ` set (rows g)"
      proof (cases "covers merged i g \<or> rc_facility_id room = g \<and> i \<in> oc_booking_id ` set (rows (rc_facility_id room))")
        case True
        then show ?thesis using step by (cases "rc_facility_id room = g") simp_all
      next
        case False
        with that show ?thesis by auto
      qed
      then show ?thesis using IH [OF step [THEN conjunct1]] by blast
    qed
  qed (use IH [OF step [THEN conjunct1]] in blast)
qed

text \<open>Everyone in a room of the series is among its occupants, with that room; and no one else is.\<close>

lemma occupants_cover:
  assumes "r \<in> set (occurrence_rows e s item f)" "f \<in> rc_facility_id ` set (cs_rooms command)"
  shows "\<exists>x\<in>set (occupying_bookings_for_occurrence e s command item). oc_booking_id x = oc_booking_id r \<and> f \<in> set (oc_facility_ids x)"
proof -
  let ?m = "foldl (\<lambda>m room. foldl (merge_occupying (rc_facility_id room)) m (occurrence_rows e s item (rc_facility_id room))) [] (cs_rooms command)"
  have m: "(\<forall>kv\<in>set ?m. entry_of (\<lambda>_. True) kv) \<and> (covers [] (oc_booking_id r) f \<or>
      f \<in> rc_facility_id ` set (cs_rooms command) \<and> oc_booking_id r \<in> oc_booking_id ` set (occurrence_rows e s item f) \<longrightarrow> covers ?m (oc_booking_id r) f)"
    by (rule merge_rooms) simp_all
  with assms obtain x where x: "map_of ?m (oc_booking_id r) = Some x" "f \<in> set (oc_facility_ids x)"
    unfolding covers_def by blast
  have in_m: "(oc_booking_id r, x) \<in> set ?m" using x(1) by (rule map_of_SomeD)
  with m have "oc_booking_id x = oc_booking_id r" by (auto simp: entry_of_def)
  moreover have "x \<in> set (occupying_bookings_for_occurrence e s command item)"
    unfolding occupying_bookings_for_occurrence_def set_map
    by (rule image_eqI [OF _ in_m [unfolded occurrence_rows_def]]) simp
  ultimately show ?thesis using x(2) by blast
qed

lemma occupants_only:
  assumes "x \<in> set (occupying_bookings_for_occurrence e s command item)"
  shows "\<exists>f\<in>rc_facility_id ` set (cs_rooms command). \<exists>r\<in>set (occurrence_rows e s item f). occupant_facts x = occupant_facts r"
proof -
  let ?P = "\<lambda>r. \<exists>f\<in>rc_facility_id ` set (cs_rooms command). r \<in> set (occurrence_rows e s item f)"
  let ?m = "foldl (\<lambda>m room. foldl (merge_occupying (rc_facility_id room)) m (occurrence_rows e s item (rc_facility_id room))) [] (cs_rooms command)"
  have m: "\<forall>kv\<in>set ?m. entry_of ?P kv"
    by (rule merge_rooms [THEN conjunct1]) auto
  obtain kv where "kv \<in> set ?m" "x = snd kv"
    using assms unfolding occupying_bookings_for_occurrence_def occurrence_rows_def by auto
  with m have "entry_of ?P kv" by blast
  then show ?thesis using \<open>x = snd kv\<close> unfolding entry_of_def by blast
qed

section \<open>Remaining occurrences are free or overridable\<close>

lemma set_collect_conflicts:
  "set (collect_conflicts e s command p) =
     (if cs_ministry_id command = None
      then (\<lambda>d. occurrence_conflict d KWEEKLY_QUOTA [] []) ` set (weekly_quota_conflict_dates e s (ps_booker_id p) (ps_occurrences p) (ps_local_tz p))
      else {}) \<union> (\<Union>item\<in>set (ps_occurrences p). set (conflicts_of_occurrence e s command p item))"
  by (cases "cs_ministry_id command") (simp_all add: collect_conflicts_def Let_def)

lemma conflict_of_item:
  "item \<in> set (ps_occurrences p) \<Longrightarrow> c \<in> set (conflicts_of_occurrence e s command p item) \<Longrightarrow>
   c \<in> set (collect_conflicts e s command p)"
  unfolding set_collect_conflicts by blast

lemma occurrence_conflict_fields [simp]:
  "sc_occurrence_date (occurrence_conflict d k fs xs) = d" "sc_kind (occurrence_conflict d k fs xs) = k"
  "\<not> sc_is_overridable (occurrence_conflict d k fs xs)" "sc_occupying_bookings (occurrence_conflict d k fs xs) = xs"
  "sc_facility_ids (occurrence_conflict d k fs xs) = fs"
  by (simp_all add: occurrence_conflict_def)

lemma overridable_conflicts_simps:
  "c \<in> set (overridable_conflicts p d xs) \<Longrightarrow>
     sc_occurrence_date c = d \<and> sc_is_overridable c \<and> sc_occupying_bookings c = filter (rental_overridable p) xs"
  "overridable_conflicts p d xs = [] \<longleftrightarrow> (\<forall>x\<in>set xs. \<not> rental_overridable p x)"
  by (auto simp: overridable_conflicts_def Let_def filter_empty_conv split: if_splits)

lemma blocking_parts:
  "c \<in> set (blocked_conflicts command p d xs) \<Longrightarrow> sc_occurrence_date c = d \<and> \<not> sc_is_overridable c"
  "c \<in> set (ministry_conflicts s command d xs) \<Longrightarrow> sc_occurrence_date c = d \<and> \<not> sc_is_overridable c"
  "c \<in> set (closed_conflicts s command tz item) \<Longrightarrow> sc_occurrence_date c = po_occurrence_date item \<and> \<not> sc_is_overridable c"
  by (auto simp: blocked_conflicts_def ministry_conflicts_def closed_conflicts_def Let_def split: if_splits prod.splits)

lemma blocking_parts_empty:
  "blocked_conflicts command p d xs = [] \<longleftrightarrow> (\<forall>x\<in>set xs. oc_ministry_id x = None \<longrightarrow> rental_overridable p x)"
  "ministry_conflicts s command d xs = [] \<longleftrightarrow> (\<forall>x\<in>set xs. oc_ministry_id x = None)"
  by (auto simp: blocked_conflicts_def ministry_conflicts_def Let_def filter_empty_conv split: prod.splits)

lemma unexcluded_Inr:
  "unexcluded_occurrences e s command p = Inr (rem, ovr) \<longleftrightarrow>
     \<not> invalid_exclusion command p (collect_conflicts e s command p) \<and> rem = remaining_of command p \<and>
     set_min_recurring_booking_weeks (en_settings e) \<le> int (length rem) \<and>
     (\<forall>c\<in>set (collect_conflicts e s command p). sc_occurrence_date c \<notin> set (cs_excluded_dates command) \<longrightarrow> sc_is_overridable c) \<and>
     ovr = remaining_conflicts_of command (collect_conflicts e s command p)"
proof -
  let ?cs = "remaining_conflicts_of command (collect_conflicts e s command p)"
  have block: "filter (\<lambda>c. \<not> sc_is_overridable c) ?cs = [] \<longleftrightarrow>
      (\<forall>c\<in>set (collect_conflicts e s command p). sc_occurrence_date c \<notin> set (cs_excluded_dates command) \<longrightarrow> sc_is_overridable c)"
    by (auto simp: filter_empty_conv remaining_conflicts_of_def)
  have "filter sc_is_overridable ?cs = ?cs" if "filter (\<lambda>c. \<not> sc_is_overridable c) ?cs = []"
    using that by (simp add: filter_empty_conv filter_id_conv)
  then show ?thesis
    unfolding unexcluded_occurrences_def Let_def guard_simps not_not not_less block [symmetric] by auto
qed

text \<open>An occurrence that stays has only occupants that may be displaced, and its rooms are open.\<close>

lemma remaining_clear:
  assumes "unexcluded_occurrences e s command p = Inr (rem, ovr)" "item \<in> set rem"
  shows "\<forall>x\<in>set (occupying_bookings_for_occurrence e s command item). rental_overridable p x"
    and "closed_conflicts s command (ps_local_tz p) item = []"
proof -
  let ?xs = "occupying_bookings_for_occurrence e s command item" and ?d = "po_occurrence_date item"
  have item: "item \<in> set (ps_occurrences p)" "?d \<notin> set (cs_excluded_dates command)"
    using assms by (auto simp: unexcluded_Inr remaining_of_def)
  have ov: "sc_is_overridable c" if "c \<in> set (conflicts_of_occurrence e s command p item)" "sc_occurrence_date c = ?d" for c
    using conflict_of_item [OF item(1) that(1)] that(2) item(2) assms(1) by (auto simp: unexcluded_Inr)
  have parts: "set (blocked_conflicts command p ?d ?xs) \<union> set (ministry_conflicts s command ?d ?xs) \<union>
      set (closed_conflicts s command (ps_local_tz p) item) \<subseteq> set (conflicts_of_occurrence e s command p item)"
    by (auto simp: conflicts_of_occurrence_def Let_def)
  have "blocked_conflicts command p ?d ?xs = []"
    using ov blocking_parts(1) [of _ command p ?d ?xs] parts by (cases "blocked_conflicts command p ?d ?xs") auto
  moreover have "ministry_conflicts s command ?d ?xs = []"
    using ov blocking_parts(2) [of _ s command ?d ?xs] parts by (cases "ministry_conflicts s command ?d ?xs") auto
  ultimately show "\<forall>x\<in>set ?xs. rental_overridable p x" by (simp add: blocking_parts_empty)
  show "closed_conflicts s command (ps_local_tz p) item = []"
    using ov blocking_parts(3) [of _ s command "ps_local_tz p" item] parts
    by (cases "closed_conflicts s command (ps_local_tz p) item") auto
qed

lemma closed_conflicts_empty:
  "closed_conflicts s command tz item = [] \<longleftrightarrow>
     (\<forall>f\<in>rc_facility_id ` set (cs_rooms command). \<not> has_blackout_overlap s f (po_start_at item) (po_end_at item) tz \<and>
        (cs_enforce_opening_hours command \<longrightarrow> member_interval_within_opening_hours (po_start_at item) (po_end_at item)
           (list_active_for_day s f (weekday (po_occurrence_date item))) tz))"
  by (auto simp: closed_conflicts_def Let_def filter_empty_conv)

text \<open>The displacement targets are exactly the occupants of the remaining occurrences.\<close>

lemma overridable_occupants:
  assumes "unexcluded_occurrences e s command p = Inr (rem, ovr)"
  shows "(\<exists>c\<in>set ovr. sc_occurrence_date c = d \<and> x \<in> set (sc_occupying_bookings c)) \<longleftrightarrow>
    (\<exists>item\<in>set rem. po_occurrence_date item = d \<and> x \<in> set (occupying_bookings_for_occurrence e s command item))"
proof
  assume "\<exists>c\<in>set ovr. sc_occurrence_date c = d \<and> x \<in> set (sc_occupying_bookings c)"
  then obtain c where c: "c \<in> set ovr" "sc_occurrence_date c = d" "x \<in> set (sc_occupying_bookings c)" by blast
  then have co: "c \<in> set (collect_conflicts e s command p)" "sc_is_overridable c" "d \<notin> set (cs_excluded_dates command)"
    using assms by (auto simp: unexcluded_Inr remaining_conflicts_of_def)
  then obtain item where i: "item \<in> set (ps_occurrences p)" "c \<in> set (conflicts_of_occurrence e s command p item)"
    unfolding set_collect_conflicts by (auto split: if_splits)
  let ?xs = "occupying_bookings_for_occurrence e s command item" and ?d = "po_occurrence_date item"
  have "c \<in> set (overridable_conflicts p ?d ?xs)"
    using i(2) co(2) blocking_parts by (auto simp: conflicts_of_occurrence_def Let_def)
  from overridable_conflicts_simps(1) [OF this] c i(1) co(3) assms
  show "\<exists>item\<in>set rem. po_occurrence_date item = d \<and> x \<in> set (occupying_bookings_for_occurrence e s command item)"
    by (auto simp: unexcluded_Inr remaining_of_def)
next
  assume "\<exists>item\<in>set rem. po_occurrence_date item = d \<and> x \<in> set (occupying_bookings_for_occurrence e s command item)"
  then obtain item where i: "item \<in> set rem" "po_occurrence_date item = d" "x \<in> set (occupying_bookings_for_occurrence e s command item)" by blast
  let ?xs = "occupying_bookings_for_occurrence e s command item"
  have "rental_overridable p x" using remaining_clear(1) [OF assms i(1)] i(3) by blast
  then obtain c where c: "c \<in> set (overridable_conflicts p d ?xs)"
    using i(3) overridable_conflicts_simps(2) [of p d ?xs] by (cases "overridable_conflicts p d ?xs") auto
  have "c \<in> set (collect_conflicts e s command p)"
    by (rule conflict_of_item [of item]) (use c i assms in \<open>auto simp: conflicts_of_occurrence_def Let_def unexcluded_Inr remaining_of_def\<close>)
  with overridable_conflicts_simps(1) [OF c] i \<open>rental_overridable p x\<close> assms
  show "\<exists>c\<in>set ovr. sc_occurrence_date c = d \<and> x \<in> set (sc_occupying_bookings c)"
    by (intro bexI [of _ c]) (auto simp: unexcluded_Inr remaining_of_def remaining_conflicts_of_def)
qed

lemma override_target_set:
  "(\<lambda>(d, tg). (d, target_booking_id tg, tg_overlapping_facility_ids tg)) ` set (override_targets s ovr tz) =
     {(sc_occurrence_date c, oc_booking_id x, oc_facility_ids x) | c x. c \<in> set ovr \<and> x \<in> set (sc_occupying_bookings c)}"
  by (force simp: override_targets_def Let_def target_booking_id_def image_iff)

lemma series_target_ids:
  assumes "unexcluded_occurrences e s command p = Inr (rem, ovr)"
  shows "target_booking_id ` snd ` set (override_targets s ovr tz) =
    (\<Union>item\<in>set rem. oc_booking_id ` set (occupying_bookings_for_occurrence e s command item))"
proof -
  have "target_booking_id ` snd ` set (override_targets s ovr tz) =
      (\<lambda>(d, i, fs). i) ` (\<lambda>(d, tg). (d, target_booking_id tg, tg_overlapping_facility_ids tg)) ` set (override_targets s ovr tz)"
    by (force simp: image_iff)
  also have "\<dots> = {oc_booking_id x | x. \<exists>c\<in>set ovr. x \<in> set (sc_occupying_bookings c)}"
    unfolding override_target_set by force
  also have "\<dots> = {oc_booking_id x | x. \<exists>d. \<exists>c\<in>set ovr. sc_occurrence_date c = d \<and> x \<in> set (sc_occupying_bookings c)}" by blast
  also have "\<dots> = (\<Union>item\<in>set rem. oc_booking_id ` set (occupying_bookings_for_occurrence e s command item))"
    unfolding overridable_occupants [OF assms] by blast
  finally show ?thesis .
qed

section \<open>Writing the occurrences\<close>

lemma new_occurrence_fields [simp]:
  "bk_id (new_occurrence e command booker sid st item q i) = i"
  "bk_status (new_occurrence e command booker sid st item q i) = st"
  "\<not> bk_is_deleted (new_occurrence e command booker sid st item q i)"
  "bk_series_id (new_occurrence e command booker sid st item q i) = Some sid"
  "bk_user_id (new_occurrence e command booker sid st item q i) = booker"
  "bk_start_at (new_occurrence e command booker sid st item q i) = po_start_at item"
  by (simp_all add: new_occurrence_def)

text \<open>The intervals of the occurrences: the i-th id holds the rooms of the i-th remaining occurrence.\<close>

definition series_wants :: "create_series_command \<Rightarrow> (uuid \<times> prepared_occurrence) list \<Rightarrow> holding set" where
  "series_wants command placed = (\<Union>(i, item)\<in>set placed. line_holding i ` set (series_lines command item))"

lemma series_wants_simps [simp]:
  "series_wants command [] = {}"
  "series_wants command ((i, item) # ps) = line_holding i ` set (series_lines command item) \<union> series_wants command ps"
  by (simp_all add: series_wants_def)

text \<open>What the loop leaves: \<open>ids\<close> are the ids it drew, one per occurrence.\<close>

definition occurrences_written ::
  "env \<Rightarrow> create_series_command \<Rightarrow> uuid \<Rightarrow> uuid \<Rightarrow> booking_status \<Rightarrow> instant \<Rightarrow> (prepared_occurrence \<times> quote_result) list \<Rightarrow>
     uuid list \<Rightarrow> db \<Rightarrow> db \<Rightarrow> bool" where
  "occurrences_written e command booker sid st t zs ids s s' \<longleftrightarrow>
     wf_db s' \<and> length ids = length zs \<and> distinct ids \<and> (\<forall>i\<in>set ids. db_next_uuid s \<le> i \<and> i < db_next_uuid s') \<and>
     db_next_uuid s \<le> db_next_uuid s' \<and> db_series s' = db_series s \<and> db_users s' = db_users s \<and>
     db_bookings s' = db_bookings s @ map (\<lambda>(i, item, q). new_occurrence e command booker sid st item q i) (zip ids zs) \<and>
     occupancy s t \<subseteq> occupancy s' t \<and>
     occupancy s' t \<subseteq> occupancy s t \<union> series_wants command (zip ids (map fst zs)) \<and>
     (st = BS_CONFIRMED \<or> st = BS_PENDING_PAYMENT \<and> hold_active s sid t \<longrightarrow>
        series_wants command (zip ids (map fst zs)) \<subseteq> occupancy s' t)"

lemma hold_active_cong: "db_series s' = db_series s \<Longrightarrow> hold_active s' i t = hold_active s i t"
  by (simp add: hold_active_def find_series_def)

lemma insert_occurrence_step:
  assumes "wf_db s" "sid < db_next_uuid s" "length (qt_room_lines q) = length (cs_rooms command)"
    and "insert_occurrence e command booker sid st (occs, s) (item, q) = Inr (occs', s')"
  shows "occs' = occs @ [created_occurrence command st item q (db_next_uuid s)] \<and>
    occurrences_written e command booker sid st t [(item, q)] [db_next_uuid s] s s'"
proof -
  let ?i = "db_next_uuid s"
  let ?b = "new_occurrence e command booker sid st item q ?i"
  from assms(4) have ins: "insert_with_rows ?b (series_lines command item) q (s\<lparr>db_next_uuid := db_next_uuid s + 1\<rparr>) = Inr s'"
    and occs: "occs' = occs @ [created_occurrence command st item q ?i]"
    by (auto simp: insert_occurrence_def fresh_uuid_def guard_simps)
  obtain n rooms slots where p: "s' = place (?b, rooms, slots) (s\<lparr>db_next_uuid := n\<rparr>)" "?i < n" "wf_db s'"
    "active_occupancy_clause s t ?b \<longrightarrow> line_holding (bk_id ?b) ` set (series_lines command item) \<subseteq> occupancy s' t"
    "occupancy s' t \<subseteq> occupancy s t \<union> line_holding (bk_id ?b) ` set (series_lines command item)"
    "occupancy s t \<subseteq> occupancy s' t"
    using insert_places [OF assms(1) _ _ _ _ ins, of t] assms(2,3) by (auto simp: series_lines_def)
  have "active_occupancy_clause s t ?b" if "st = BS_CONFIRMED \<or> st = BS_PENDING_PAYMENT \<and> hold_active s sid t"
    using that active_pending_hold [of ?b sid s t] by (auto simp: active_occupancy_clause_def)
  with p occs show ?thesis
    by (auto simp: occurrences_written_def place_def)
qed

lemma occurrences_written_trans:
  assumes "occurrences_written e command booker sid st t zs ids s s'" "occurrences_written e command booker sid st t zs' ids' s' s''"
  shows "occurrences_written e command booker sid st t (zs @ zs') (ids @ ids') s s''"
proof -
  have w: "series_wants command (zip (ids @ ids') (map fst (zs @ zs'))) =
      series_wants command (zip ids (map fst zs)) \<union> series_wants command (zip ids' (map fst zs'))"
    using assms by (simp add: occurrences_written_def series_wants_def)
  have x: "length ids = length zs" "length ids' = length zs'" "distinct ids" "distinct ids'" "wf_db s''"
    "db_next_uuid s \<le> db_next_uuid s'" "db_next_uuid s' \<le> db_next_uuid s''"
    using assms by (simp_all add: occurrences_written_def)
  have i: "\<forall>i\<in>set ids. db_next_uuid s \<le> i \<and> i < db_next_uuid s'" "\<forall>i\<in>set ids'. db_next_uuid s' \<le> i \<and> i < db_next_uuid s''"
    using assms unfolding occurrences_written_def by blast+
  have d: "set ids \<inter> set ids' = {}" using i by fastforce
  have i': "\<forall>i\<in>set (ids @ ids'). db_next_uuid s \<le> i \<and> i < db_next_uuid s''"
    using i x(6,7) by (metis Un_iff order_less_le_trans order_trans set_append)
  have l: "length (ids @ ids') = length (zs @ zs')" "distinct (ids @ ids')" "db_next_uuid s \<le> db_next_uuid s''"
    using x d by simp_all
  have h: "hold_active s' sid t = hold_active s sid t"
    by (rule hold_active_cong) (use assms(1) in \<open>simp add: occurrences_written_def\<close>)
  have b: "db_bookings s'' = db_bookings s @ map (\<lambda>(i, item, q). new_occurrence e command booker sid st item q i) (zip (ids @ ids') (zs @ zs'))"
    "db_series s'' = db_series s" "db_users s'' = db_users s"
    using assms by (simp_all add: occurrences_written_def)
  have o: "occupancy s t \<subseteq> occupancy s' t" "occupancy s' t \<subseteq> occupancy s'' t"
    "occupancy s' t \<subseteq> occupancy s t \<union> series_wants command (zip ids (map fst zs))"
    "occupancy s'' t \<subseteq> occupancy s' t \<union> series_wants command (zip ids' (map fst zs'))"
    "st = BS_CONFIRMED \<or> st = BS_PENDING_PAYMENT \<and> hold_active s sid t \<longrightarrow> series_wants command (zip ids (map fst zs)) \<subseteq> occupancy s' t"
    "st = BS_CONFIRMED \<or> st = BS_PENDING_PAYMENT \<and> hold_active s sid t \<longrightarrow> series_wants command (zip ids' (map fst zs')) \<subseteq> occupancy s'' t"
    using assms by (simp_all add: occurrences_written_def h)
  show ?thesis
    unfolding occurrences_written_def w
  proof (intro conjI impI)
    show "occupancy s'' t \<subseteq> occupancy s t \<union> (series_wants command (zip ids (map fst zs)) \<union> series_wants command (zip ids' (map fst zs')))"
      using o(3,4) by blast
    show "series_wants command (zip ids (map fst zs)) \<union> series_wants command (zip ids' (map fst zs')) \<subseteq> occupancy s'' t"
      if "st = BS_CONFIRMED \<or> st = BS_PENDING_PAYMENT \<and> hold_active s sid t"
      using that o(2,5,6) by blast
    show "occupancy s t \<subseteq> occupancy s'' t" using o(1,2) by blast
  qed (fact x(5) l(1) l(2) i' l(3) b)+
qed

lemma insert_occurrences:
  assumes "wf_db s" "sid < db_next_uuid s" "\<forall>(item, q)\<in>set zs. length (qt_room_lines q) = length (cs_rooms command)"
    and "foldE (insert_occurrence e command booker sid st) (occs, s) zs = Inr (occs', s')"
  shows "\<exists>ids. occurrences_written e command booker sid st t zs ids s s' \<and>
    occs' = occs @ map (\<lambda>(i, item, q). created_occurrence command st item q i) (zip ids zs)"
  using assms
proof (induction zs arbitrary: occs s)
  case Nil
  then show ?case by (intro exI [of _ "[]"]) (auto simp: occurrences_written_def)
next
  case (Cons z zs)
  obtain item q where z: "z = (item, q)" by (cases z)
  from Cons.prems(4) obtain occs1 s1 where
    step: "insert_occurrence e command booker sid st (occs, s) (item, q) = Inr (occs1, s1)" and
    rest: "foldE (insert_occurrence e command booker sid st) (occs1, s1) zs = Inr (occs', s')"
    by (auto simp: z guard_simps)
  note one = insert_occurrence_step [OF Cons.prems(1,2) _ step, of t]
  from Cons.prems(3) have one: "occs1 = occs @ [created_occurrence command st item q (db_next_uuid s)]"
    "occurrences_written e command booker sid st t [(item, q)] [db_next_uuid s] s s1"
    using one by (auto simp: z)
  then have "wf_db s1" "sid < db_next_uuid s1" using Cons.prems(2) by (auto simp: occurrences_written_def)
  from Cons.IH [OF this _ rest] Cons.prems(3) obtain ids where
    "occurrences_written e command booker sid st t zs ids s1 s'"
    "occs' = occs1 @ map (\<lambda>(i, item, q). created_occurrence command st item q i) (zip ids zs)" by auto
  with occurrences_written_trans [OF one(2)] one(1) show ?case
    by (intro exI [of _ "db_next_uuid s # ids"]) (auto simp: z)
qed

text \<open>A series row with a fresh id concerns no Booking yet.\<close>

lemma find_append: "List.find P (xs @ ys) = (case List.find P xs of None \<Rightarrow> List.find P ys | Some x \<Rightarrow> Some x)"
  by (induction xs) simp_all

lemma insert_series_fresh:
  assumes "wf_db s" "se_id x = db_next_uuid s" "insert_series x (s\<lparr>db_next_uuid := db_next_uuid s + 1\<rparr>) = Inr s1"
  shows "wf_db s1 \<and> occupancy s1 t = occupancy s t \<and> find_series s1 (se_id x) = Some x \<and>
    db_next_uuid s1 = db_next_uuid s + 1 \<and> db_bookings s1 = db_bookings s \<and> db_users s1 = db_users s"
proof -
  have s1: "s1 = s\<lparr>db_next_uuid := db_next_uuid s + 1, db_series := db_series s @ [x]\<rparr>"
    using assms(3) by (auto simp: insert_series_def guard_simps)
  have find: "find_series s1 i = (if i = se_id x then Some x else find_series s i)" for i
  proof (cases "i = se_id x")
    case True
    have "List.find (\<lambda>y. se_id y = i) (db_series s) = None"
      using assms(1,2) True by (auto simp: find_None_iff wf_db_def ids_below_def)
    then show ?thesis by (simp add: s1 find_series_def True find_append)
  next
    case False
    then have "List.find (\<lambda>y. se_id y = i) [x] = None" by simp
    with False show ?thesis by (simp add: s1 find_series_def find_append split: option.split)
  qed
  have act: "active_occupancy_clause s1 t b = active_occupancy_clause s t b" if "b \<in> set (db_bookings s)" for b
  proof -
    have "bk_series_id b \<noteq> Some (se_id x)" using that assms(1,2) by (auto simp: wf_db_def ids_below_def)
    then have "joined_hold s1 b = joined_hold s b" by (auto simp: joined_hold_def find split: option.split)
    then show ?thesis by (simp add: active_occupancy_clause_def)
  qed
  have "occupancy s1 t = occupancy s t"
    unfolding occupancy_def using act by (auto simp: s1)
  moreover have "wf_db s1"
    using assms(1,2) unfolding s1 by (fastforce simp: wf_db_def bookers_exist_def find_user_def ids_below_def)
  ultimately show ?thesis using find [of "se_id x"] by (simp add: s1)
qed

section \<open>A successful creation\<close>

lemma create_series_Inr:
  assumes "create_series c secret command e s = Inr (r, s')"
  obtains p rem ovr quotes hold s1 occs s2 where
    "truthy (cs_title command)" "prepare_series command e s = Inr p"
    "unexcluded_occurrences e s command p = Inr (rem, ovr)"
    "cs_require_override_review command \<longrightarrow> require_reviewed_override c secret (cs_override_review_token command) (ps_booker_id p)
       (cs_ministry_id command) (series_proposal command rem) (unique_impacts (override_targets s ovr (ps_local_tz p))) = Inr ()"
    "quotes_of e s command (ps_booker_id p) rem = Inr quotes"
    "(if list_all qt_is_free_ministry quotes then Inr None
      else bindE (pending_payment_hold e (ps_now_utc p)) (\<lambda>(days, expires). Inr (Some expires))) = Inr hold"
    "insert_series (new_series e command p quotes hold (db_next_uuid s)) (s\<lparr>db_next_uuid := db_next_uuid s + 1\<rparr>) = Inr s1"
    "foldE (insert_occurrence e command (ps_booker_id p) (db_next_uuid s)
       (if list_all qt_is_free_ministry quotes then BS_CONFIRMED else BS_PENDING_PAYMENT)) ([], s1) (zip rem quotes) = Inr (occs, s2)"
    "r = created_series command p quotes hold (db_next_uuid s) occs"
    "s' = displace_series_targets command p rem occs (override_targets s ovr (ps_local_tz p)) (db_next_uuid s) e s2"
proof -
  from assms obtain p ro where p: "truthy (cs_title command)" "prepare_series command e s = Inr p"
    "unexcluded_occurrences e s command p = Inr ro"
    unfolding create_series_def guard_simps by blast
  obtain rem ovr where ro: "ro = (rem, ovr)" by (cases ro)
  note unfolded = assms [unfolded create_series_def raise_if_eq_Inr p(2) bindE_Inr p(3) ro prod.case Let_def fresh_uuid_def bindE_eq_Inr]
  then obtain u quotes hold s1 os where q:
    "(if cs_require_override_review command then require_reviewed_override c secret (cs_override_review_token command) (ps_booker_id p)
       (cs_ministry_id command) (series_proposal command rem) (unique_impacts (override_targets s ovr (ps_local_tz p))) else Inr ()) = Inr u"
    "quotes_of e s command (ps_booker_id p) rem = Inr quotes"
    "(if list_all qt_is_free_ministry quotes then Inr None
      else bindE (pending_payment_hold e (ps_now_utc p)) (\<lambda>(days, expires). Inr (Some expires))) = Inr hold"
    "insert_series (new_series e command p quotes hold (db_next_uuid s)) (s\<lparr>db_next_uuid := db_next_uuid s + 1\<rparr>) = Inr s1"
    "foldE (insert_occurrence e command (ps_booker_id p) (db_next_uuid s)
       (if list_all qt_is_free_ministry quotes then BS_CONFIRMED else BS_PENDING_PAYMENT)) ([], s1) (zip rem quotes) = Inr os"
    "(case os of (occs, s2) \<Rightarrow> Inr (created_series command p quotes hold (db_next_uuid s) occs,
       displace_series_targets command p rem occs (override_targets s ovr (ps_local_tz p)) (db_next_uuid s) e s2)) = (Inr (r, s') :: exn + series_result \<times> db)"
    by (elim exE conjE) (rule that; assumption)
  obtain occs s2 where os: "os = (occs, s2)" by (cases os)
  show ?thesis
  proof (rule that)
    show "cs_require_override_review command \<longrightarrow> require_reviewed_override c secret (cs_override_review_token command) (ps_booker_id p)
       (cs_ministry_id command) (series_proposal command rem) (unique_impacts (override_targets s ovr (ps_local_tz p))) = Inr ()"
      using q(1) by (cases "cs_require_override_review command") simp_all
  qed (use p q in \<open>auto simp: ro os\<close>)
qed

lemma quotes_of_Inr:
  assumes "quotes_of e s command booker rem = Inr quotes"
  shows "length quotes = length rem" "\<forall>(item, q)\<in>set (zip rem quotes). length (qt_room_lines q) = length (cs_rooms command)"
proof -
  have all: "list_all2 (\<lambda>item q. preview_quote e s (occurrence_quote_command command booker item) = Inr q) rem quotes"
    using assms unfolding quotes_of_def mapE_list_all2 occurrence_quote_def .
  then show "length quotes = length rem" by (simp add: list_all2_lengthD)
  show "\<forall>(item, q)\<in>set (zip rem quotes). length (qt_room_lines q) = length (cs_rooms command)"
    using all preview_quote_lines by (fastforce simp: list_all2_iff occurrence_quote_command_def Let_def)
qed

lemma displace_series_occupancy:
  "occupancy (displace_series_targets command p rem occs targets sid e s) t =
     (if cs_ministry_id command = None then occupancy s t
      else {x \<in> occupancy s t. fst x \<notin> target_booking_id ` snd ` set targets})"
proof (cases "cs_ministry_id command")
  case None
  then show ?thesis by (simp add: displace_series_targets_def)
next
  case (Some m)
  let ?rs = "map (\<lambda>(d, tg). (the (map_of (rev (zip (map po_occurrence_date rem) (map or_id occs))) d), tg)) targets"
  have ids: "(target_booking_id \<circ> snd) ` set ?rs = target_booking_id ` snd ` set targets"
    by (force simp: image_iff)
  obtain items s1 where r: "apply_whole_booking_overrides ?rs (ps_operator_id p) e s = (items, s1)"
    by (cases "apply_whole_booking_overrides ?rs (ps_operator_id p) e s")
  have "occupancy s1 t = {x \<in> occupancy s t. fst x \<notin> target_booking_id ` snd ` set targets}"
    using apply_overrides_occupancy [of ?rs "ps_operator_id p" e s t] unfolding ids r snd_conv .
  then show ?thesis
    unfolding displace_series_targets_def Some option.case Let_def r prod.case by (simp add: notify_occupancy)
qed

lemma keeps_rows_displace_series: "keeps_rows s (displace_series_targets command p rem occs targets sid e s)"
proof -
  let ?rs = "map (\<lambda>(d, tg). (the (map_of (rev (zip (map po_occurrence_date rem) (map or_id occs))) d), tg)) targets"
  obtain items s1 where r: "apply_whole_booking_overrides ?rs (ps_operator_id p) e s = (items, s1)"
    by (cases "apply_whole_booking_overrides ?rs (ps_operator_id p) e s")
  have "keeps_rows s s1" using keeps_rows_overrides [of s ?rs "ps_operator_id p" e] by (simp add: r)
  then show ?thesis
    unfolding displace_series_targets_def Let_def r prod.case
    by (auto split: option.split intro: keeps_rows_trans [OF _ keeps_rows_repository(9)])
qed

text \<open>A Personal proposal has no overridable conflicts, hence nothing to displace.\<close>

lemma personal_no_priority:
  "prepare_series command e s = Inr p \<Longrightarrow> cs_ministry_id command = None \<Longrightarrow> \<not> ps_is_priority p"
  by (erule prepare_series_Inr) simp

lemma series_targets_held:
  assumes "unexcluded_occurrences e s command p = Inr (rem, ovr)" "i \<in> target_booking_id ` snd ` set (override_targets s ovr tz)"
  shows "ps_is_priority p \<and> (\<exists>b\<in>set (db_bookings s). bk_id b = i \<and> bk_ministry_id b = None \<and> ps_now_utc p < bk_start_at b)"
proof -
  obtain item x where x: "item \<in> set rem" "x \<in> set (occupying_bookings_for_occurrence e s command item)" "oc_booking_id x = i"
    using assms(2) unfolding series_target_ids [OF assms(1)] by auto
  have ov: "rental_overridable p x" using remaining_clear(1) [OF assms(1) x(1)] x(2) by blast
  obtain f r where r: "r \<in> set (occurrence_rows e s item f)" "occupant_facts x = occupant_facts r"
    using occupants_only [OF x(2)] by blast
  from reported_occupancy [OF r(1) [unfolded occurrence_rows_def]] r(2) x(3) ov show ?thesis
    by (auto simp: rental_overridable_def occupant_facts_def occupying_rows_iff)
qed

lemma series_clash_is_target:
  assumes "bookers_exist s" "unexcluded_occurrences e s command p = Inr (rem, ovr)" "item \<in> set rem"
    and "x \<in> occupancy s (en_sql_now e)" "y \<in> line_holding i ` set (series_lines command item)" "clash x y"
  shows "fst x \<in> target_booking_id ` snd ` set (override_targets s ovr tz)"
proof -
  obtain room where room: "room \<in> set (cs_rooms command)" "y = (i, rc_facility_id room, po_start_at item, po_end_at item)"
    using assms(5) by (auto simp: series_lines_def line_holding_def)
  obtain j f a b where x: "x = (j, f, a, b)" by (cases x)
  have o: "(j, rc_facility_id room, a, b) \<in> occupancy s (en_sql_now e)" "a < po_end_at item" "po_start_at item < b"
    using assms(4,6) by (auto simp: x room(2) clash_def)
  obtain r where r: "r \<in> set (occurrence_rows e s item (rc_facility_id room))" "oc_booking_id r = j"
    using occupancy_reported [OF assms(1) o, of None] by (auto simp: occurrence_rows_def)
  obtain z where "z \<in> set (occupying_bookings_for_occurrence e s command item)" "oc_booking_id z = j"
    using occupants_cover [OF r(1), of command] room(1) r(2) by auto
  then show ?thesis unfolding series_target_ids [OF assms(2)] x fst_conv using assms(3) by blast
qed

lemma series_wants_exclusive:
  assumes "prepare_series command e s = Inr p" "valid_times command" "bounded_zone (ps_local_tz p)"
    and "set rem \<subseteq> set (ps_occurrences p)" "distinct (map po_occurrence_date rem)" "distinct ids" "length ids = length rem"
  shows "exclusive (series_wants command (zip ids rem))"
  unfolding exclusive_def
proof (intro ballI notI)
  fix x y assume xy: "x \<in> series_wants command (zip ids rem)" "y \<in> series_wants command (zip ids rem)" "clash x y"
  obtain i a where a: "(i, a) \<in> set (zip ids rem)" "x \<in> line_holding i ` set (series_lines command a)"
    using xy(1) by (auto simp: series_wants_def)
  obtain j b where b: "(j, b) \<in> set (zip ids rem)" "y \<in> line_holding j ` set (series_lines command b)"
    using xy(2) by (auto simp: series_wants_def)
  obtain m n where mn: "m < length rem" "n < length rem" "i = ids ! m" "a = rem ! m" "j = ids ! n" "b = rem ! n"
    using a(1) b(1) by (auto simp: in_set_zip assms(7))
  have "i \<noteq> j" using xy(3) a(2) b(2) by (auto simp: clash_def line_holding_def)
  then have "m \<noteq> n" using mn by auto
  then have "po_occurrence_date a \<noteq> po_occurrence_date b"
    using mn assms(5) nth_eq_iff_index_eq [OF assms(5), of m n] by simp
  moreover have "a \<in> set (ps_occurrences p)" "b \<in> set (ps_occurrences p)" using mn assms(4) by auto
  ultimately have "po_end_at a < po_start_at b \<or> po_end_at b < po_start_at a"
    using occurrences_apart [OF assms(1-3)] by (metis linorder_neqE)
  then show False using xy(3) a(2) b(2) by (auto simp: clash_def line_holding_def series_lines_def)
qed

section \<open>Creation: properties\<close>

text \<open>All that the proofs below need of a creation that succeeded.\<close>

lemma create_series_effect:
  assumes "wf_db s" "create_series c secret command e s = Inr (r, s')"
  obtains p rem ovr quotes hold s1 ids occs s2 st where
    "prepare_series command e s = Inr p" "unexcluded_occurrences e s command p = Inr (rem, ovr)"
    "cs_require_override_review command \<longrightarrow> require_reviewed_override c secret (cs_override_review_token command) (ps_booker_id p)
       (cs_ministry_id command) (series_proposal command rem) (unique_impacts (override_targets s ovr (ps_local_tz p))) = Inr ()"
    "length quotes = length rem" "occupancy s1 t = occupancy s t" "db_bookings s1 = db_bookings s" "db_next_uuid s1 = db_next_uuid s + 1"
    "st = (if list_all qt_is_free_ministry quotes then BS_CONFIRMED else BS_PENDING_PAYMENT)"
    "hold_active s1 (db_next_uuid s) t \<longleftrightarrow> is_pending_payment_hold_active hold t"
    "occurrences_written e command (ps_booker_id p) (db_next_uuid s) st t (zip rem quotes) ids s1 s2"
    "occs = map (\<lambda>(i, item, q). created_occurrence command st item q i) (zip ids (zip rem quotes))"
    "r = created_series command p quotes hold (db_next_uuid s) occs"
    "s' = displace_series_targets command p rem occs (override_targets s ovr (ps_local_tz p)) (db_next_uuid s) e s2"
    "quotes_of e s command (ps_booker_id p) rem = Inr quotes"
proof -
  from assms(2) obtain p rem ovr quotes hold s1 occs s2 where a:
    "truthy (cs_title command)" "prepare_series command e s = Inr p"
    "unexcluded_occurrences e s command p = Inr (rem, ovr)"
    "cs_require_override_review command \<longrightarrow> require_reviewed_override c secret (cs_override_review_token command) (ps_booker_id p)
       (cs_ministry_id command) (series_proposal command rem) (unique_impacts (override_targets s ovr (ps_local_tz p))) = Inr ()"
    "quotes_of e s command (ps_booker_id p) rem = Inr quotes"
    "(if list_all qt_is_free_ministry quotes then Inr None
      else bindE (pending_payment_hold e (ps_now_utc p)) (\<lambda>(days, expires). Inr (Some expires))) = Inr hold"
    "insert_series (new_series e command p quotes hold (db_next_uuid s)) (s\<lparr>db_next_uuid := db_next_uuid s + 1\<rparr>) = Inr s1"
    "foldE (insert_occurrence e command (ps_booker_id p) (db_next_uuid s)
       (if list_all qt_is_free_ministry quotes then BS_CONFIRMED else BS_PENDING_PAYMENT)) ([], s1) (zip rem quotes) = Inr (occs, s2)"
    "r = created_series command p quotes hold (db_next_uuid s) occs"
    "s' = displace_series_targets command p rem occs (override_targets s ovr (ps_local_tz p)) (db_next_uuid s) e s2"
    by (rule create_series_Inr)
  note ins = insert_series_fresh [OF assms(1) _ a(7)]
  have id: "se_id (new_series e command p quotes hold (db_next_uuid s)) = db_next_uuid s"
    "se_payment_hold_expires_at (new_series e command p quotes hold (db_next_uuid s)) = hold"
    by (simp_all add: new_series_def Let_def)
  note ins = ins [OF id(1)] and q = quotes_of_Inr [OF a(5)]
  obtain ids where ids: "occurrences_written e command (ps_booker_id p) (db_next_uuid s)
      (if list_all qt_is_free_ministry quotes then BS_CONFIRMED else BS_PENDING_PAYMENT) t (zip rem quotes) ids s1 s2"
    "occs = [] @ map (\<lambda>(i, item, q). created_occurrence command (if list_all qt_is_free_ministry quotes then BS_CONFIRMED else BS_PENDING_PAYMENT) item q i)
       (zip ids (zip rem quotes))"
    using insert_occurrences [OF _ _ q(2) a(8), of t] ins by auto
  have hold: "hold_active s1 (db_next_uuid s) t \<longleftrightarrow> is_pending_payment_hold_active hold t"
    using ins by (simp add: hold_active_def id)
  show ?thesis
    by (rule that [OF a(2,3) _ q(1) _ _ _ refl hold ids(1) _ a(9,10,5)]) (use a(4) ids(2) ins [of t] in \<open>simp_all (no_asm_simp)\<close>)
qed

lemma create_series_exclusive:
  assumes "wf_db s" "exclusive (occupancy s (en_sql_now e))" "valid_times command"
    and "bounded_zone (set_facility_timezone (en_settings e))" "create_series c secret command e s = Inr (r, s')"
  shows "wf_db s' \<and> exclusive (occupancy s' (en_sql_now e)) \<and>
    (is_pending_payment_hold_active (sr_payment_hold_expires_at r) (en_sql_now e) \<longrightarrow>
      (\<forall>occ\<in>set (sr_occurrences r). \<forall>f\<in>rc_facility_id ` set (cs_rooms command).
         (or_id occ, f, or_start_at occ, or_end_at occ) \<in> occupancy s' (en_sql_now e))) \<and>
    (\<forall>x\<in>occupancy s (en_sql_now e) - occupancy s' (en_sql_now e).
       \<exists>b\<in>set (db_bookings s). bk_id b = fst x \<and> bk_ministry_id b = None \<and> en_now_utc e < bk_start_at b)"
proof -
  let ?t = "en_sql_now e"
  obtain p rem ovr quotes hold s1 ids occs s2 st where
    p: "prepare_series command e s = Inr p" "unexcluded_occurrences e s command p = Inr (rem, ovr)" and
    q: "length quotes = length rem" and
    s1: "occupancy s1 ?t = occupancy s ?t" "db_bookings s1 = db_bookings s" "db_next_uuid s1 = db_next_uuid s + 1" and
    st: "st = (if list_all qt_is_free_ministry quotes then BS_CONFIRMED else BS_PENDING_PAYMENT)" and
    hold: "hold_active s1 (db_next_uuid s) ?t \<longleftrightarrow> is_pending_payment_hold_active hold ?t" and
    w: "occurrences_written e command (ps_booker_id p) (db_next_uuid s) st ?t (zip rem quotes) ids s1 s2" and
    occs: "occs = map (\<lambda>(i, item, q). created_occurrence command st item q i) (zip ids (zip rem quotes))" and
    r: "r = created_series command p quotes hold (db_next_uuid s) occs" and
    s': "s' = displace_series_targets command p rem occs (override_targets s ovr (ps_local_tz p)) (db_next_uuid s) e s2"
    using create_series_effect [OF assms(1,5), of ?t] by metis
  let ?T = "target_booking_id ` snd ` set (override_targets s ovr (ps_local_tz p))" and ?W = "series_wants command (zip ids rem)"
  have zs: "map fst (zip rem quotes) = rem" "length ids = length rem" using w q by (simp_all add: occurrences_written_def)
  have ids: "wf_db s2" "distinct ids" "\<forall>i\<in>set ids. db_next_uuid s < i"
    "occupancy s ?t \<subseteq> occupancy s2 ?t" "occupancy s2 ?t \<subseteq> occupancy s ?t \<union> ?W"
    "st = BS_CONFIRMED \<or> hold_active s1 (db_next_uuid s) ?t \<Longrightarrow> ?W \<subseteq> occupancy s2 ?t"
    using w unfolding occurrences_written_def s1 zs(1) by (auto simp: st)
  have tz: "ps_local_tz p = set_facility_timezone (en_settings e)" "ps_now_utc p = en_now_utc e" by (rule prepare_series_Inr [OF p(1)]; assumption)+
  have held: "\<exists>b\<in>set (db_bookings s). bk_id b = i \<and> bk_ministry_id b = None \<and> en_now_utc e < bk_start_at b" "i < db_next_uuid s"
    if "i \<in> ?T" for i
    using series_targets_held [OF p(2) that] assms(1) by (auto simp: tz wf_db_def ids_below_def)
  have noT: "?T = {}" if "cs_ministry_id command = None"
    by (rule equals0I) (drule series_targets_held [OF p(2)], simp add: personal_no_priority [OF p(1) that])
  have occ: "occupancy s' ?t = {x \<in> occupancy s2 ?t. fst x \<notin> ?T}"
    unfolding s' displace_series_occupancy using noT by auto
  have rem: "set rem \<subseteq> set (ps_occurrences p)" "distinct (map po_occurrence_date rem)"
  proof -
    have r: "rem = remaining_of command p" using p(2) by (simp add: unexcluded_Inr)
    then show "set rem \<subseteq> set (ps_occurrences p)" by (auto simp: remaining_of_def)
    have "distinct (map po_occurrence_date (ps_occurrences p))" by (simp add: prepared_dates(1) [OF p(1)])
    then show "distinct (map po_occurrence_date rem)" unfolding r remaining_of_def by (rule distinct_map_filter)
  qed
  have exW: "exclusive ?W"
    by (rule series_wants_exclusive [OF p(1) assms(3) _ rem ids(2) zs(2)]) (simp add: tz assms(4))
  have be: "bookers_exist s" using assms(1) by (simp add: wf_db_def)
  have "exclusive ({x \<in> occupancy s ?t. fst x \<notin> ?T} \<union> ?W)"
    unfolding exclusive_Un
  proof (intro conjI ballI exW)
    show "exclusive {x \<in> occupancy s ?t. fst x \<notin> ?T}" by (rule exclusive_mono [OF assms(2)]) auto
    show "\<not> clash x y" if x: "x \<in> {x \<in> occupancy s ?t. fst x \<notin> ?T}" and y: "y \<in> ?W" for x y
    proof
      assume cl: "clash x y"
      obtain i item where i: "(i, item) \<in> set (zip ids rem)" "y \<in> line_holding i ` set (series_lines command item)"
        using y by (auto simp: series_wants_def)
      have "item \<in> set rem" using i(1) by (rule set_zip_rightD)
      from series_clash_is_target [OF be p(2) this _ i(2) cl, of "ps_local_tz p"] x show False by simp
    qed
  qed
  then have ex: "exclusive (occupancy s' ?t)" by (rule exclusive_mono) (use occ ids(5) in auto)
  have "keeps_rows s2 s'" unfolding s' by (rule keeps_rows_displace_series)
  then have wf: "wf_db s'" using ids(1) by (rule keeps_rows_wf)
  have want: "(or_id oc, f, or_start_at oc, or_end_at oc) \<in> occupancy s' ?t"
    if h: "is_pending_payment_hold_active (sr_payment_hold_expires_at r) ?t" and o: "oc \<in> set (sr_occurrences r)" and f: "f \<in> rc_facility_id ` set (cs_rooms command)" for oc f
  proof -
    have "hold_active s1 (db_next_uuid s) ?t" using h by (simp add: r created_series_def Let_def hold)
    with ids(6) have W: "?W \<subseteq> occupancy s2 ?t" by blast
    obtain i item q where z: "(i, item, q) \<in> set (zip ids (zip rem quotes))" "oc = created_occurrence command st item q i"
      using o by (auto simp: r created_series_def Let_def occs)
    have "(i, item) \<in> set (zip ids rem)" using z(1) zs(2) q by (force simp: in_set_zip)
    then have inW: "(i, f, po_start_at item, po_end_at item) \<in> ?W"
      using f by (force simp: series_wants_def line_holding_def series_lines_def)
    have "i \<in> set ids" using z(1) by (rule set_zip_leftD)
    then have "i \<notin> ?T" using ids(3) held(2) by force
    then show ?thesis using inW W unfolding occ by (auto simp: z(2) created_occurrence_def)
  qed
  have lost: "\<exists>b\<in>set (db_bookings s). bk_id b = fst x \<and> bk_ministry_id b = None \<and> en_now_utc e < bk_start_at b"
    if "x \<in> occupancy s ?t - occupancy s' ?t" for x
    using that ids(4) held(1) [of "fst x"] by (auto simp: occ)
  show ?thesis using wf ex want lost by blast
qed

text \<open>C2. No double booking by a series: where no two Bookings hold a room at overlapping times, a successful creation
  leaves it so; every occurrence, unless its payment hold has lapsed at birth, holds every room asked for; the tables
  stay well-formed, and what is no longer held belonged to a personal Booking that has not started.\<close>

theorem create_series_keeps_rooms_exclusive:
  assumes "wf_db s" "exclusive (occupancy s (en_sql_now e))" "valid_times command"
    and "bounded_zone (set_facility_timezone (en_settings e))" "create_series c secret command e s = Inr (r, s')"
  shows "wf_db s' \<and> exclusive (occupancy s' (en_sql_now e)) \<and>
    (is_pending_payment_hold_active (sr_payment_hold_expires_at r) (en_sql_now e) \<longrightarrow>
      (\<forall>occ\<in>set (sr_occurrences r). \<forall>f\<in>rc_facility_id ` set (cs_rooms command).
         (or_id occ, f, or_start_at occ, or_end_at occ) \<in> occupancy s' (en_sql_now e))) \<and>
    (\<forall>x\<in>occupancy s (en_sql_now e) - occupancy s' (en_sql_now e).
       \<exists>b\<in>set (db_bookings s). bk_id b = fst x \<and> bk_ministry_id b = None \<and> en_now_utc e < bk_start_at b)"
  by (rule create_series_exclusive [OF assms])

end
