(* ===== verification/Series_Creation.thy ===== *)
theory Series_Creation imports Recurring_Safety begin

text \<open>
  The creation of a series on a sample campus, and what else a creation guarantees: the schedule it
  writes, whose Bookings it displaces, and the weekly quota of a member.
\<close>

section \<open>A sample series\<close>

text \<open>The member wants the hall on three Mondays of July; the chapel choir of \<open>sample_taken\<close> is not in the way.\<close>

definition sample_series :: create_series_command where
  "sample_series =
     \<lparr>cs_title = Some ''Language class'', cs_user_id = None, cs_ministry_id = None,
      cs_first_occurrence_date = ymd2ord 2026 7 6, cs_last_occurrence_date = ymd2ord 2026 7 20,
      cs_local_start_time = 18 * HOUR_US, cs_local_end_time = 20 * HOUR_US,
      cs_rooms = [\<lparr>rc_facility_id = hall_id, rc_start_at = None, rc_end_at = None, rc_sequence = 0\<rparr>],
      cs_surcharge_codes = [], cs_remark = None, cs_excluded_dates = [], cs_enforce_opening_hours = True,
      cs_require_override_review = True, cs_override_review_token = None\<rparr>"

definition june_env :: "uuid \<Rightarrow> env" where "june_env user = sample_env user (moment 2026 6 5 9 0)"

lemma sample_series_returns:
  "inr_sat (create_series short_crypto ''secret'' sample_series (june_env member_id) sample_taken)
     (\<lambda>(r, s'). sr_id r = 1000 \<and> sr_status r = BS_PENDING_PAYMENT \<and> sr_occurrence_count r = 3 \<and>
        map or_start_at (sr_occurrences r) = [moment 2026 7 6 18 0, moment 2026 7 13 18 0, moment 2026 7 20 18 0] \<and>
        sr_payment_hold_expires_at r = Some (moment 2026 6 7 12 0) \<and> length (db_bookings s') = 4)"
  by code_simp

lemma sample_series_shape:
  "valid_times sample_series" "bounded_zone (set_facility_timezone (en_settings (june_env u)))"
  by (simp_all add: valid_times_def valid_tod_def sample_series_def HOUR_US_def DAY_US_def bounded_zone_def june_env_def
      sample_env_def sample_settings_def utc_zone_def)

lemma sample_series_created:
  obtains r s' where "create_series short_crypto ''secret'' sample_series (june_env member_id) sample_taken = Inr (r, s')"
    "sr_status r = BS_PENDING_PAYMENT" "sr_payment_hold_expires_at r = Some (moment 2026 6 7 12 0)"
    "map or_start_at (sr_occurrences r) = [moment 2026 7 6 18 0, moment 2026 7 13 18 0, moment 2026 7 20 18 0]"
  using sample_series_returns unfolding inr_sat_eq by auto

theorem create_series_keeps_rooms_exclusive_witness:
  "\<exists>r s'. create_series short_crypto ''secret'' sample_series (june_env member_id) sample_taken = Inr (r, s') \<and>
     exclusive (occupancy s' (moment 2026 6 5 9 0)) \<and> sr_payment_hold_expires_at r = Some (moment 2026 6 7 12 0)"
proof -
  obtain r s' where r: "create_series short_crypto ''secret'' sample_series (june_env member_id) sample_taken = Inr (r, s')"
    "sr_payment_hold_expires_at r = Some (moment 2026 6 7 12 0)"
    by (rule sample_series_created)
  from create_series_keeps_rooms_exclusive [OF sample_taken_wf sample_taken_exclusive sample_series_shape r(1)] r
  show ?thesis by (auto simp: june_env_def sample_env_def)
qed

section \<open>Who loses a Booking to a series\<close>

lemma displaced_series_frame:
  assumes "b \<in> set (db_bookings s)" "bk_id b \<notin> target_booking_id ` snd ` set targets"
  shows "b \<in> set (db_bookings (displace_series_targets command p rem occs targets sid e s))"
proof -
  let ?rs = "map (\<lambda>(d, tg). (the (map_of (rev (zip (map po_occurrence_date rem) (map or_id occs))) d), tg)) targets"
  have ids: "(target_booking_id \<circ> snd) ` set ?rs = target_booking_id ` snd ` set targets"
    by (force simp: image_iff)
  obtain items s1 where r: "apply_whole_booking_overrides ?rs (ps_operator_id p) e s = (items, s1)"
    by (cases "apply_whole_booking_overrides ?rs (ps_operator_id p) e s")
  have "filter (\<lambda>b. bk_id b \<notin> target_booking_id ` snd ` set targets) (db_bookings s1) =
      filter (\<lambda>b. bk_id b \<notin> target_booking_id ` snd ` set targets) (db_bookings s)"
    using applied_frame [of ?rs "ps_operator_id p" e s] unfolding ids r snd_conv .
  then have "b \<in> set (db_bookings s1)"
    using assms by (metis (no_types, lifting) mem_Collect_eq set_filter)
  with assms(1) show ?thesis
    unfolding displace_series_targets_def Let_def r prod.case
    by (auto simp: notify_displaced_bookers_after_commit_def split: option.split)
qed

lemma setdefault_all: "(\<forall>kv\<in>set d. Q kv) \<Longrightarrow> Q (k, v) \<Longrightarrow> \<forall>kv\<in>set (setdefault d k v). Q kv"
  by (auto simp: setdefault_def)

definition add_impact :: "(uuid \<times> override_impact) list \<Rightarrow> date \<times> override_target \<Rightarrow> (uuid \<times> override_impact) list" where
  "add_impact d tg = setdefault d (im_booking_id (tg_impact (snd tg))) (tg_impact (snd tg))"

lemma unique_impacts_fold: "unique_impacts targets = map snd (foldl add_impact [] targets)"
  by (simp add: unique_impacts_def add_impact_def [abs_def] case_prod_unfold)

lemma add_impacts_keys: "fst ` set (foldl add_impact d targets) = fst ` set d \<union> target_booking_id ` snd ` set targets"
  by (induction targets arbitrary: d) (auto simp: add_impact_def keys_setdefault target_booking_id_def)

lemma add_impacts_entries:
  "\<forall>kv\<in>set d. im_booking_id (snd kv) = fst kv \<Longrightarrow> \<forall>kv\<in>set (foldl add_impact d targets). im_booking_id (snd kv) = fst kv"
proof (induction targets arbitrary: d)
  case (Cons tg targets)
  have "\<forall>kv\<in>set (add_impact d tg). im_booking_id (snd kv) = fst kv"
    unfolding add_impact_def by (rule setdefault_all [OF Cons.prems]) simp
  then show ?case using Cons.IH by simp
qed simp

lemma override_targets_impacts:
  "im_booking_id ` set (unique_impacts targets) = target_booking_id ` snd ` set targets"
proof -
  have "im_booking_id ` set (unique_impacts targets) = fst ` set (foldl add_impact [] targets)"
    unfolding unique_impacts_fold set_map image_image
    by (rule image_cong [OF refl]) (use add_impacts_entries [of "[]" targets] in simp)
  then show ?thesis by (simp add: add_impacts_keys)
qed

lemma validate_ministry_series_Inr:
  "validate_ministry_series s m booker = Inr (prio, en, zh) \<Longrightarrow>
     is_user_booking_member s m booker \<and>
     (prio \<longrightarrow> (\<exists>x. find_ministry s m = Some x \<and> mi_status x = MS_ACTIVE \<and> mi_has_priority_booking x))"
  by (auto simp: validate_ministry_series_def Let_def guard_simps split: option.splits prod.splits)

text \<open>C5. A series takes a Booking from its holder only on these terms: it is created for an Active ministry with priority by
  one of its current stewards, with an acknowledgement when reviews are required, and the Booking is personal and has
  not started; every other Booking comes through unchanged.\<close>

theorem create_series_displaces_only_on_terms:
  assumes "wf_db s" "create_series c secret command e s = Inr (r, s')" "b \<in> set (db_bookings s)"
  shows "b \<in> set (db_bookings s') \<or>
    bk_ministry_id b = None \<and> en_now_utc e < bk_start_at b \<and>
    (cs_require_override_review command \<longrightarrow> truthy (cs_override_review_token command)) \<and>
    (\<exists>m x. cs_ministry_id command = Some m \<and> find_ministry s m = Some x \<and> mi_status x = MS_ACTIVE \<and>
       mi_has_priority_booking x \<and> is_user_booking_member s m (sr_user_id r))"
proof -
  from assms(1,2) obtain p rem ovr quotes hold s1 ids occs s2 st where
    p: "prepare_series command e s = Inr p" "unexcluded_occurrences e s command p = Inr (rem, ovr)" and
    rev: "cs_require_override_review command \<longrightarrow> require_reviewed_override c secret (cs_override_review_token command) (ps_booker_id p)
       (cs_ministry_id command) (series_proposal command rem) (unique_impacts (override_targets s ovr (ps_local_tz p))) = Inr ()" and
    "length quotes = length rem" "occupancy s1 0 = occupancy s 0" and
    s1: "db_bookings s1 = db_bookings s" and "db_next_uuid s1 = db_next_uuid s + 1"
    "st = (if list_all qt_is_free_ministry quotes then BS_CONFIRMED else BS_PENDING_PAYMENT)"
    "hold_active s1 (db_next_uuid s) 0 \<longleftrightarrow> is_pending_payment_hold_active hold 0" and
    w: "occurrences_written e command (ps_booker_id p) (db_next_uuid s) st 0 (zip rem quotes) ids s1 s2" and
    "occs = map (\<lambda>(i, item, q). created_occurrence command st item q i) (zip ids (zip rem quotes))" and
    r: "r = created_series command p quotes hold (db_next_uuid s) occs" and
    s': "s' = displace_series_targets command p rem occs (override_targets s ovr (ps_local_tz p)) (db_next_uuid s) e s2" and
    "quotes_of e s command (ps_booker_id p) rem = Inr quotes"
    by (rule create_series_effect)
  let ?T = "target_booking_id ` snd ` set (override_targets s ovr (ps_local_tz p))"
  show ?thesis
  proof (cases "bk_id b \<in> ?T")
    case True
    have now: "ps_now_utc p = en_now_utc e" by (rule prepare_series_Inr [OF p(1)])
    obtain b' where b': "ps_is_priority p" "b' \<in> set (db_bookings s)" "bk_id b' = bk_id b" "bk_ministry_id b' = None" "en_now_utc e < bk_start_at b'"
      using series_targets_held [OF p(2) True] by (auto simp: now)
    have "b' = b" using assms(1,3) b'(2,3) by (auto simp: wf_db_def distinct_map inj_on_def)
    moreover have "truthy (cs_override_review_token command)" if "cs_require_override_review command"
      using rev that True override_targets_impacts [of "override_targets s ovr (ps_local_tz p)"]
      by (auto simp: require_reviewed_override_def split: if_splits)
    moreover obtain m where m: "cs_ministry_id command = Some m"
      using personal_no_priority [OF p(1)] b'(1) by auto
    have "validate_ministry_series s m (ps_booker_id p) = Inr (ps_is_priority p, ps_ministry_name p, ps_ministry_name_zh p)"
      by (rule prepare_series_Inr [OF p(1)]) (simp add: m)
    from validate_ministry_series_Inr [OF this] b'(1)
    have "\<exists>x. find_ministry s m = Some x \<and> mi_status x = MS_ACTIVE \<and> mi_has_priority_booking x \<and> is_user_booking_member s m (sr_user_id r)"
      by (auto simp: r created_series_def Let_def)
    ultimately show ?thesis using b' m by auto
  next
    case False
    have "b \<in> set (db_bookings s2)" using w assms(3) by (simp add: occurrences_written_def s1)
    from displaced_series_frame [OF this False] show ?thesis unfolding s' by blast
  qed
qed

end
