(* ===== verification/Series_Evaluation.thy ===== *)
theory Series_Evaluation imports Series_Creation begin

text \<open>
  The live evaluation of a series proposal against its creation: what evaluation calls confirmable, creation
  accepts with the acknowledgement evaluation issued, and what it does not, creation refuses for the same
  reason.
\<close>

section \<open>Only the database refuses late\<close>

lemma foldE_Inl:
  "foldE f s xs = Inl x \<Longrightarrow> \<exists>s' y. y \<in> set xs \<and> f s' y = Inl x"
  by (induction xs arbitrary: s) (fastforce simp: bindE_eq_Inl)+

lemma repository_Inl:
  "insert_booking b s = Inl x \<Longrightarrow> x = integrity" "replace_booking_rooms i rows s = Inl x \<Longrightarrow> x = integrity"
  "replace_booking_slots i slots s = Inl x \<Longrightarrow> x = integrity" "insert_series y s = Inl x \<Longrightarrow> x = integrity"
  by (simp_all add: insert_booking_def replace_booking_rooms_def replace_booking_slots_def insert_series_def
      raise_if_eq_Inl split: if_splits)

lemma insert_with_rows_Inl:
  assumes "insert_with_rows b lines q s = Inl x" shows "x = integrity"
proof (cases "insert_booking b s")
  case (Inl y)
  with assms repository_Inl(1) [OF Inl] show ?thesis by (simp add: insert_with_rows_def)
next
  case (Inr s1)
  obtain rows slots s2 where "foldl (new_rows (bk_id b)) ([], [], s1) (zip lines (qt_room_lines q)) = (rows, slots, s2)"
    by (metis prod_cases3)
  with assms Inr show ?thesis by (auto simp: insert_with_rows_def bindE_eq_Inl dest: repository_Inl)
qed

lemma insert_occurrences_Inl: "foldE (insert_occurrence e command booker sid st) acc zs = Inl x \<Longrightarrow> x = integrity"
  by (drule foldE_Inl) (auto simp: insert_occurrence_def bindE_eq_Inl fresh_uuid_def split: prod.splits dest: insert_with_rows_Inl)

lemma pending_payment_hold_Inl: "pending_payment_hold e now = Inl x \<Longrightarrow> x = value_error"
  by (auto simp: pending_payment_hold_def Let_def split: option.splits)

text \<open>What the acknowledgement of a proposal must satisfy to be read back.\<close>

definition review_readable :: "crypto \<Rightarrow> string \<Rightarrow> uuid \<Rightarrow> uuid option \<Rightarrow> string list \<Rightarrow> override_impact list \<Rightarrow> bool" where
  "review_readable c secret booker ministry proposal impacts \<longleftrightarrow>
     cy_loads_b64 c (token_body c booker ministry proposal impacts) = Some (issued_payload c booker ministry proposal impacts) \<and>
     cy_hmac_sha256 c secret (token_body c booker ministry proposal impacts) \<noteq> [] \<and>
     distinct (map (booking_digest c \<circ> im_booking_id) impacts)"

lemma token_irrelevant:
  "prepare_series (command\<lparr>cs_override_review_token := tok\<rparr>) e s = prepare_series command e s"
  "collect_conflicts e s (command\<lparr>cs_override_review_token := tok\<rparr>) p = collect_conflicts e s command p"
  "unexcluded_occurrences e s (command\<lparr>cs_override_review_token := tok\<rparr>) p = unexcluded_occurrences e s command p"
  "quotes_of e s (command\<lparr>cs_override_review_token := tok\<rparr>) b rem = quotes_of e s command b rem"
  "series_proposal (command\<lparr>cs_override_review_token := tok\<rparr>) rem = series_proposal command rem"
proof -
  have lines: "series_lines (command\<lparr>cs_override_review_token := tok\<rparr>) = series_lines command"
    by (simp add: series_lines_def fun_eq_iff)
  have po: "prepare_occurrence (command\<lparr>cs_override_review_token := tok\<rparr>) = prepare_occurrence command"
    by (simp add: prepare_occurrence_def fun_eq_iff)
  show "prepare_series (command\<lparr>cs_override_review_token := tok\<rparr>) e s = prepare_series command e s"
    by (simp add: prepare_series_def lines po cong: option.case_cong)
  have "conflicts_of_occurrence e s (command\<lparr>cs_override_review_token := tok\<rparr>) = conflicts_of_occurrence e s command"
    by (simp add: fun_eq_iff conflicts_of_occurrence_def occupying_bookings_for_occurrence_def blocked_conflicts_def
        ministry_conflicts_def closed_conflicts_def Let_def cong: if_cong)
  then show col: "collect_conflicts e s (command\<lparr>cs_override_review_token := tok\<rparr>) p = collect_conflicts e s command p" for p
    by (simp add: collect_conflicts_def Let_def cong: if_cong)
  show "unexcluded_occurrences e s (command\<lparr>cs_override_review_token := tok\<rparr>) p = unexcluded_occurrences e s command p"
    by (simp add: unexcluded_occurrences_def col invalid_exclusion_def remaining_of_def remaining_conflicts_of_def Let_def)
  have "occurrence_quote e s (command\<lparr>cs_override_review_token := tok\<rparr>) = occurrence_quote e s command"
    by (simp add: occurrence_quote_def occurrence_quote_command_def fun_eq_iff Let_def)
  then show "quotes_of e s (command\<lparr>cs_override_review_token := tok\<rparr>) b rem = quotes_of e s command b rem"
    by (simp add: quotes_of_def)
  show "series_proposal (command\<lparr>cs_override_review_token := tok\<rparr>) rem = series_proposal command rem"
    by (simp add: series_proposal_def)
qed

section \<open>Evaluation, branch by branch\<close>

lemma unexcluded_Inl:
  "unexcluded_occurrences e s command p = Inl x \<longleftrightarrow>
     (let conflicts = collect_conflicts e s command p;
          blocking = filter (\<lambda>c. \<not> sc_is_overridable c) (remaining_conflicts_of command conflicts)
      in if invalid_exclusion command p conflicts then x = bad_request RECURRING_INVALID_EXCLUSION
         else if int (length (remaining_of command p)) < set_min_recurring_booking_weeks (en_settings e)
         then x = bad_request RECURRING_MIN_OCCURRENCES
         else blocking \<noteq> [] \<and> x = remaining_conflict blocking)"
  by (auto simp: unexcluded_occurrences_def Let_def raise_if_eq_Inl)

lemma remaining_conflict_code: "ex_code (remaining_conflict blocking) = Some (blocking_conflict_invalidity (hd blocking))"
  by (cases "sc_kind (hd blocking)") (simp_all add: remaining_conflict_def blocking_conflict_invalidity_def Let_def)

text \<open>A confirmable evaluation passed every check creation makes before it writes.\<close>

lemma evaluate_confirmable:
  assumes "evaluate_proposal c secret command e s = Inr (v, s0)" "pe_is_confirmable v"
  obtains p ovr quotes where "prepare_series command e s = Inr p" "truthy (cs_title command)"
    "unexcluded_occurrences e s command p = Inr (remaining_of command p, ovr)"
    "quotes_of e s command (ps_booker_id p) (remaining_of command p) = Inr quotes"
    "pe_override_impacts v = unique_impacts (override_targets s ovr (ps_local_tz p))"
    "pe_override_review_token v = issue_review_token c secret command p (remaining_of command p) (pe_override_impacts v)"
proof -
  obtain h where h: "proposal_payment_hold e command (en_now_utc e) = Inr h"
    using assms(1) by (auto simp: evaluate_proposal_def guard_simps)
  obtain p where p: "prepare_series command e s = Inr p"
    using assms by (auto simp: evaluate_proposal_def h unevaluable_proposal_def split: prod.splits sum.splits if_splits)
  let ?cs = "collect_conflicts e s command p" and ?rem = "remaining_of command p"
  let ?rc = "remaining_conflicts_of command ?cs"
  have ok: "\<not> invalid_exclusion command p ?cs" "\<not> int (length ?rem) < set_min_recurring_booking_weeks (en_settings e)"
    using assms by (auto simp: evaluate_proposal_def h p unevaluable_proposal_def Let_def split: prod.splits if_splits)
  let ?blocking = "filter (\<lambda>x. \<not> sc_is_overridable x) ?rc"
    and ?impacts = "unique_impacts (override_targets s (filter sc_is_overridable ?rc) (ps_local_tz p))"
  obtain q where q: "quote_occurrences e s command ?rem (ps_booker_id p) = Inr q"
    and v: "pe_override_impacts v = ?impacts" "?blocking = []" "truthy (cs_title command)"
      "pe_override_review_token v = issue_review_token c secret command p ?rem ?impacts"
    using assms ok by (auto simp: evaluate_proposal_def h p Let_def guard_simps split: prod.splits if_splits)
  obtain quotes where quotes: "quotes_of e s command (ps_booker_id p) ?rem = Inr quotes"
    using q by (auto simp: quote_occurrences_def guard_simps)
  have "unexcluded_occurrences e s command p = Inr (?rem, filter sc_is_overridable ?rc)"
    using ok v(2) by (simp add: unexcluded_occurrences_def Let_def)
  then show ?thesis by (rule that [OF p v(3) _ quotes v(1)]) (simp add: v)
qed

text \<open>After its checks, creation fails only for the database or for a deadline the clocks skip.\<close>

lemma create_series_late:
  assumes "truthy (cs_title command)" "prepare_series command e s = Inr p" "unexcluded_occurrences e s command p = Inr (rem, ovr)"
    "cs_require_override_review command \<longrightarrow> require_reviewed_override c secret (cs_override_review_token command) (ps_booker_id p)
       (cs_ministry_id command) (series_proposal command rem) (unique_impacts (override_targets s ovr (ps_local_tz p))) = Inr ()"
    "quotes_of e s command (ps_booker_id p) rem = Inr quotes" "create_series c secret command e s = Inl x"
  shows "x \<in> {integrity, value_error}"
proof -
  have rev: "(if cs_require_override_review command then require_reviewed_override c secret (cs_override_review_token command) (ps_booker_id p)
       (cs_ministry_id command) (series_proposal command rem) (unique_impacts (override_targets s ovr (ps_local_tz p))) else Inr ()) = Inr ()"
    using assms(4) by simp
  note create = assms(6) [unfolded create_series_def eqTrueI [OF assms(1)] not_True_eq_False raise_if_False assms(2) bindE_Inr assms(3) prod.case Let_def
      rev assms(5) fresh_uuid_def]
  show ?thesis
  proof (cases "if list_all qt_is_free_ministry quotes then Inr None
      else bindE (pending_payment_hold e (ps_now_utc p)) (\<lambda>(days, expires). Inr (Some expires))")
    case (Inl y)
    then have "y = value_error"
      by (auto simp: bindE_eq_Inl split: if_splits dest: pending_payment_hold_Inl)
    with create Inl show ?thesis by simp
  next
    case (Inr hold)
    with create show ?thesis
      by (auto simp: bindE_eq_Inl dest: repository_Inl(4) insert_occurrences_Inl)
  qed
qed

lemma create_series_refused:
  assumes "truthy (cs_title command)" "prepare_series command e s = Inr p" "unexcluded_occurrences e s command p = Inl x"
  shows "create_series c secret (command\<lparr>cs_override_review_token := tok\<rparr>) e s = Inl x"
  using assms by (simp add: create_series_def token_irrelevant)

lemma evaluate_refused:
  assumes "evaluate_proposal c secret command e s = Inr (v, s0)" "\<not> pe_is_confirmable v" "truthy (cs_title command)"
  shows "\<exists>x. create_series c' secret' (command\<lparr>cs_override_review_token := tok\<rparr>) e s = Inl x \<and> ex_code x = pe_invalidity_code v"
proof -
  obtain h where h: "proposal_payment_hold e command (en_now_utc e) = Inr h"
    using assms(1) by (auto simp: evaluate_proposal_def guard_simps)
  show ?thesis
  proof (cases "prepare_series command e s")
    case (Inl x)
    then show ?thesis
      using assms by (auto simp: evaluate_proposal_def h unevaluable_proposal_def create_series_def token_irrelevant split: prod.splits if_splits)
  next
    case (Inr p)
    let ?cs = "collect_conflicts e s command p" and ?rem = "remaining_of command p"
    let ?blocking = "filter (\<lambda>x. \<not> sc_is_overridable x) (remaining_conflicts_of command ?cs)"
    consider (excl) "invalid_exclusion command p ?cs"
      | (weeks) "\<not> invalid_exclusion command p ?cs" "int (length ?rem) < set_min_recurring_booking_weeks (en_settings e)"
      | (rest) "\<not> invalid_exclusion command p ?cs" "\<not> int (length ?rem) < set_min_recurring_booking_weeks (en_settings e)" by blast
    then show ?thesis
    proof cases
      case excl
      then have "unexcluded_occurrences e s command p = Inl (bad_request RECURRING_INVALID_EXCLUSION)" by (simp add: unexcluded_Inl Let_def)
      from create_series_refused [OF assms(3) Inr this] excl assms(1) show ?thesis
        by (auto simp: evaluate_proposal_def h Inr unevaluable_proposal_def split: prod.splits)
    next
      case weeks
      then have "unexcluded_occurrences e s command p = Inl (bad_request RECURRING_MIN_OCCURRENCES)" by (simp add: unexcluded_Inl Let_def)
      from create_series_refused [OF assms(3) Inr this] weeks assms(1) show ?thesis
        by (auto simp: evaluate_proposal_def h Inr unevaluable_proposal_def split: prod.splits)
    next
      case rest
      have bl: "?blocking \<noteq> []" and code: "pe_invalidity_code v = Some (blocking_conflict_invalidity (hd ?blocking))"
        using assms rest by (auto simp: evaluate_proposal_def h Inr Let_def guard_simps split: prod.splits if_splits)
      with rest have "unexcluded_occurrences e s command p = Inl (remaining_conflict ?blocking)" by (simp add: unexcluded_Inl Let_def)
      from create_series_refused [OF assms(3) Inr this] code show ?thesis by (simp add: remaining_conflict_code)
    qed
  qed
qed

lemma evaluate_pure:
  assumes "evaluate_proposal c secret command e s = Inr (v, s0)" shows "s0 = s"
proof -
  obtain a b where h: "proposal_payment_hold e command (en_now_utc e) = Inr (a, b)"
    using assms by (auto simp: evaluate_proposal_def guard_simps)
  show ?thesis
  proof (cases "prepare_series command e s")
    case (Inl x)
    with assms show ?thesis by (simp add: evaluate_proposal_def h split: if_splits)
  next
    case (Inr p)
    show ?thesis
      by (cases "quote_occurrences e s command (remaining_of command p) (ps_booker_id p)")
         (use assms in \<open>simp_all add: evaluate_proposal_def h Inr Let_def split: if_splits\<close>)
  qed
qed

lemma confirmable_created_late:
  assumes "evaluate_proposal c secret command e s = Inr (v, s0)" "pe_is_confirmable v"
    and "\<forall>p. prepare_series command e s = Inr p \<longrightarrow> review_readable c secret (ps_booker_id p) (cs_ministry_id command)
      (series_proposal command (remaining_of command p)) (pe_override_impacts v)"
    and x: "create_series c secret (command\<lparr>cs_override_review_token := pe_override_review_token v\<rparr>) e s = Inl x"
  shows "x \<in> {integrity, value_error}"
proof -
  obtain p ovr quotes where p: "prepare_series command e s = Inr p" "truthy (cs_title command)"
    "unexcluded_occurrences e s command p = Inr (remaining_of command p, ovr)"
    "quotes_of e s command (ps_booker_id p) (remaining_of command p) = Inr quotes"
    "pe_override_impacts v = unique_impacts (override_targets s ovr (ps_local_tz p))"
    "pe_override_review_token v = issue_review_token c secret command p (remaining_of command p) (pe_override_impacts v)"
    using evaluate_confirmable [OF assms(1,2)] by metis
  let ?im = "pe_override_impacts v" and ?ps = "series_proposal command (remaining_of command p)"
  have rd: "review_readable c secret (ps_booker_id p) (cs_ministry_id command) ?ps ?im" using assms(3) p(1) by blast
  have "require_reviewed_override c secret (pe_override_review_token v) (ps_booker_id p) (cs_ministry_id command) ?ps ?im = Inr ()"
  proof (cases "?im = []")
    case True then show ?thesis by (simp add: require_reviewed_override_def)
  next
    case False
    with issued_review_accepted [OF rd [unfolded review_readable_def, THEN conjunct1]
        rd [unfolded review_readable_def, THEN conjunct2, THEN conjunct1]
        rd [unfolded review_readable_def, THEN conjunct2, THEN conjunct2] subset_refl]
    show ?thesis by (simp add: p(6) issue_review_token_def)
  qed
  then show ?thesis
    by (intro create_series_late [OF _ _ _ _ _ x, of p "remaining_of command p" ovr quotes])
       (simp_all add: token_irrelevant p flip: p(5))
qed

section \<open>Properties\<close>

text \<open>C6. Evaluation decides creation. When the live evaluation of a titled proposal is confirmable, creating it with the
  acknowledgement the evaluation issued passes every check of the service: it succeeds unless the database refuses a row
  or the clocks skip the payment deadline. When it is not confirmable, creation fails with the reported code, whatever
  acknowledgement it carries. The tables are as before the evaluation.\<close>

theorem evaluation_decides_creation:
  assumes "evaluate_proposal c secret command e s = Inr (v, s0)" "truthy (cs_title command)"
    and "\<forall>p. prepare_series command e s = Inr p \<longrightarrow> review_readable c secret (ps_booker_id p) (cs_ministry_id command)
      (series_proposal command (remaining_of command p)) (pe_override_impacts v)"
  shows "s0 = s \<and>
    (if pe_is_confirmable v
     then (\<forall>x. create_series c secret (command\<lparr>cs_override_review_token := pe_override_review_token v\<rparr>) e s = Inl x \<longrightarrow>
             x \<in> {integrity, value_error})
     else (\<forall>tok. \<exists>x. create_series c secret (command\<lparr>cs_override_review_token := tok\<rparr>) e s = Inl x \<and>
             ex_code x = pe_invalidity_code v))"
proof -
  have "s0 = s" by (rule evaluate_pure [OF assms(1)])
  moreover have "x \<in> {integrity, value_error}"
    if conf: "pe_is_confirmable v"
      and x: "create_series c secret (command\<lparr>cs_override_review_token := pe_override_review_token v\<rparr>) e s = Inl x" for x
    by (rule confirmable_created_late [OF assms(1) conf assms(3) x])
  moreover have "\<exists>x. create_series c secret (command\<lparr>cs_override_review_token := tok\<rparr>) e s = Inl x \<and> ex_code x = pe_invalidity_code v"
    if "\<not> pe_is_confirmable v" for tok
    by (rule evaluate_refused [OF assms(1) that assms(2)])
  ultimately show ?thesis by simp
qed

end
