(* ===== verification/Series_Schedule.thy ===== *)
theory Series_Schedule imports Series_Evaluation begin

text \<open>
  What a created series looks like: its dates, its local times, its rows; and the weekly quota a
  personal series respects. The samples are a series of the Priority Ministry that displaces the choir,
  and a member's series.
\<close>

section \<open>A series of the Priority Ministry\<close>

text \<open>In January, for two Mondays from 1 June, 15:00 to 17:00: the first runs into the choir.\<close>

definition sample_ministry_series :: create_series_command where
  "sample_ministry_series = sample_series
     \<lparr>cs_ministry_id := Some priority_ministry_id, cs_first_occurrence_date := ymd2ord 2026 6 1,
      cs_last_occurrence_date := ymd2ord 2026 6 8, cs_local_start_time := 15 * HOUR_US, cs_local_end_time := 17 * HOUR_US,
      cs_enforce_opening_hours := False,
      cs_override_review_token := Some (issue_override_review_token short_crypto ''secret'' steward_id (Some priority_ministry_id)
        [] [sample_impact])\<rparr>"

definition january_env :: "uuid \<Rightarrow> env" where "january_env user = sample_env user (moment 2026 1 15 9 0)"

lemma sample_ministry_series_returns:
  "inr_sat (create_series short_crypto ''secret'' sample_ministry_series (january_env steward_id) sample_taken)
     (\<lambda>(r, s'). sr_status r = BS_CONFIRMED \<and> sr_occurrence_count r = 2 \<and>
        map bk_status (db_bookings s') = [BS_OVERRIDDEN, BS_CONFIRMED, BS_CONFIRMED] \<and>
        list_all (\<lambda>b. bk_id b = 41 \<longrightarrow> bk_status b = BS_OVERRIDDEN) (db_bookings s') \<and>
        length (db_override_logs s') = 1 \<and> length (db_after_commit s') = 1)"
  by code_simp

theorem create_series_displaces_only_on_terms_witness:
  "\<exists>r s' b. create_series short_crypto ''secret'' sample_ministry_series (january_env steward_id) sample_taken = Inr (r, s') \<and>
     b \<in> set (db_bookings sample_taken) \<and> b \<notin> set (db_bookings s') \<and> bk_ministry_id b = None \<and>
     moment 2026 1 15 9 0 < bk_start_at b"
proof -
  let ?b = "sample_booking 41 (moment 2026 6 1 14 0) (moment 2026 6 1 16 0)"
  obtain r s' where r: "create_series short_crypto ''secret'' sample_ministry_series (january_env steward_id) sample_taken = Inr (r, s')"
    and st: "\<forall>b\<in>set (db_bookings s'). bk_id b = 41 \<longrightarrow> bk_status b = BS_OVERRIDDEN"
    using sample_ministry_series_returns unfolding inr_sat_eq list_all_iff by (auto split: prod.splits)
  have b: "?b \<in> set (db_bookings sample_taken)" by (simp add: sample_taken_def)
  have gone: "?b \<notin> set (db_bookings s')" using st by (auto simp: sample_booking_def)
  from create_series_displaces_only_on_terms [OF sample_taken_wf r b] gone
  have "bk_ministry_id ?b = None \<and> en_now_utc (january_env steward_id) < bk_start_at ?b" by simp
  with r b gone show ?thesis by (auto simp: january_env_def sample_env_def)
qed

lemma sample_evaluation_confirmable:
  "inr_sat (evaluate_proposal short_crypto ''secret'' sample_ministry_series (january_env steward_id) sample_taken)
     (\<lambda>(v, s0). pe_is_confirmable v \<and> map im_booking_id (pe_override_impacts v) = [41])"
  by code_simp

lemma short_crypto_readable:
  "length impacts = 1 \<Longrightarrow> review_readable short_crypto secret booker ministry proposal impacts"
  by (cases impacts) (auto simp: review_readable_def short_crypto_def issued_payload_def context_digest_def reviewed_dict_def
      booking_digest_def impact_fingerprint_def TOKEN_VERSION_def)

theorem evaluation_decides_creation_witness:
  "\<exists>v. evaluate_proposal short_crypto ''secret'' sample_ministry_series (january_env steward_id) sample_taken = Inr (v, sample_taken) \<and>
     pe_is_confirmable v \<and>
     ((\<exists>r. create_series short_crypto ''secret'' (sample_ministry_series\<lparr>cs_override_review_token := pe_override_review_token v\<rparr>)
        (january_env steward_id) sample_taken = Inr r) \<or>
      create_series short_crypto ''secret'' (sample_ministry_series\<lparr>cs_override_review_token := pe_override_review_token v\<rparr>)
        (january_env steward_id) sample_taken \<in> {Inl integrity, Inl value_error})"
proof -
  obtain v s0 where v: "evaluate_proposal short_crypto ''secret'' sample_ministry_series (january_env steward_id) sample_taken = Inr (v, s0)"
    "pe_is_confirmable v" "map im_booking_id (pe_override_impacts v) = [41]"
    using sample_evaluation_confirmable unfolding inr_sat_eq by (auto split: prod.splits)
  have len: "length (pe_override_impacts v) = 1" using arg_cong [OF v(3), of length] by simp
  have title: "truthy (cs_title sample_ministry_series)" by (simp add: sample_ministry_series_def sample_series_def truthy_def)
  show ?thesis
    using evaluation_decides_creation [OF v(1) title] short_crypto_readable [OF len] v(1,2)
    by (cases "create_series short_crypto ''secret'' (sample_ministry_series\<lparr>cs_override_review_token := pe_override_review_token v\<rparr>)
        (january_env steward_id) sample_taken") auto
qed

section \<open>The schedule of a series\<close>

definition series_dates :: "create_series_command \<Rightarrow> date list" where
  "series_dates command =
     filter (\<lambda>d. d \<notin> set (cs_excluded_dates command))
       (weekly_occurrence_dates (cs_first_occurrence_date command) (cs_last_occurrence_date command))"

lemma remaining_dates:
  assumes "prepare_series command e s = Inr p"
  shows "map po_occurrence_date (remaining_of command p) = series_dates command"
proof -
  have "map po_occurrence_date (filter (\<lambda>item. po_occurrence_date item \<notin> X) items) = filter (\<lambda>d. d \<notin> X) (map po_occurrence_date items)" for X items
    by (induction items) auto
  then show ?thesis by (simp add: remaining_of_def series_dates_def prepared_dates(1) [OF assms, symmetric])
qed

lemma zip_third: "length ids = length xs \<Longrightarrow> length qs = length xs \<Longrightarrow> map (\<lambda>(i, x, q). f x) (zip ids (zip xs qs)) = map f xs"
  by (rule nth_equalityI) auto

lemma zip_first: "length ids = length xs \<Longrightarrow> length qs = length xs \<Longrightarrow> map (\<lambda>(i, x, q). g i) (zip ids (zip xs qs)) = map g ids"
  by (rule nth_equalityI) auto

lemma keeps_series_rows:
  assumes "keeps_rows s s'"
  shows "map bk_id (filter (\<lambda>b. bk_series_id b = i) (db_bookings s')) = map bk_id (filter (\<lambda>b. bk_series_id b = i) (db_bookings s))"
proof -
  let ?k = "\<lambda>b. (bk_id b, bk_user_id b, bk_series_id b)"
  have e: "map bk_id (filter (\<lambda>b. bk_series_id b = i) bs) = map fst (filter (\<lambda>x. snd (snd x) = i) (map ?k bs))" for bs
    by (induction bs) auto
  show ?thesis using assms unfolding e keeps_rows_def by simp
qed

text \<open>C12. A created series is the schedule asked for: one Booking per weekly date of the range that is not excluded, each at
  the requested local times of that date, at least the minimum number of them, all within one half of a year; an
  excluded date is one that conflicted; and the Bookings of the series in the tables are exactly those, in order.\<close>

theorem created_series_schedule:
  assumes "wf_db s" "create_series c secret command e s = Inr (r, s')"
  shows "let tz = set_facility_timezone (en_settings e); dates = series_dates command in
    map (\<lambda>occ. to_local tz (or_start_at occ)) (sr_occurrences r) = map (\<lambda>d. combine d (cs_local_start_time command)) dates \<and>
    map (\<lambda>occ. to_local tz (or_end_at occ)) (sr_occurrences r) = map (\<lambda>d. combine d (cs_local_end_time command)) dates \<and>
    set_min_recurring_booking_weeks (en_settings e) \<le> int (length dates) \<and>
    use_period_for_date (cs_first_occurrence_date command) = use_period_for_date (cs_last_occurrence_date command) \<and>
    (\<exists>p. prepare_series command e s = Inr p \<and>
       set (cs_excluded_dates command) \<subseteq> set (map sc_occurrence_date (collect_conflicts e s command p))) \<and>
    map bk_id (filter (\<lambda>b. bk_series_id b = Some (sr_id r)) (db_bookings s')) = map or_id (sr_occurrences r)"
proof -
  from assms obtain p rem ovr quotes hold s1 ids occs s2 st where
    p: "prepare_series command e s = Inr p" "unexcluded_occurrences e s command p = Inr (rem, ovr)" and
    "cs_require_override_review command \<longrightarrow> require_reviewed_override c secret (cs_override_review_token command) (ps_booker_id p)
       (cs_ministry_id command) (series_proposal command rem) (unique_impacts (override_targets s ovr (ps_local_tz p))) = Inr ()" and
    q: "length quotes = length rem" and "occupancy s1 0 = occupancy s 0" and
    s1: "db_bookings s1 = db_bookings s" and "db_next_uuid s1 = db_next_uuid s + 1"
    "st = (if list_all qt_is_free_ministry quotes then BS_CONFIRMED else BS_PENDING_PAYMENT)"
    "hold_active s1 (db_next_uuid s) 0 \<longleftrightarrow> is_pending_payment_hold_active hold 0" and
    w: "occurrences_written e command (ps_booker_id p) (db_next_uuid s) st 0 (zip rem quotes) ids s1 s2" and
    occs: "occs = map (\<lambda>(i, item, q). created_occurrence command st item q i) (zip ids (zip rem quotes))" and
    r: "r = created_series command p quotes hold (db_next_uuid s) occs" and
    s': "s' = displace_series_targets command p rem occs (override_targets s ovr (ps_local_tz p)) (db_next_uuid s) e s2" and
    "quotes_of e s command (ps_booker_id p) rem = Inr quotes"
    by (rule create_series_effect)
  let ?tz = "set_facility_timezone (en_settings e)"
  have rem: "rem = remaining_of command p" "set_min_recurring_booking_weeks (en_settings e) \<le> int (length rem)"
    "set (cs_excluded_dates command) \<subseteq> set (map sc_occurrence_date (collect_conflicts e s command p))"
    using p(2) by (auto simp: unexcluded_Inr invalid_exclusion_def)
  have len: "length ids = length rem" using w q by (simp add: occurrences_written_def)
  have tz: "ps_local_tz p = ?tz" by (rule prepare_series_Inr [OF p(1)])
  have per: "use_period_for_date (cs_first_occurrence_date command) = use_period_for_date (cs_last_occurrence_date command)"
    by (rule prepare_series_Inr [OF p(1)])
  have dates: "map po_occurrence_date rem = series_dates command" unfolding rem(1) by (rule remaining_dates [OF p(1)])
  then have nd: "length rem = length (series_dates command)" by (metis length_map)
  have ok: "\<forall>item\<in>set rem. to_local ?tz (po_start_at item) = combine (po_occurrence_date item) (cs_local_start_time command) \<and>
      to_local ?tz (po_end_at item) = combine (po_occurrence_date item) (cs_local_end_time command)"
    using prepared_dates(2) [OF p(1)] unfolding tz rem(1) by (auto simp: remaining_of_def occurrence_ok_def)
  have oc: "sr_occurrences r = occs" "sr_id r = db_next_uuid s" by (simp_all add: r created_series_def Let_def)
  have "map (\<lambda>occ. to_local ?tz (or_start_at occ)) occs = map (\<lambda>(i, item, q). to_local ?tz (po_start_at item)) (zip ids (zip rem quotes))"
    by (simp add: occs created_occurrence_def case_prod_unfold)
  then have a: "map (\<lambda>occ. to_local ?tz (or_start_at occ)) occs = map (\<lambda>d. combine d (cs_local_start_time command)) (series_dates command)"
    using ok by (simp add: zip_third [OF len q] dates [symmetric])
  have "map (\<lambda>occ. to_local ?tz (or_end_at occ)) occs = map (\<lambda>(i, item, q). to_local ?tz (po_end_at item)) (zip ids (zip rem quotes))"
    by (simp add: occs created_occurrence_def case_prod_unfold)
  then have b: "map (\<lambda>occ. to_local ?tz (or_end_at occ)) occs = map (\<lambda>d. combine d (cs_local_end_time command)) (series_dates command)"
    using ok by (simp add: zip_third [OF len q] dates [symmetric])
  have old: "filter (\<lambda>b. bk_series_id b = Some (db_next_uuid s)) (db_bookings s) = []"
    using assms(1) by (auto simp: filter_empty_conv wf_db_def ids_below_def)
  have "db_bookings s2 = db_bookings s @ map (\<lambda>(i, item, q). new_occurrence e command (ps_booker_id p) (db_next_uuid s) st item q i) (zip ids (zip rem quotes))"
    using w by (simp add: occurrences_written_def s1)
  moreover have "filter (\<lambda>b. bk_series_id b = Some (db_next_uuid s))
      (map (\<lambda>(i, item, q). new_occurrence e command (ps_booker_id p) (db_next_uuid s) st item q i) zs) =
      map (\<lambda>(i, item, q). new_occurrence e command (ps_booker_id p) (db_next_uuid s) st item q i) zs" for zs
    by (simp add: filter_id_conv case_prod_unfold)
  ultimately have "map bk_id (filter (\<lambda>b. bk_series_id b = Some (db_next_uuid s)) (db_bookings s2)) = ids"
    using zip_first [OF len q, of id] by (simp add: old case_prod_unfold comp_def)
  moreover have "map or_id occs = ids"
    using zip_first [OF len q, of id] by (simp add: occs created_occurrence_def case_prod_unfold comp_def)
  ultimately have "map bk_id (filter (\<lambda>b. bk_series_id b = Some (db_next_uuid s)) (db_bookings s')) = map or_id occs"
    unfolding s' keeps_series_rows [OF keeps_rows_displace_series] by simp
  with a b rem p(1) per nd show ?thesis unfolding oc Let_def by simp
qed

theorem created_series_schedule_witness:
  "\<exists>r s'. create_series short_crypto ''secret'' sample_series (june_env member_id) sample_taken = Inr (r, s') \<and>
     map bk_id (filter (\<lambda>b. bk_series_id b = Some (sr_id r)) (db_bookings s')) = map or_id (sr_occurrences r)"
proof -
  obtain r s' where r: "create_series short_crypto ''secret'' sample_series (june_env member_id) sample_taken = Inr (r, s')"
    by (rule sample_series_created)
  from created_series_schedule [OF sample_taken_wf r] r show ?thesis by (auto simp: Let_def)
qed

section \<open>The weekly quota\<close>

text \<open>Local midnight of a day splits the time line where the clocks do not change around it.\<close>

definition clean_midnight :: "zone \<Rightarrow> date \<Rightarrow> bool" where
  "clean_midnight tz d \<longleftrightarrow> (\<forall>u. to_local tz u < combine d 0 \<longleftrightarrow> u < from_local tz (combine d 0))"

lemma sunday_week_start_mono: "d \<le> d' \<Longrightarrow> sunday_week_start d \<le> sunday_week_start d'"
proof -
  assume le: "d \<le> d'"
  have "sunday_week_start x = 7 * (x div 7)" for x
  proof (rule sunday_week_start_unique)
    show "7 * (x div 7) \<le> x" "x \<le> 7 * (x div 7) + 6" by presburger+
    show "weekday (7 * (x div 7)) = 6" unfolding weekday_def by presburger
  qed
  then show ?thesis using le by (simp add: zdiv_mono1)
qed

lemma fold_max_list: "fold max xs (x :: int) = Max (insert x (set xs))"
  using Max.set_eq_fold [of x xs] by simp

lemma quota_dates_complete:
  assumes b: "b \<in> set (db_bookings s)" "bk_user_id b = booker" "bk_ministry_id b = None" "\<not> bk_is_deleted b"
      "active_occupancy_clause s (en_sql_now e) b"
    and item: "item \<in> set items"
    and same: "sunday_week_start (wall_date (to_local tz (bk_start_at b))) = sunday_week_start (wall_date (to_local tz (po_start_at item)))"
    and clean: "\<forall>d. clean_midnight tz (sunday_week_start d)"
  shows "po_occurrence_date item \<in> set (weekly_quota_conflict_dates e s booker items tz)"
proof -
  let ?ds = "map (\<lambda>item. wall_date (to_local tz (po_start_at item))) items"
  let ?lo = "fold min (tl ?ds) (hd ?ds)" and ?hi = "fold max (tl ?ds) (hd ?ds)"
  have ne: "?ds \<noteq> []" using item by auto
  let ?d = "wall_date (to_local tz (po_start_at item))" and ?db = "wall_date (to_local tz (bk_start_at b))"
  have "insert (hd ?ds) (set (tl ?ds)) = set ?ds" using ne by (metis list.collapse list.simps(15))
  then have mm: "?lo = Min (set ?ds)" "?hi = Max (set ?ds)" by (simp_all only: fold_min_list fold_max_list)
  have "?d \<in> set ?ds" using item by simp
  then have lo: "?lo \<le> ?d" and hi: "?d \<le> ?hi" unfolding mm by (simp_all add: Min_le Max_ge)
  have wk: "sunday_week_start ?lo \<le> sunday_week_start ?db" "sunday_week_start ?db \<le> sunday_week_start ?hi"
    unfolding same by (rule sunday_week_start_mono [OF lo], rule sunday_week_start_mono [OF hi])
  have next_week: "sunday_week_start (sunday_week_start ?hi + 7) = sunday_week_start ?hi + 7"
  proof (rule sunday_week_start_unique)
    show "weekday (sunday_week_start ?hi + 7) = 6"
      using weekday_add_weeks [of "sunday_week_start ?hi" 1] sunday_week_start_bounds(3) [of ?hi] by simp
  qed simp_all
  have "from_local tz (combine (sunday_week_start ?lo) 0) \<le> bk_start_at b"
  proof -
    have "\<not> to_local tz (bk_start_at b) < combine (sunday_week_start ?lo) 0"
      using wk(1) sunday_week_start_bounds(1) [of ?db] by (simp add: wall_less_midnight)
    then show ?thesis using clean unfolding clean_midnight_def by (metis not_less)
  qed
  moreover have "bk_start_at b < from_local tz (combine (sunday_week_start ?hi + 7) 0)"
  proof -
    have "to_local tz (bk_start_at b) < combine (sunday_week_start ?hi + 7) 0"
      using wk(2) sunday_week_start_bounds(2) [of ?db] by (simp add: wall_less_midnight)
    then show ?thesis using clean next_week unfolding clean_midnight_def by metis
  qed
  ultimately have "bk_start_at b \<in> set (list_rental_occurrence_starts s (en_sql_now e) booker
      (from_local tz (combine (sunday_week_start ?lo) 0)) (from_local tz (combine (sunday_week_start ?hi + 7) 0)))"
    using b by (auto simp: list_rental_occurrence_starts_def)
  then have "sunday_week_start ?d \<in> (\<lambda>u. sunday_week_start (wall_date (to_local tz u))) ` set (list_rental_occurrence_starts s (en_sql_now e) booker
      (from_local tz (combine (sunday_week_start ?lo) 0)) (from_local tz (combine (sunday_week_start ?hi + 7) 0)))"
    unfolding same [symmetric] by blast
  then show ?thesis using item unfolding weekly_quota_conflict_dates_def Let_def by auto
qed

text \<open>C13. A personal series respects the weekly quota: no occurrence of it falls into a facility-local Sunday week in
  which its booker already has a personal Booking that counts.\<close>

theorem personal_series_respects_quota:
  assumes "wf_db s" "create_series c secret command e s = Inr (r, s')" "cs_ministry_id command = None"
    and "\<forall>d. clean_midnight (set_facility_timezone (en_settings e)) (sunday_week_start d)"
    and "b \<in> set (db_bookings s)" "bk_user_id b = sr_user_id r" "bk_ministry_id b = None" "\<not> bk_is_deleted b"
    and "active_occupancy_clause s (en_sql_now e) b" "occ \<in> set (sr_occurrences r)"
  shows "sunday_week_start (wall_date (to_local (set_facility_timezone (en_settings e)) (bk_start_at b))) \<noteq>
    sunday_week_start (wall_date (to_local (set_facility_timezone (en_settings e)) (or_start_at occ)))"
proof
  assume same: "sunday_week_start (wall_date (to_local (set_facility_timezone (en_settings e)) (bk_start_at b))) =
    sunday_week_start (wall_date (to_local (set_facility_timezone (en_settings e)) (or_start_at occ)))"
  from assms(1,2) obtain p rem ovr quotes hold s1 ids occs s2 st where
    p: "prepare_series command e s = Inr p" "unexcluded_occurrences e s command p = Inr (rem, ovr)" and
    "cs_require_override_review command \<longrightarrow> require_reviewed_override c secret (cs_override_review_token command) (ps_booker_id p)
       (cs_ministry_id command) (series_proposal command rem) (unique_impacts (override_targets s ovr (ps_local_tz p))) = Inr ()"
    "length quotes = length rem" "occupancy s1 0 = occupancy s 0" "db_bookings s1 = db_bookings s" "db_next_uuid s1 = db_next_uuid s + 1"
    "st = (if list_all qt_is_free_ministry quotes then BS_CONFIRMED else BS_PENDING_PAYMENT)"
    "hold_active s1 (db_next_uuid s) 0 \<longleftrightarrow> is_pending_payment_hold_active hold 0"
    "occurrences_written e command (ps_booker_id p) (db_next_uuid s) st 0 (zip rem quotes) ids s1 s2" and
    occs: "occs = map (\<lambda>(i, item, q). created_occurrence command st item q i) (zip ids (zip rem quotes))" and
    r: "r = created_series command p quotes hold (db_next_uuid s) occs" and
    "s' = displace_series_targets command p rem occs (override_targets s ovr (ps_local_tz p)) (db_next_uuid s) e s2"
    "quotes_of e s command (ps_booker_id p) rem = Inr quotes"
    by (rule create_series_effect)
  have tz: "ps_local_tz p = set_facility_timezone (en_settings e)" by (rule prepare_series_Inr [OF p(1)])
  obtain i item q where z: "(i, item, q) \<in> set (zip ids (zip rem quotes))" "occ = created_occurrence command st item q i"
    using assms(10) by (auto simp: r created_series_def Let_def occs)
  have "(item, q) \<in> set (zip rem quotes)" using z(1) by (rule set_zip_rightD)
  then have item: "item \<in> set rem" by (rule set_zip_leftD)
  then have it: "item \<in> set (ps_occurrences p)" "po_occurrence_date item \<notin> set (cs_excluded_dates command)"
    using p(2) by (auto simp: unexcluded_Inr remaining_of_def)
  have booker: "bk_user_id b = ps_booker_id p" using assms(6) by (simp add: r created_series_def Let_def)
  have "po_occurrence_date item \<in> set (weekly_quota_conflict_dates e s (ps_booker_id p) (ps_occurrences p) (ps_local_tz p))"
    by (rule quota_dates_complete [OF assms(5) booker assms(7-9) it(1)])
       (use same assms(4) z(2) in \<open>simp_all add: tz created_occurrence_def\<close>)
  then have "occurrence_conflict (po_occurrence_date item) KWEEKLY_QUOTA [] [] \<in> set (collect_conflicts e s command p)"
    using assms(3) by (simp add: set_collect_conflicts)
  then have "sc_is_overridable (occurrence_conflict (po_occurrence_date item) KWEEKLY_QUOTA [] [])"
    using p(2) it(2) by (auto simp: unexcluded_Inr)
  then show False by simp
qed

lemma clean_midnight_utc: "clean_midnight utc_zone d" by (simp add: clean_midnight_def)

lemma sample_series_booker:
  assumes "create_series short_crypto ''secret'' sample_series (june_env member_id) sample_taken = Inr (r, s')"
  shows "sr_user_id r = member_id"
proof -
  obtain p quotes hold i occs where "prepare_series sample_series (june_env member_id) sample_taken = Inr p"
    "r = created_series sample_series p quotes hold i occs"
    using assms by (rule create_series_Inr)
  moreover have "ps_booker_id p = member_id" if "prepare_series sample_series (june_env member_id) sample_taken = Inr p" for p
    using that by (rule prepare_series_Inr) (simp add: sample_series_def june_env_def sample_env_def booker_of_def)
  ultimately show ?thesis by (simp add: created_series_def Let_def)
qed

text \<open>The choir of 1 June is the member's own; the class begins five weeks later.\<close>

theorem personal_series_respects_quota_witness:
  "\<exists>r s'. create_series short_crypto ''secret'' sample_series (june_env member_id) sample_taken = Inr (r, s') \<and>
     sunday_week_start (wall_date (moment 2026 6 1 14 0)) \<notin>
       (\<lambda>occ. sunday_week_start (wall_date (or_start_at occ))) ` set (sr_occurrences r)"
proof -
  let ?b = "sample_booking 41 (moment 2026 6 1 14 0) (moment 2026 6 1 16 0)"
  obtain r s' where r: "create_series short_crypto ''secret'' sample_series (june_env member_id) sample_taken = Inr (r, s')"
    "sr_user_id r = member_id"
    by (rule sample_series_created) (use sample_series_booker in blast)
  have tz: "set_facility_timezone (en_settings (june_env member_id)) = utc_zone" by (simp add: june_env_def sample_env_def sample_settings_def)
  have b: "?b \<in> set (db_bookings sample_taken)" "bk_user_id ?b = sr_user_id r" "bk_ministry_id ?b = None" "\<not> bk_is_deleted ?b"
    "active_occupancy_clause sample_taken (en_sql_now (june_env member_id)) ?b" "cs_ministry_id sample_series = None"
    using r(2) by (simp_all add: sample_taken_def sample_booking_def active_occupancy_clause_def sample_series_def)
  have "sunday_week_start (wall_date (moment 2026 6 1 14 0)) \<noteq> sunday_week_start (wall_date (or_start_at occ))"
    if "occ \<in> set (sr_occurrences r)" for occ
    using personal_series_respects_quota [OF sample_taken_wf r(1) b(6) _ b(1-5) that] clean_midnight_utc
    by (simp add: tz sample_booking_def)
  with r(1) show ?thesis by blast
qed

end
