(* ===== verification/Series_Lifecycle.thy ===== *)
theory Series_Lifecycle imports Series_Schedule begin

text \<open>
  What happens to a Recurring Booking Series after its creation: payment confirmation and cancellation.
  Each operation is characterised by the rows it rewrites; the lemmas on the loops that cancel Bookings
  are shared with the expiry sweep and the impact of a blackout.
\<close>

section \<open>Cancelling a list of Bookings\<close>

definition cancelled :: "instant \<Rightarrow> uuid option \<Rightarrow> string option \<Rightarrow> booking \<Rightarrow> booking" where
  "cancelled now by_id reason b =
     b\<lparr>bk_status := BS_CANCELLED, bk_cancelled_at := Some now, bk_cancelled_by_id := by_id, bk_cancel_reason := reason\<rparr>"

definition released :: "slot \<Rightarrow> slot" where "released sl = sl\<lparr>sl_status := SS_CANCELLED\<rparr>"

definition cancel_bookings :: "instant \<Rightarrow> uuid option \<Rightarrow> string option \<Rightarrow> uuid set \<Rightarrow> db \<Rightarrow> db" where
  "cancel_bookings now by_id reason ids s =
     s\<lparr>db_bookings := update_where (\<lambda>b. bk_id b \<in> ids) (cancelled now by_id reason) (db_bookings s),
       db_slots := update_where (\<lambda>sl. sl_booking_id sl \<in> ids) released (db_slots s)\<rparr>"

lemma cancelled_simps [simp]:
  "bk_id (cancelled now u r b) = bk_id b" "bk_series_id (cancelled now u r b) = bk_series_id b"
  "bk_is_deleted (cancelled now u r b) = bk_is_deleted b" "bk_start_at (cancelled now u r b) = bk_start_at b"
  "bk_end_at (cancelled now u r b) = bk_end_at b" "bk_user_id (cancelled now u r b) = bk_user_id b"
  "bk_status (cancelled now u r b) = BS_CANCELLED" "cancelled now u r (cancelled now u r b) = cancelled now u r b"
  by (simp_all add: cancelled_def)

lemma released_simps [simp]:
  "sl_booking_id (released sl) = sl_booking_id sl" "sl_status (released sl) = SS_CANCELLED" "released (released sl) = released sl"
  "sl_facility_id (released sl) = sl_facility_id sl" "sl_start_at (released sl) = sl_start_at sl" "sl_end_at (released sl) = sl_end_at sl"
  by (simp_all add: released_def)

lemma cancel_booking_eq: "cancel_booking now i u r True s = cancel_bookings now u r {i} s"
  by (simp add: cancel_booking_def cancel_bookings_def release_slots_def cancelled_def [abs_def] released_def [abs_def])

lemma cancel_bookings_empty: "cancel_bookings now u r {} s = s"
  by (simp add: cancel_bookings_def update_where_def)

lemma cancel_bookings_Un:
  "cancel_bookings now u r I (cancel_bookings now u r J s) = cancel_bookings now u r (J \<union> I) s"
  by (simp add: cancel_bookings_def update_where_def)

lemma cancel_loop: "fold (\<lambda>x. cancel_booking now (key x) u r True) xs s = cancel_bookings now u r (key ` set xs) s"
proof (induction xs arbitrary: s)
  case Nil
  then show ?case by (simp add: cancel_bookings_empty)
next
  case (Cons x xs)
  then show ?case by (simp add: cancel_booking_eq cancel_bookings_Un)
qed

lemma cancel_bookings_frame [simp]:
  "db_series (cancel_bookings now u r I s) = db_series s" "db_users (cancel_bookings now u r I s) = db_users s"
  "db_lines (cancel_bookings now u r I s) = db_lines s" "db_ministries (cancel_bookings now u r I s) = db_ministries s"
  "db_bookings (cancel_bookings now u r I s) = update_where (\<lambda>b. bk_id b \<in> I) (cancelled now u r) (db_bookings s)"
  "db_slots (cancel_bookings now u r I s) = update_where (\<lambda>sl. sl_booking_id sl \<in> I) released (db_slots s)"
  by (simp_all add: cancel_bookings_def)

lemma keeps_rows_cancel_bookings: "keeps_rows s (cancel_bookings now u r I s)"
  by (simp add: keeps_rows_def cancel_bookings_def map_update_where)

lemma occupancy_cancel_bookings: "occupancy (cancel_bookings now u r I s) t = {x \<in> occupancy s t. fst x \<notin> I}"
proof -
  have act: "active_occupancy_clause (cancel_bookings now u r I s) t b = active_occupancy_clause s t b" for b
    by (rule active_cong_series) simp
  have dead: "\<not> active_occupancy_clause s t (cancelled now u r b)" for b by (simp add: active_occupancy_clause_def)
  show ?thesis
    unfolding occupancy_def act
    by (auto simp: set_update_where dead split: if_splits) (metis (no_types, lifting))+
qed

lemma update_where_cong_set:
  "(\<And>x. x \<in> set xs \<Longrightarrow> p x = q x) \<Longrightarrow> update_where p f xs = update_where q f xs"
  by (simp add: update_where_def)

lemma update_where_never: "(\<And>x. x \<in> set xs \<Longrightarrow> \<not> p x) \<Longrightarrow> update_where p f xs = xs"
  by (induction xs) (simp_all add: update_where_def)

section \<open>The occurrences of a series\<close>

definition occurrence_of :: "uuid \<Rightarrow> booking \<Rightarrow> bool" where
  "occurrence_of series_id b \<longleftrightarrow> bk_series_id b = Some series_id \<and> \<not> bk_is_deleted b"

definition live_occurrence :: "uuid \<Rightarrow> instant \<Rightarrow> booking \<Rightarrow> bool" where
  "live_occurrence series_id now b \<longleftrightarrow>
     occurrence_of series_id b \<and> bk_status b \<in> {BS_PENDING_PAYMENT, BS_CONFIRMED} \<and> now < bk_start_at b"

definition live_series :: "db \<Rightarrow> uuid \<Rightarrow> series option" where
  "live_series s series_id = List.find (\<lambda>x. se_id x = series_id \<and> \<not> se_is_deleted x) (db_series s)"

definition to_occurrence :: "db \<Rightarrow> booking \<Rightarrow> occurrence_result" where
  "to_occurrence s b =
     \<lparr>or_id = bk_id b, or_title = bk_title b, or_start_at = bk_start_at b, or_end_at = bk_end_at b,
      or_status = bk_status b, or_quoted_amount = bk_quoted_amount b, or_currency = bk_currency b,
      or_facility_ids = map (\<lambda>l. rl_facility_id (ln_row l)) (fetch_booking_rooms s (bk_id b) None),
      or_is_free_ministry = bk_is_mission_aligned b\<rparr>"

lemma to_occurrence_simps [simp]:
  "or_id (to_occurrence s b) = bk_id b" "or_start_at (to_occurrence s b) = bk_start_at b"
  "or_end_at (to_occurrence s b) = bk_end_at b" "or_status (to_occurrence s b) = bk_status b"
  by (simp_all add: to_occurrence_def)

lemma list_series_occurrences_eq:
  "list_series_occurrences s i = map (to_occurrence s) (sort_key bk_start_at (filter (occurrence_of i) (db_bookings s)))"
  by (simp add: list_series_occurrences_def occurrence_of_def [abs_def] to_occurrence_def [abs_def])

lemma set_series_occurrences:
  "set (list_series_occurrences s i) = to_occurrence s ` {b \<in> set (db_bookings s). occurrence_of i b}"
  by (auto simp: list_series_occurrences_eq)

lemma ids_of_occurrences:
  "or_id ` set (filter Q (list_series_occurrences s i)) =
     bk_id ` {b \<in> set (db_bookings s). occurrence_of i b \<and> Q (to_occurrence s b)}"
  by (force simp: set_series_occurrences)

lemma cancellable_iff: "occurrence_of i b \<Longrightarrow> is_cancellable (to_occurrence s b) now \<longleftrightarrow> live_occurrence i now b"
  by (simp add: is_cancellable_def live_occurrence_def)

lemma no_live_left:
  "filter (\<lambda>item. is_cancellable item now) (list_series_occurrences s i) = [] \<longleftrightarrow>
     (\<forall>b\<in>set (db_bookings s). \<not> live_occurrence i now b)"
  unfolding filter_empty_conv set_series_occurrences by (auto simp: cancellable_iff live_occurrence_def)

lemma series_with_occurrences_Inr:
  "series_with_occurrences e s i = Inr series \<longleftrightarrow>
     (\<exists>x. series_get_by_id s i (en_locale_id e) = Some x \<and> series = with_occurrences (list_series_occurrences s i) x)"
  by (auto simp: series_with_occurrences_def split: option.splits)

lemma series_get_by_id_Some:
  assumes "series_get_by_id s i l = Some series"
  obtains x where "live_series s i = Some x" "sr_id series = i" "sr_status series = se_status x"
    "sr_payment_hold_expires_at series = se_payment_hold_expires_at x" "sr_user_id series = se_user_id x"
proof -
  obtain x u where x: "live_series s i = Some x" and
    r: "series = (to_series_result x)\<lparr>sr_user_email := Some (us_email u), sr_user_display_name := display_name_expr u,
                sr_ministry_name := ministry_name_subquery s l (se_ministry_id x), sr_remark := se_remark x,
                sr_is_free_ministry := se_is_mission_aligned x, sr_created_at := Some (se_created_at x)\<rparr>"
    using assms by (auto simp: series_get_by_id_def live_series_def split: option.splits)
  have "se_id x = i" using x by (auto simp: live_series_def dest: find_Some_set)
  with x show ?thesis by (intro that) (simp_all add: r to_series_result_def)
qed

lemma with_occurrences_simps [simp]:
  "sr_id (with_occurrences os x) = sr_id x" "sr_status (with_occurrences os x) = sr_status x"
  "sr_user_id (with_occurrences os x) = sr_user_id x" "sr_occurrences (with_occurrences os x) = os"
  "sr_payment_hold_expires_at (with_occurrences os x) = sr_payment_hold_expires_at x"
  by (simp_all add: with_occurrences_def)

section \<open>Cancellation\<close>

text \<open>
  What a cancellation of series \<open>i\<close> asks for: the occurrences that are still live and have not started,
  all of them, the one named, or those from the named one on.
\<close>

definition in_scope :: "cancel_series_command \<Rightarrow> uuid \<Rightarrow> instant \<Rightarrow> db \<Rightarrow> booking \<Rightarrow> bool" where
  "in_scope command i now s b \<longleftrightarrow>
     live_occurrence i now b \<and>
     (xs_scope command = ''occurrence'' \<longrightarrow> xs_occurrence_id command = Some (bk_id b)) \<and>
     (xs_scope command = ''this_and_future'' \<longrightarrow>
        (\<exists>p\<in>set (db_bookings s). occurrence_of i p \<and> xs_occurrence_id command = Some (bk_id p) \<and> bk_start_at p \<le> bk_start_at b))"

lemma same_booking:
  "distinct (map bk_id (db_bookings s)) \<Longrightarrow> b \<in> set (db_bookings s) \<Longrightarrow> b' \<in> set (db_bookings s) \<Longrightarrow>
   bk_id b = bk_id b' \<Longrightarrow> b = b'"
  by (auto simp: distinct_map inj_on_def)

lemma require_occurrence_Inr:
  assumes "require_occurrence (list_series_occurrences s i) oid = Inr item"
  obtains p where "p \<in> set (db_bookings s)" "occurrence_of i p" "oid = Some (bk_id p)" "item = to_occurrence s p"
proof -
  obtain j where j: "oid = Some j" "item \<in> set (list_series_occurrences s i)" "or_id item = j"
    using assms by (auto simp: require_occurrence_def dest: find_Some_set split: option.splits)
  then show ?thesis by (auto simp: set_series_occurrences intro: that)
qed

lemma cancellation_targets_Inr:
  assumes d: "distinct (map bk_id (db_bookings s))"
    and t: "cancellation_targets (list_series_occurrences s i) command now = Inr targets"
  shows "or_id ` set targets = bk_id ` {b \<in> set (db_bookings s). in_scope command i now s b}"
proof (cases "xs_scope command = ''occurrence''")
  case True
  with t obtain p where p: "p \<in> set (db_bookings s)" "occurrence_of i p" "xs_occurrence_id command = Some (bk_id p)"
      and targets: "targets = (if is_cancellable (to_occurrence s p) now then [to_occurrence s p] else [])"
    by (auto simp: cancellation_targets_def guard_simps elim!: require_occurrence_Inr)
  have "in_scope command i now s b \<longleftrightarrow> live_occurrence i now p \<and> b = p" if "b \<in> set (db_bookings s)" for b
    using True p same_booking [OF d that p(1)] by (auto simp: in_scope_def)
  then have "{b \<in> set (db_bookings s). in_scope command i now s b} = (if live_occurrence i now p then {p} else {})"
    using p(1) by auto
  then show ?thesis by (simp add: targets cancellable_iff [OF p(2)])
next
  case F: False
  show ?thesis
  proof (cases "xs_scope command = ''this_and_future''")
    case True
    with t obtain p where p: "p \<in> set (db_bookings s)" "occurrence_of i p" "xs_occurrence_id command = Some (bk_id p)"
        and targets: "targets = filter (\<lambda>item. or_start_at item \<ge> bk_start_at p \<and> is_cancellable item now) (list_series_occurrences s i)"
      by (auto simp: cancellation_targets_def guard_simps elim!: require_occurrence_Inr)
    have "in_scope command i now s b \<longleftrightarrow> live_occurrence i now b \<and> bk_start_at p \<le> bk_start_at b" for b
      using True p same_booking [OF d p(1)] by (auto simp: in_scope_def)
    then show ?thesis
      unfolding targets ids_of_occurrences by (auto simp: is_cancellable_def live_occurrence_def intro!: arg_cong [where f = "image bk_id"])
  next
    case False
    with F t have targets: "targets = filter (\<lambda>item. is_cancellable item now) (list_series_occurrences s i)"
      by (simp add: cancellation_targets_def)
    show ?thesis
      unfolding targets ids_of_occurrences using F False
      by (auto simp: in_scope_def is_cancellable_def live_occurrence_def intro!: arg_cong [where f = "image bk_id"])
  qed
qed

lemma update_where_keys:
  assumes "distinct (map bk_id (db_bookings s))"
  shows "update_where (\<lambda>b. bk_id b \<in> bk_id ` {b \<in> set (db_bookings s). P b}) f (db_bookings s) = update_where P f (db_bookings s)"
  by (rule update_where_cong_set) (use same_booking [OF assms] in blast)

definition closed_by :: "uuid \<Rightarrow> series \<Rightarrow> series" where
  "closed_by operator_id x =
     x\<lparr>se_status := BS_CANCELLED, se_payment_hold_expires_at := None, se_updated_by_id := Some operator_id\<rparr>"

lemma close_series_eq:
  "close_series i u s = s\<lparr>db_series := update_where (\<lambda>x. se_id x = i \<and> \<not> se_is_deleted x) (closed_by u) (db_series s)\<rparr>"
  by (simp add: close_series_def update_series_def closed_by_def [abs_def])

text \<open>The whole effect of a cancellation, for both callers.\<close>

lemma apply_cancellation_effect:
  assumes d: "distinct (map bk_id (db_bookings s))"
    and o: "sr_occurrences series = list_series_occurrences s (sr_id series)"
    and r: "apply_cancellation series command e s = Inr (r, s')"
  obtains u where "en_user_id e = Some u"
    "xs_scope command \<in> {''occurrence'', ''this_and_future'', ''entire_series''}"
    "s' = (let s1 = cancel_bookings (en_repo_now e) (Some u) (xs_cancel_reason command)
              (bk_id ` {b \<in> set (db_bookings s). in_scope command (sr_id series) (en_now_utc e) s b}) s
       in if (xs_scope command = ''entire_series'' \<or>
              (\<forall>b\<in>set (db_bookings s1). \<not> live_occurrence (sr_id series) (en_now_utc e) b)) \<and> sr_status series \<noteq> BS_CANCELLED
          then close_series (sr_id series) u s1 else s1)"
proof -
  from r obtain targets u where u: "en_user_id e = Some u" and
    sc: "xs_scope command \<in> cancellation_scope_value ` {CS_OCCURRENCE, CS_THIS_AND_FUTURE, CS_ENTIRE_SERIES}" and
    t: "cancellation_targets (list_series_occurrences s (sr_id series)) command (en_now_utc e) = Inr targets" and
    s': "s' = (let s1 = fold (\<lambda>occurrence. cancel_booking (en_repo_now e) (or_id occurrence) (Some u)
                         (xs_cancel_reason command) True) targets s
         in if (xs_scope command = cancellation_scope_value CS_ENTIRE_SERIES \<or>
                filter (\<lambda>item. is_cancellable item (en_now_utc e)) (list_series_occurrences s1 (sr_id series)) = []) \<and>
               sr_status series \<noteq> BS_CANCELLED then close_series (sr_id series) u s1 else s1)"
    by (auto simp: apply_cancellation_def guard_simps Let_def o split: option.splits)
  have "cancellation_scope_value CS_ENTIRE_SERIES = ''entire_series''" by simp
  with u sc show ?thesis
    by (intro that) (simp_all add: s' cancel_loop cancellation_targets_Inr [OF d t] no_live_left)
qed

text \<open>
  C16. A cancellation by the office touches exactly what its scope names: the live occurrences in scope that have
  not started are cancelled under the caller's name with the given reason, and their rooms released; every other
  Booking is as it was; and the series itself is closed when its whole was asked for or no live occurrence is left,
  and only then.
\<close>

theorem cancel_series_exact:
  assumes "wf_db s" and "cancel_series i command e s = Inr (r, s')"
  shows "\<exists>x u. live_series s i = Some x \<and> en_user_id e = Some u \<and>
    db_bookings s' = map (\<lambda>b. if in_scope command i (en_now_utc e) s b
        then cancelled (en_repo_now e) (Some u) (xs_cancel_reason command) b else b) (db_bookings s) \<and>
    db_slots s' = map (\<lambda>sl. if sl_booking_id sl \<in> bk_id ` {b \<in> set (db_bookings s). in_scope command i (en_now_utc e) s b}
        then sl\<lparr>sl_status := SS_CANCELLED\<rparr> else sl) (db_slots s) \<and>
    db_series s' =
      (if se_status x \<noteq> BS_CANCELLED \<and>
          (xs_scope command = ''entire_series'' \<or> (\<forall>b\<in>set (db_bookings s'). \<not> live_occurrence i (en_now_utc e) b))
       then map (\<lambda>y. if se_id y = i \<and> \<not> se_is_deleted y then closed_by u y else y) (db_series s) else db_series s)"
proof -
  have d: "distinct (map bk_id (db_bookings s))" using assms(1) by (simp add: wf_db_def)
  from assms(2) obtain x0 where x0: "series_get_by_id s i (en_locale_id e) = Some x0" and
    a: "apply_cancellation (with_occurrences (list_series_occurrences s i) x0) command e s = Inr (r, s')"
    by (auto simp: cancel_series_def guard_simps series_with_occurrences_Inr split: option.splits)
  obtain x where x: "live_series s i = Some x" "sr_id x0 = i" "sr_status x0 = se_status x"
    by (rule series_get_by_id_Some [OF x0])
  obtain u where u: "en_user_id e = Some u" and s': "s' = (let s1 = cancel_bookings (en_repo_now e) (Some u) (xs_cancel_reason command)
              (bk_id ` {b \<in> set (db_bookings s). in_scope command i (en_now_utc e) s b}) s
       in if (xs_scope command = ''entire_series'' \<or>
              (\<forall>b\<in>set (db_bookings s1). \<not> live_occurrence i (en_now_utc e) b)) \<and> se_status x \<noteq> BS_CANCELLED
          then close_series i u s1 else s1)"
    by (rule apply_cancellation_effect [OF d _ a]) (simp_all add: x Let_def)
  let ?I = "bk_id ` {b \<in> set (db_bookings s). in_scope command i (en_now_utc e) s b}"
  let ?s1 = "cancel_bookings (en_repo_now e) (Some u) (xs_cancel_reason command) ?I s"
  let ?close = "(xs_scope command = ''entire_series'' \<or>
      (\<forall>b\<in>set (db_bookings ?s1). \<not> live_occurrence i (en_now_utc e) b)) \<and> se_status x \<noteq> BS_CANCELLED"
  have s'': "s' = (if ?close then close_series i u ?s1 else ?s1)" by (simp add: s' Let_def)
  have b: "db_bookings s' = db_bookings ?s1" and sl: "db_slots s' = db_slots ?s1" by (simp_all add: s'' close_series_eq)
  have "db_bookings s' = map (\<lambda>b. if in_scope command i (en_now_utc e) s b
        then cancelled (en_repo_now e) (Some u) (xs_cancel_reason command) b else b) (db_bookings s)"
    unfolding b cancel_bookings_frame update_where_keys [OF d] by (simp add: update_where_def)
  moreover have "db_slots s' = map (\<lambda>sl. if sl_booking_id sl \<in> ?I then sl\<lparr>sl_status := SS_CANCELLED\<rparr> else sl) (db_slots s)"
    unfolding sl cancel_bookings_frame by (simp add: update_where_def released_def)
  moreover have "db_series s' = (if se_status x \<noteq> BS_CANCELLED \<and>
          (xs_scope command = ''entire_series'' \<or> (\<forall>b\<in>set (db_bookings s'). \<not> live_occurrence i (en_now_utc e) b))
       then map (\<lambda>y. if se_id y = i \<and> \<not> se_is_deleted y then closed_by u y else y) (db_series s) else db_series s)"
    unfolding b by (simp add: s'' close_series_eq update_where_def del: cancel_bookings_frame(5))
  ultimately show ?thesis using x(1) u by blast
qed

section \<open>A series waiting for payment\<close>

text \<open>Three Tuesdays of July in the hall, from 10:00 to 16:00; the payment is due on the first of them at noon.\<close>

definition held_series :: series where
  "held_series =
     \<lparr>se_id = 70, se_user_id = member_id, se_title = ''Language class'', se_ministry_id = None,
      se_first_occurrence_date = ymd2ord 2026 7 7, se_last_occurrence_date = ymd2ord 2026 7 21,
      se_local_start_time = 10 * HOUR_US, se_local_end_time = 16 * HOUR_US, se_status = BS_PENDING_PAYMENT,
      se_payment_hold_expires_at = Some (moment 2026 7 7 12 0), se_billed_hours = Some 18, se_subtotal_amount = Some 180,
      se_discount_percent = None, se_discount_amount = None, se_surcharge_amount = None, se_quoted_amount = Some 180,
      se_currency = Some ''CAD'', se_is_mission_aligned = False, se_is_priority = False, se_remark = None,
      se_updated_by_id = Some member_id, se_created_at = moment 2026 7 5 9 0, se_is_deleted = False\<rparr>"

definition held_occurrence :: "uuid \<Rightarrow> int \<Rightarrow> booking" where
  "held_occurrence i day = (sample_booking i (moment 2026 7 day 10 0) (moment 2026 7 day 16 0))
     \<lparr>bk_series_id := Some 70, bk_booking_type := BT_RECURRING, bk_status := BS_PENDING_PAYMENT\<rparr>"

definition held_db :: db where
  "held_db = sample_db
     \<lparr>db_series := [held_series],
      db_bookings := [held_occurrence 71 7, held_occurrence 72 14, held_occurrence 73 21],
      db_slots := [sample_slot 81 71 hall_id (moment 2026 7 7 10 0) (moment 2026 7 7 16 0),
                   sample_slot 82 72 hall_id (moment 2026 7 14 10 0) (moment 2026 7 14 16 0),
                   sample_slot 83 73 hall_id (moment 2026 7 21 10 0) (moment 2026 7 21 16 0)]\<rparr>"

definition july_env :: "uuid \<Rightarrow> int \<Rightarrow> int \<Rightarrow> env" where
  "july_env user day hour = sample_env user (moment 2026 7 day hour 0)"

definition cancel_later :: cancel_series_command where
  "cancel_later = \<lparr>xs_scope = ''this_and_future'', xs_occurrence_id = Some 72, xs_cancel_reason = Some ''moved away''\<rparr>"

lemma held_db_wf: "wf_db held_db"
  unfolding wf_db_def bookers_exist_def by code_simp

lemma cancel_later_returns:
  "inr_sat (cancel_series 70 cancel_later (july_env steward_id 6 9) held_db)
     (\<lambda>(r, s'). map bk_status (db_bookings s') = [BS_PENDING_PAYMENT, BS_CANCELLED, BS_CANCELLED] \<and>
        map se_status (db_series s') = [BS_PENDING_PAYMENT])"
  by code_simp

theorem cancel_series_exact_witness:
  "\<exists>r s' x u. cancel_series 70 cancel_later (july_env steward_id 6 9) held_db = Inr (r, s') \<and>
     live_series held_db 70 = Some x \<and> en_user_id (july_env steward_id 6 9) = Some u \<and>
     map bk_status (db_bookings s') = [BS_PENDING_PAYMENT, BS_CANCELLED, BS_CANCELLED]"
proof -
  obtain r s' where r: "cancel_series 70 cancel_later (july_env steward_id 6 9) held_db = Inr (r, s')"
    "map bk_status (db_bookings s') = [BS_PENDING_PAYMENT, BS_CANCELLED, BS_CANCELLED]"
    using cancel_later_returns unfolding inr_sat_eq by auto
  obtain x u where "live_series held_db 70 = Some x" "en_user_id (july_env steward_id 6 9) = Some u"
    using cancel_series_exact [OF held_db_wf r(1)] by (elim exE conjE)
  with r show ?thesis by (intro exI conjI)
qed

section \<open>The member's cancellation\<close>

text \<open>
  A member cancels only a series of their own, and says why: a successful cancellation was made by the series'
  booker with a reason of 1 to 250 characters once surrounding white space is gone, which is what the cancelled
  Bookings store; only live occurrences of that series that have not started are cancelled, and no other Booking changes.
\<close>

lemma cancel_my_series_own_only:
  assumes "wf_db s" and "cancel_my_series i command e s = Inr (r, s')"
  shows "\<exists>x reason. live_series s i = Some x \<and> en_user_id e = Some (se_user_id x) \<and>
    reason = str_strip (the (xs_cancel_reason command)) \<and> length reason \<in> {1..250} \<and>
    db_bookings s' = map (\<lambda>b. if in_scope command i (en_now_utc e) s b
        then cancelled (en_repo_now e) (Some (se_user_id x)) (Some reason) b else b) (db_bookings s)"
proof -
  have d: "distinct (map bk_id (db_bookings s))" using assms(1) by (simp add: wf_db_def)
  from assms(2) obtain x0 reason where x0: "series_get_by_id s i (en_locale_id e) = Some x0" "Some (sr_user_id x0) = en_user_id e" and
    reason: "require_member_cancellation_reason (xs_cancel_reason command) = Inr reason" and
    a: "apply_cancellation (with_occurrences (list_series_occurrences s i) x0) (command\<lparr>xs_cancel_reason := Some reason\<rparr>) e s = Inr (r, s')"
    by (auto simp: cancel_my_series_def get_my_series_def get_series_def guard_simps series_with_occurrences_Inr split: option.splits)
  obtain x where x: "live_series s i = Some x" "sr_id x0 = i" "sr_status x0 = se_status x" "sr_user_id x0 = se_user_id x"
    by (rule series_get_by_id_Some [OF x0(1)])
  have sc: "in_scope (command\<lparr>xs_cancel_reason := Some reason\<rparr>) = in_scope command" by (intro ext) (simp add: in_scope_def)
  let ?I = "bk_id ` {b \<in> set (db_bookings s). in_scope command i (en_now_utc e) s b}"
  let ?s1 = "cancel_bookings (en_repo_now e) (Some (se_user_id x)) (Some reason) ?I s"
  have "db_bookings s' = db_bookings ?s1"
    by (rule apply_cancellation_effect [OF d _ a])
       (use x0(2) in \<open>auto simp: x sc Let_def close_series_eq split: if_splits\<close>)
  also have "\<dots> = map (\<lambda>b. if in_scope command i (en_now_utc e) s b
        then cancelled (en_repo_now e) (Some (se_user_id x)) (Some reason) b else b) (db_bookings s)"
    unfolding cancel_bookings_frame update_where_keys [OF d] by (simp add: update_where_def)
  finally have rows: "db_bookings s' = \<dots>" .
  show ?thesis
    using x(1,4) x0(2) rows conjunct1 [OF member_reason [OF reason]] conjunct2 [OF member_reason [OF reason]]
    by (intro exI [of _ x] exI [of _ reason] conjI) simp_all
qed

lemma cancel_mine_returns:
  "inr_sat (cancel_my_series 70 cancel_later (july_env member_id 6 9) held_db)
     (\<lambda>(r, s'). map bk_status (db_bookings s') = [BS_PENDING_PAYMENT, BS_CANCELLED, BS_CANCELLED])"
  by code_simp

end
