(* ===== verification/Series_Payment.thy ===== *)
theory Series_Payment imports Series_Lifecycle begin

text \<open>
  Payment of a series: its confirmation while the hold is active, and the sweep that expires the holds that
  have lapsed. The sweep is characterised by one update of the three tables; it only writes down what the
  overlap queries have been answering since the hold lapsed.
\<close>

section \<open>Series rows have distinct ids\<close>

definition wf_series :: "db \<Rightarrow> bool" where
  "wf_series s \<longleftrightarrow> distinct (map se_id (db_series s))"

lemma same_series:
  "wf_series s \<Longrightarrow> x \<in> set (db_series s) \<Longrightarrow> x' \<in> set (db_series s) \<Longrightarrow> se_id x = se_id x' \<Longrightarrow> x = x'"
  by (auto simp: wf_series_def distinct_map inj_on_def)

lemma find_series_unique:
  assumes "wf_series s" "x \<in> set (db_series s)"
  shows "find_series s (se_id x) = Some x"
proof -
  have "List.find (\<lambda>y. se_id y = se_id x) (db_series s) \<noteq> None"
    using assms(2) by (auto simp: find_None_iff)
  then obtain y where y: "find_series s (se_id x) = Some y" by (auto simp: find_series_def)
  then have "y \<in> set (db_series s)" "se_id y = se_id x" by (auto simp: find_series_def dest: find_Some_set)
  with same_series [OF assms(1) _ assms(2)] y show ?thesis by simp
qed

lemma live_series_mem: "live_series s i = Some x \<Longrightarrow> x \<in> set (db_series s) \<and> se_id x = i \<and> \<not> se_is_deleted x"
  by (auto simp: live_series_def dest: find_Some_set)

lemma keeps_rows_wf_series: "keeps_rows s s' \<Longrightarrow> wf_series s \<Longrightarrow> wf_series s'"
  by (simp add: keeps_rows_def wf_series_def)

section \<open>Confirming the payment\<close>

definition confirmed_by :: "uuid \<Rightarrow> series \<Rightarrow> series" where
  "confirmed_by operator_id x =
     x\<lparr>se_status := BS_CONFIRMED, se_payment_hold_expires_at := None, se_updated_by_id := Some operator_id\<rparr>"

text \<open>The state after the confirmation of series \<open>i\<close> by operator \<open>u\<close>.\<close>

definition paid :: "uuid \<Rightarrow> uuid \<Rightarrow> db \<Rightarrow> db" where
  "paid i u s = confirm_pending_series_bookings i (update_series i (confirmed_by u) s)"

lemma confirm_payment_Inr:
  "confirm_payment i e s = Inr (r, s') \<longleftrightarrow>
     (\<exists>x0 u. en_user_id e = Some u \<and> series_get_by_id s i (en_locale_id e) = Some x0 \<and>
        (if sr_status x0 = BS_CONFIRMED then r = with_occurrences (list_series_occurrences s i) x0 \<and> s' = s
         else sr_status x0 = BS_PENDING_PAYMENT \<and>
           is_pending_payment_hold_active (sr_payment_hold_expires_at x0) (en_now_utc e) \<and> s' = paid i u s \<and>
           r = with_occurrences (list_series_occurrences s' i) (x0\<lparr>sr_status := BS_CONFIRMED,
             sr_payment_hold_expires_at := None, sr_confirmed_by_id := Some u\<rparr>)))"
  unfolding confirm_payment_def paid_def confirmed_by_def [abs_def]
  by (auto simp: Let_def guard_simps split: option.splits)

lemma paid_rows:
  "db_series (paid i u s) = update_where (\<lambda>x. se_id x = i \<and> \<not> se_is_deleted x) (confirmed_by u) (db_series s)"
  "db_slots (paid i u s) = db_slots s" "db_users (paid i u s) = db_users s"
  "db_bookings (paid i u s) = map (\<lambda>b. if occurrence_of i b \<and> bk_status b = BS_PENDING_PAYMENT
     then b\<lparr>bk_status := BS_CONFIRMED\<rparr> else b) (db_bookings s)"
  by (auto simp: paid_def confirm_pending_series_bookings_def update_series_def update_where_def occurrence_of_def)

lemma keeps_rows_paid: "keeps_rows s (paid i u s)"
  unfolding paid_def by (rule keeps_rows_trans [OF keeps_rows_repository(4) keeps_rows_repository(3)]) (simp add: confirmed_by_def)

text \<open>While the hold is active, a confirmed occurrence holds no more than the pending one did.\<close>

lemma paid_adds_nothing:
  assumes "hold_active s i t0" "t0 \<le> t"
  shows "occupancy (paid i u s) t \<subseteq> occupancy s t0"
proof -
  have fix_id: "se_id (confirmed_by u x) = se_id x" for x by (simp add: confirmed_by_def)
  let ?s1 = "update_series i (confirmed_by u) s"
  have h: "hold_active ?s1 i t0"
    using assms(1) unfolding hold_active_def find_series_update [OF fix_id]
    by (auto simp: confirmed_by_def is_pending_payment_hold_active_def split: option.splits)
  have "occupancy (paid i u s) t \<subseteq> occupancy (paid i u s) t0" by (rule occupancy_decay) (rule assms(2))
  also have "\<dots> \<subseteq> occupancy ?s1 t0" unfolding paid_def by (rule occupancy_confirm [OF h])
  also have "\<dots> \<subseteq> occupancy s t0" by (rule occupancy_update_series [OF fix_id]) (use assms(1) in blast)
  finally show ?thesis .
qed

lemma live_hold_active:
  assumes "wf_series s" "live_series s i = Some x"
  shows "hold_active s i t \<longleftrightarrow> is_pending_payment_hold_active (se_payment_hold_expires_at x) t"
  using find_series_unique [OF assms(1), of x] live_series_mem [OF assms(2)] by (simp add: hold_active_def)

lemma live_series_update:
  assumes "\<And>x. se_id (f x) = se_id x \<and> se_is_deleted (f x) = se_is_deleted x"
    and "db_series s' = update_where (\<lambda>x. se_id x = i \<and> \<not> se_is_deleted x) f (db_series s)"
  shows "live_series s' i = map_option f (live_series s i)"
proof -
  have "List.find (\<lambda>x. se_id x = i \<and> \<not> se_is_deleted x) (update_where (\<lambda>x. se_id x = i \<and> \<not> se_is_deleted x) f xs) =
      map_option f (List.find (\<lambda>x. se_id x = i \<and> \<not> se_is_deleted x) xs)" for xs
    by (induction xs) (auto simp: update_where_def assms(1))
  then show ?thesis by (simp add: live_series_def assms(2))
qed

lemma series_get_by_id_exists:
  "(\<exists>r. series_get_by_id s i l = Some r) \<longleftrightarrow> (\<exists>x. live_series s i = Some x \<and> find_user s (se_user_id x) \<noteq> None)"
  by (auto simp: series_get_by_id_def live_series_def split: option.splits)


lemma confirm_held_returns:
  "inr_sat (confirm_payment 70 (july_env steward_id 6 9) held_db)
     (\<lambda>(r, s'). map bk_status (db_bookings s') = [BS_CONFIRMED, BS_CONFIRMED, BS_CONFIRMED])"
  by code_simp

lemma confirm_lapsed_refused:
  "confirm_payment 70 (july_env steward_id 7 12) held_db = Inl (bad_request BOOKING_SERIES_NOT_PENDING_PAYMENT)"
  by code_simp

lemma held_db_series: "wf_series held_db" by code_simp


section \<open>The expiry sweep\<close>

definition lapsed :: "instant \<Rightarrow> series \<Rightarrow> bool" where
  "lapsed now x \<longleftrightarrow>
     \<not> se_is_deleted x \<and> se_status x = BS_PENDING_PAYMENT \<and>
     (case se_payment_hold_expires_at x of None \<Rightarrow> False | Some h \<Rightarrow> h \<le> now)"

definition pending_of :: "uuid set \<Rightarrow> booking \<Rightarrow> bool" where
  "pending_of I b \<longleftrightarrow> (\<exists>i\<in>I. occurrence_of i b) \<and> bk_status b = BS_PENDING_PAYMENT"

definition expired_by :: "env \<Rightarrow> series \<Rightarrow> series" where
  "expired_by e x = x\<lparr>se_status := BS_CANCELLED, se_updated_by_id := Some (current_id e)\<rparr>"

text \<open>The state once the series in \<open>I\<close> have been expired.\<close>

definition expire_all :: "env \<Rightarrow> uuid set \<Rightarrow> db \<Rightarrow> db" where
  "expire_all e I s =
     cancel_bookings (en_repo_now e) None (Some PENDING_PAYMENT_HOLD_EXPIRED_REASON)
       (bk_id ` {b \<in> set (db_bookings s). pending_of I b})
       (s\<lparr>db_series := update_where (\<lambda>x. se_id x \<in> I \<and> \<not> se_is_deleted x) (expired_by e) (db_series s)\<rparr>)"

lemma update_where_compose:
  assumes "\<And>x. p (f x) = p x \<and> q (f x) = q x \<and> f (f x) = f x"
  shows "update_where p f (update_where q f xs) = update_where (\<lambda>x. p x \<or> q x) f xs"
  by (simp add: update_where_def assms)

lemma expire_one:
  "snd (expire_series e (r, s) series) = expire_all e {sr_id series} s"
proof -
  have "or_id ` set (filter (\<lambda>item. or_status item = BS_PENDING_PAYMENT) (list_series_occurrences s i)) =
      bk_id ` {b \<in> set (db_bookings s). pending_of {i} b}" for i
    unfolding ids_of_occurrences by (simp add: pending_of_def)
  then show ?thesis
    by (simp add: expire_series_def Let_def cancel_loop expire_all_def update_series_def expired_by_def [abs_def])
qed

lemma expire_all_step:
  assumes d: "distinct (map bk_id (db_bookings s))"
  shows "expire_all e I (expire_all e {i} s) = expire_all e (insert i I) s"
proof -
  let ?c = "cancelled (en_repo_now e) None (Some PENDING_PAYMENT_HOLD_EXPIRED_REASON)"
  have bs: "db_bookings (expire_all e J s) = update_where (pending_of J) ?c (db_bookings s)" for J
    using update_where_keys [OF d] by (simp add: expire_all_def)
  have d': "distinct (map bk_id (db_bookings (expire_all e {i} s)))" by (simp add: bs map_update_where d)
  let ?J = "\<lambda>I s. bk_id ` {b \<in> set (db_bookings s). pending_of I b}" and ?cancel = "cancel_bookings (en_repo_now e) None (Some PENDING_PAYMENT_HOLD_EXPIRED_REASON)"
  let ?U = "\<lambda>I. update_where (\<lambda>x. se_id x \<in> I \<and> \<not> se_is_deleted x) (expired_by e)"
  have J: "?J {i} s \<union> ?J I (expire_all e {i} s) = ?J (insert i I) s"
    unfolding bs by (auto simp: set_update_where pending_of_def image_iff split: if_splits)
  have U: "?U I (?U {i} xs) = ?U (insert i I) xs" for xs
    by (simp add: update_where_def expired_by_def) blast
  have "expire_all e I (expire_all e {i} s) = ?cancel (?J I (expire_all e {i} s)) (?cancel (?J {i} s) (s\<lparr>db_series := ?U I (?U {i} (db_series s))\<rparr>))"
    unfolding expire_all_def [of e I "expire_all e {i} s"] unfolding expire_all_def [of e "{i}" s] by (simp add: cancel_bookings_def)
  then show ?thesis by (simp only: cancel_bookings_Un J U expire_all_def [of e "insert i I" s])
qed

lemma expire_all_none: "expire_all e {} s = s"
  by (simp add: expire_all_def pending_of_def cancel_bookings_empty update_where_def)

lemma keeps_rows_expire_all: "keeps_rows s (expire_all e I s)"
  unfolding expire_all_def
  by (rule keeps_rows_trans [OF _ keeps_rows_cancel_bookings]) (simp add: keeps_rows_def map_update_where expired_by_def)

lemma keeps_rows_distinct_ids:
  "keeps_rows s s' \<Longrightarrow> distinct (map bk_id (db_bookings s)) \<Longrightarrow> distinct (map bk_id (db_bookings s'))"
proof -
  assume k: "keeps_rows s s'" and d: "distinct (map bk_id (db_bookings s))"
  have "map bk_id (db_bookings s') = map bk_id (db_bookings s)"
    using arg_cong [of _ _ "map fst", OF conjunct1 [OF k [unfolded keeps_rows_def]]] by (simp add: comp_def)
  with d show ?thesis by simp
qed

text \<open>The loop over the expired series is one update.\<close>

lemma sweep_loop:
  assumes "distinct (map bk_id (db_bookings s))"
  shows "snd (foldl (expire_series e) (r, s) xs) = expire_all e (sr_id ` set xs) s"
  using assms
proof (induction xs arbitrary: r s)
  case Nil
  then show ?case by (simp add: expire_all_none)
next
  case (Cons x xs)
  obtain r1 s1 where 1: "expire_series e (r, s) x = (r1, s1)" by (cases "expire_series e (r, s) x")
  then have s1: "s1 = expire_all e {sr_id x} s" using expire_one [of e r s x] by simp
  have "distinct (map bk_id (db_bookings s1))"
    unfolding s1 by (rule keeps_rows_distinct_ids [OF keeps_rows_expire_all Cons.prems])
  from Cons.IH [OF this, of r1] show ?case by (simp add: 1 s1 expire_all_step [OF Cons.prems])
qed

lemma sweep_report:
  "let r' = fst (foldl (expire_series e) (r, s) xs) in
     sw_skipped r' = sw_skipped r \<and> sw_expired_series_ids r' = sw_expired_series_ids r @ map sr_id xs \<and>
     map xn_series_id (sw_notifications r') = map xn_series_id (sw_notifications r) @ map sr_id xs"
proof (induction xs arbitrary: r s)
  case Nil
  then show ?case by simp
next
  case (Cons x xs)
  obtain r1 s1 where 1: "expire_series e (r, s) x = (r1, s1)" by (cases "expire_series e (r, s) x")
  then have "sw_skipped r1 = sw_skipped r" "sw_expired_series_ids r1 = sw_expired_series_ids r @ [sr_id x]"
    "map xn_series_id (sw_notifications r1) = map xn_series_id (sw_notifications r) @ [sr_id x]"
    by (auto simp: expire_series_def Let_def)
  with Cons.IH [of r1 s1] show ?case by (simp add: 1 Let_def)
qed

definition lapsed_ids :: "instant \<Rightarrow> db \<Rightarrow> uuid set" where
  "lapsed_ids now s = se_id ` {x \<in> set (db_series s). lapsed now x}"

lemma expired_pending_ids: "sr_id ` set (list_expired_pending_series s now) = lapsed_ids now s"
  by (force simp: list_expired_pending_series_def lapsed_ids_def lapsed_def to_series_result_def)

lemma lapsed_pending_inactive:
  assumes "wf_series s" "b \<in> set (db_bookings s)" "pending_of (lapsed_ids now s) b" "now \<le> t"
  shows "\<not> active_occupancy_clause s t b"
proof -
  from assms(3) obtain x where x: "x \<in> set (db_series s)" "lapsed now x" "bk_series_id b = Some (se_id x)" "bk_status b = BS_PENDING_PAYMENT"
    by (auto simp: pending_of_def lapsed_ids_def occurrence_of_def)
  have "find_series s (se_id x) = Some x" by (rule find_series_unique [OF assms(1) x(1)])
  with x assms(4) show ?thesis
    by (auto simp: active_occupancy_clause_def joined_hold_def lapsed_def split: option.splits)
qed

text \<open>What the sweep writes down is what the overlap queries already answer.\<close>

lemma expire_all_occupancy:
  assumes w: "wf_series s" "distinct (map bk_id (db_bookings s))" and t: "now \<le> t"
  shows "occupancy (expire_all e (lapsed_ids now s) s) t = occupancy s t"
proof -
  let ?I = "lapsed_ids now s"
  let ?s1 = "s\<lparr>db_series := update_where (\<lambda>x. se_id x \<in> ?I \<and> \<not> se_is_deleted x) (expired_by e) (db_series s)\<rparr>"
  have "joined_hold ?s1 b = joined_hold s b" for b
    unfolding joined_hold_def find_series_def
    by (auto simp: find_update_where expired_by_def split: option.splits)
  then have act: "active_occupancy_clause ?s1 t b = active_occupancy_clause s t b" for b
    by (simp add: active_occupancy_clause_def)
  have "occupancy ?s1 t = occupancy s t" by (simp add: occupancy_def act)
  moreover have "fst x \<notin> bk_id ` {b \<in> set (db_bookings s). pending_of ?I b}" if x: "x \<in> occupancy s t" for x
  proof
    assume "fst x \<in> bk_id ` {b \<in> set (db_bookings s). pending_of ?I b}"
    then obtain b where b: "b \<in> set (db_bookings s)" "pending_of ?I b" "fst x = bk_id b" by auto
    from x obtain c where c: "c \<in> set (db_bookings s)" "bk_id c = fst x" "active_occupancy_clause s t c"
      by (auto simp: occupancy_def)
    have "c = b" using same_booking [OF w(2) c(1) b(1)] b(3) c(2) by simp
    with c(3) lapsed_pending_inactive [OF w(1) b(1,2) t] show False by simp
  qed
  ultimately show ?thesis unfolding expire_all_def occupancy_cancel_bookings by blast
qed

text \<open>
  C15. The expiry sweep refines the lazy expiry of the queries: having taken its lock, it expires exactly the live
  series that wait for payment past their hold, reports each and sends one notification for each, cancels exactly the
  pending occurrences of these series as expired, leaves no lapsed series behind, and -- because a lapsed hold has
  already stopped counting -- from then on every room is held exactly as it was before.
\<close>

theorem expiry_sweep_refines_lazy_expiry:
  assumes "wf_db s" "wf_series s" and "expire_pending_holds True e s = (r, s')"
  shows "set (sw_expired_series_ids r) = lapsed_ids (en_now_utc e) s \<and>
    map xn_series_id (sw_notifications r) = sw_expired_series_ids r \<and>
    db_bookings s' = map (\<lambda>b. if pending_of (lapsed_ids (en_now_utc e) s) b
       then cancelled (en_repo_now e) None (Some PENDING_PAYMENT_HOLD_EXPIRED_REASON) b else b) (db_bookings s) \<and>
    lapsed_ids (en_now_utc e) s' = {} \<and>
    (\<forall>t \<ge> en_now_utc e. occupancy s' t = occupancy s t)"
proof -
  let ?I = "lapsed_ids (en_now_utc e) s"
  have d: "distinct (map bk_id (db_bookings s))" using assms(1) by (simp add: wf_db_def)
  let ?r0 = "\<lparr>sw_skipped = False, sw_expired_series_ids = [], sw_notifications = []\<rparr>"
  let ?xs = "list_expired_pending_series s (en_now_utc e)"
  have e: "foldl (expire_series e) (?r0, s) ?xs = (r, s')" using assms(3) by (simp add: expire_pending_holds_def)
  have s': "s' = expire_all e ?I s" using sweep_loop [OF d, of e ?r0 ?xs] by (simp add: e expired_pending_ids)
  have r: "sw_expired_series_ids r = map sr_id ?xs" "map xn_series_id (sw_notifications r) = map sr_id ?xs"
    using sweep_report [of e ?r0 s ?xs] by (simp_all add: e)
  have "db_bookings s' = map (\<lambda>b. if pending_of ?I b
       then cancelled (en_repo_now e) None (Some PENDING_PAYMENT_HOLD_EXPIRED_REASON) b else b) (db_bookings s)"
    unfolding s' using update_where_keys [OF d] by (simp add: expire_all_def update_where_def)
  moreover have "lapsed_ids (en_now_utc e) s' = {}"
  proof -
    have "\<not> lapsed (en_now_utc e) (if se_id x \<in> ?I \<and> \<not> se_is_deleted x then expired_by e x else x)"
      if "x \<in> set (db_series s)" for x
    proof (cases "se_id x \<in> ?I \<and> \<not> se_is_deleted x")
      case True
      then show ?thesis by (simp add: lapsed_def expired_by_def)
    next
      case False
      with that have "\<not> lapsed (en_now_utc e) x" by (auto simp: lapsed_ids_def) (auto simp: lapsed_def)
      then show ?thesis by (simp only: if_not_P [OF False] not_False_eq_True)
    qed
    then have "\<forall>y\<in>(\<lambda>x. if se_id x \<in> ?I \<and> \<not> se_is_deleted x then expired_by e x else x) ` set (db_series s). \<not> lapsed (en_now_utc e) y"
      by blast
    moreover have "set (db_series s') = (\<lambda>x. if se_id x \<in> ?I \<and> \<not> se_is_deleted x then expired_by e x else x) ` set (db_series s)"
      by (simp add: s' expire_all_def set_update_where)
    ultimately show ?thesis unfolding lapsed_ids_def [of _ s'] by (metis (no_types, lifting) empty_Collect_eq image_empty)
  qed
  moreover have "\<forall>t \<ge> en_now_utc e. occupancy s' t = occupancy s t"
    unfolding s' using expire_all_occupancy [OF assms(2) d] by blast
  ultimately show ?thesis using r expired_pending_ids [of s "en_now_utc e"] by simp
qed

lemma sweep_returns:
  "case expire_pending_holds True (july_env steward_id 7 13) held_db of
     (r, s') \<Rightarrow> sw_expired_series_ids r = [70] \<and> map bk_status (db_bookings s') = [BS_CANCELLED, BS_CANCELLED, BS_CANCELLED]"
  by code_simp

theorem expiry_sweep_refines_lazy_expiry_witness:
  "\<exists>r s'. expire_pending_holds True (july_env steward_id 7 13) held_db = (r, s') \<and>
     set (sw_expired_series_ids r) = lapsed_ids (moment 2026 7 7 13 0) held_db \<and> sw_expired_series_ids r = [70] \<and>
     lapsed_ids (moment 2026 7 7 13 0) s' = {}"
proof -
  obtain r s' where r: "expire_pending_holds True (july_env steward_id 7 13) held_db = (r, s')" "sw_expired_series_ids r = [70]"
    using sweep_returns by (auto split: prod.splits)
  have now: "en_now_utc (july_env steward_id 7 13) = moment 2026 7 7 13 0" by (simp add: july_env_def sample_env_def)
  have "set (sw_expired_series_ids r) = lapsed_ids (moment 2026 7 7 13 0) held_db" "lapsed_ids (moment 2026 7 7 13 0) s' = {}"
    using expiry_sweep_refines_lazy_expiry [OF held_db_wf held_db_series r(1)] unfolding now by blast+
  with r show ?thesis by (intro exI conjI)
qed

end
