(* ===== verification/Series_Blackout.thy ===== *)
theory Series_Blackout imports Series_Payment begin

text \<open>
  What a blackout does to the series: the preview lists the live future occurrences it hits, and applying
  that list cancels exactly them and closes the series left without a live occurrence.
\<close>

section \<open>The list of live future occurrences\<close>

definition future_series_booking :: "db \<Rightarrow> instant \<Rightarrow> instant \<Rightarrow> booking \<Rightarrow> bool" where
  "future_series_booking s sql_now now b \<longleftrightarrow>
     bk_series_id b \<noteq> None \<and> \<not> bk_is_deleted b \<and> now < bk_start_at b \<and> active_occupancy_clause s sql_now b"

definition future_rows :: "db \<Rightarrow> instant \<Rightarrow> instant \<Rightarrow> (slot \<times> booking) list" where
  "future_rows s sql_now now =
     concat (map (\<lambda>sl. map (Pair sl)
         (filter (\<lambda>b. bk_id b = sl_booking_id sl \<and> future_series_booking s sql_now now b) (db_bookings s)))
       (filter (\<lambda>sl. sl_status sl = SS_CONFIRMED) (db_slots s)))"

definition impact_item :: "booking \<Rightarrow> uuid list \<Rightarrow> blackout_impact_item" where
  "impact_item b facility_ids =
     \<lparr>bi_id = bk_id b, bi_series_id = the (bk_series_id b), bi_start_at = bk_start_at b,
      bi_end_at = bk_end_at b, bi_status = bk_status b, bi_facility_ids = facility_ids, bi_ministry_id = bk_ministry_id b\<rparr>"

lemma impact_item_id: "bi_id (impact_item b fs) = bk_id b"
  by (simp add: impact_item_def)

lemma impact_item_fields:
  "it = impact_item b fs \<Longrightarrow> bi_id it = bk_id b \<and> bi_start_at it = bk_start_at b \<and> bi_end_at it = bk_end_at b"
  by (simp add: impact_item_def)

definition add_room :: "(uuid \<times> blackout_impact_item) list \<Rightarrow> slot \<times> booking \<Rightarrow> (uuid \<times> blackout_impact_item) list" where
  "add_room d row =
     (case row of (sl, b) \<Rightarrow>
       let existing = (case map_of d (bk_id b) of None \<Rightarrow> [] | Some i \<Rightarrow> bi_facility_ids i)
       in dict_set d (bk_id b)
            (impact_item b (if sl_facility_id sl \<in> set existing then existing else existing @ [sl_facility_id sl])))"

lemma live_future_eq:
  "list_live_future_series_occurrences s sql_now now =
     map snd (foldl add_room [] (sort_key (\<lambda>(sl, b). (bk_start_at b, bk_id b)) (future_rows s sql_now now)))"
  unfolding list_live_future_series_occurrences_def future_rows_def future_series_booking_def add_room_def [abs_def] impact_item_def Let_def
  by (rule refl)

definition with_room :: "uuid \<Rightarrow> uuid list \<Rightarrow> uuid list" where
  "with_room facility_id existing = (if facility_id \<in> set existing then existing else existing @ [facility_id])"

lemma set_with_room [simp]: "set (with_room f fs) = insert f (set fs)"
  by (auto simp: with_room_def)

definition rooms_known :: "(uuid \<times> blackout_impact_item) list \<Rightarrow> uuid \<Rightarrow> uuid list" where
  "rooms_known d k = (case map_of d k of None \<Rightarrow> [] | Some i \<Rightarrow> bi_facility_ids i)"

lemma add_room_snoc:
  "foldl add_room [] (rows @ [(sl, b)]) = dict_set (foldl add_room [] rows) (bk_id b)
     (impact_item b (with_room (sl_facility_id sl) (rooms_known (foldl add_room [] rows) (bk_id b))))"
  unfolding foldl_append foldl.simps add_room_def prod.case with_room_def rooms_known_def Let_def by (rule refl)

lemma set_future_rows:
  "(sl, b) \<in> set (future_rows s sql_now now) \<longleftrightarrow>
     sl \<in> set (db_slots s) \<and> sl_status sl = SS_CONFIRMED \<and> b \<in> set (db_bookings s) \<and>
     bk_id b = sl_booking_id sl \<and> future_series_booking s sql_now now b"
  by (auto simp: future_rows_def)

lemma rooms_distinct: "distinct (map fst (foldl add_room [] rows))"
proof (induction rows rule: rev_induct)
  case (snoc row rows)
  then show ?case by (cases row) (simp only: add_room_snoc distinct_keys_dict_set)
qed simp

lemma rooms_keys: "fst ` set (foldl add_room [] rows) = (\<lambda>r. bk_id (snd r)) ` set rows"
proof (induction rows rule: rev_induct)
  case (snoc row rows)
  then show ?case by (cases row) (simp only: add_room_snoc keys_dict_set set_append image_Un, auto)
qed simp

lemma rooms_entry:
  "map_of (foldl add_room [] rows) k = Some it \<Longrightarrow>
     \<exists>b. b \<in> snd ` set rows \<and> bk_id b = k \<and> it = impact_item b (bi_facility_ids it) \<and>
       set (bi_facility_ids it) = {sl_facility_id sl | sl b'. (sl, b') \<in> set rows \<and> bk_id b' = k}"
proof (induction rows arbitrary: it rule: rev_induct)
  case Nil
  then show ?case by simp
next
  case (snoc row rows)
  obtain sl b where row: "row = (sl, b)" by (cases row)
  note step = snoc.prems [unfolded row add_room_snoc map_of_dict_set]
  show ?case
  proof (cases "bk_id b = k")
    case False
    with step have "map_of (foldl add_room [] rows) k = Some it" by (simp only: fun_upd_apply if_False split: if_splits)
    from snoc.IH [OF this] obtain b' where b': "b' \<in> snd ` set rows" "bk_id b' = k" "it = impact_item b' (bi_facility_ids it)"
      "set (bi_facility_ids it) = {sl_facility_id sl | sl b'. (sl, b') \<in> set rows \<and> bk_id b' = k}" by blast
    have "{sl_facility_id sl | sl b'. (sl, b') \<in> set (rows @ [row]) \<and> bk_id b' = k} =
        {sl_facility_id sl | sl b'. (sl, b') \<in> set rows \<and> bk_id b' = k}"
      using False by (auto simp: row)
    with b' show ?thesis by (intro exI [of _ b']) simp
  next
    case True
    let ?old = "rooms_known (foldl add_room [] rows) k"
    have it: "it = impact_item b (with_room (sl_facility_id sl) ?old)"
      using step True by simp
    have "set ?old = {sl_facility_id sl | sl b'. (sl, b') \<in> set rows \<and> bk_id b' = k}"
    proof (cases "map_of (foldl add_room [] rows) k")
      case None
      then have "k \<notin> (\<lambda>r. bk_id (snd r)) ` set rows" unfolding map_of_eq_None_iff rooms_keys .
      with None show ?thesis by (auto simp: rooms_known_def image_iff)
    next
      case (Some i)
      from snoc.IH [OF this] have "set (bi_facility_ids i) = {sl_facility_id sl | sl b'. (sl, b') \<in> set rows \<and> bk_id b' = k}"
        by (elim exE conjE)
      then show ?thesis by (simp add: rooms_known_def Some)
    qed
    then have "set (bi_facility_ids it) = {sl_facility_id sl | sl b'. (sl, b') \<in> set (rows @ [row]) \<and> bk_id b' = k}"
      using True by (auto simp: it impact_item_def row)
    moreover have "it = impact_item b (bi_facility_ids it)" by (simp add: it impact_item_def)
    ultimately show ?thesis using True row by (intro exI [of _ b]) simp
  qed
qed

lemma rooms_present: "(sl, b) \<in> set rows \<Longrightarrow> \<exists>it. map_of (foldl add_room [] rows) (bk_id b) = Some it"
  using rooms_keys [of rows] by (metis (no_types, lifting) image_eqI map_of_eq_None_iff not_Some_eq snd_conv)

text \<open>The items are the future Bookings of series that hold a room, each with exactly its rooms.\<close>

definition confirmed_rooms :: "db \<Rightarrow> booking \<Rightarrow> uuid set" where
  "confirmed_rooms s b = sl_facility_id ` {sl \<in> set (db_slots s). sl_booking_id sl = bk_id b \<and> sl_status sl = SS_CONFIRMED}"

lemma live_future_items:
  assumes d: "distinct (map bk_id (db_bookings s))"
  shows "it \<in> set (list_live_future_series_occurrences s sql_now now) \<Longrightarrow>
      \<exists>b\<in>set (db_bookings s). future_series_booking s sql_now now b \<and> it = impact_item b (bi_facility_ids it) \<and>
        set (bi_facility_ids it) = confirmed_rooms s b" (is "?I \<Longrightarrow> ?C")
    and "b \<in> set (db_bookings s) \<Longrightarrow> future_series_booking s sql_now now b \<Longrightarrow> confirmed_rooms s b \<noteq> {} \<Longrightarrow>
      bk_id b \<in> bi_id ` set (list_live_future_series_occurrences s sql_now now)"
proof -
  let ?rows = "sort_key (\<lambda>(sl, b). (bk_start_at b, bk_id b)) (future_rows s sql_now now)"
  let ?d = "foldl add_room [] ?rows"
  have entry: "\<exists>b\<in>set (db_bookings s). bk_id b = k \<and> future_series_booking s sql_now now b \<and> it = impact_item b (bi_facility_ids it) \<and>
        set (bi_facility_ids it) = confirmed_rooms s b" if "map_of ?d k = Some it" for k it
  proof -
    from rooms_entry [OF that] obtain b where b: "b \<in> snd ` set ?rows" "bk_id b = k" "it = impact_item b (bi_facility_ids it)"
      "set (bi_facility_ids it) = {sl_facility_id sl | sl b'. (sl, b') \<in> set ?rows \<and> bk_id b' = k}" by blast
    from b(1) obtain sl0 where r: "b \<in> set (db_bookings s)" "future_series_booking s sql_now now b"
      by (auto simp: set_future_rows)
    have "{sl_facility_id sl | sl b'. (sl, b') \<in> set ?rows \<and> bk_id b' = k} = confirmed_rooms s b"
    proof (intro equalityI subsetI)
      fix f assume "f \<in> {sl_facility_id sl | sl b'. (sl, b') \<in> set ?rows \<and> bk_id b' = k}"
      then show "f \<in> confirmed_rooms s b" using b(2) by (auto simp: set_future_rows confirmed_rooms_def)
    next
      fix f assume "f \<in> confirmed_rooms s b"
      then obtain sl where "f = sl_facility_id sl" "(sl, b) \<in> set ?rows" using r by (auto simp: set_future_rows confirmed_rooms_def)
      with b(2) show "f \<in> {sl_facility_id sl | sl b'. (sl, b') \<in> set ?rows \<and> bk_id b' = k}" by blast
    qed
    with r b show ?thesis by (intro bexI [of _ b] conjI) simp_all
  qed
  have keys: "map_of ?d k = Some it \<longleftrightarrow> (k, it) \<in> set ?d" for k it by (rule map_of_eq_Some_iff) (rule rooms_distinct)
  show "?I \<Longrightarrow> ?C" unfolding live_future_eq using entry keys by force
  assume b: "b \<in> set (db_bookings s)" "future_series_booking s sql_now now b" "confirmed_rooms s b \<noteq> {}"
  from b(3) obtain sl where "sl \<in> set (db_slots s)" "sl_booking_id sl = bk_id b" "sl_status sl = SS_CONFIRMED"
    by (auto simp: confirmed_rooms_def)
  with b have "(sl, b) \<in> set ?rows" by (simp add: set_future_rows)
  then obtain it where it: "map_of ?d (bk_id b) = Some it" using rooms_present by blast
  have "bi_id it = bk_id b" using entry [OF it] by (metis impact_item_id)
  with it keys show "bk_id b \<in> bi_id ` set (list_live_future_series_occurrences s sql_now now)"
    unfolding live_future_eq by force
qed

section \<open>Previewing and applying the impact\<close>

text \<open>The Bookings a blackout hits: live future occurrences with a confirmed room in which the intervals meet.\<close>

definition hit_by :: "blackout \<Rightarrow> env \<Rightarrow> db \<Rightarrow> booking \<Rightarrow> bool" where
  "hit_by bo e s b \<longleftrightarrow>
     future_series_booking s (en_sql_now e) (en_now_utc e) b \<and>
     (\<exists>f\<in>confirmed_rooms s b. interval_overlaps_blackout bo f (bk_start_at b) (bk_end_at b) (set_facility_timezone (en_settings e)))"

lemma preview_ids:
  assumes d: "distinct (map bk_id (db_bookings s))" and a: "bo_is_active bo"
  shows "bi_id ` set (bx_items (preview_blackout_impact bo e s)) = bk_id ` {b \<in> set (db_bookings s). hit_by bo e s b}"
proof -
  let ?L = "list_live_future_series_occurrences s (en_sql_now e) (en_now_utc e)" and ?tz = "set_facility_timezone (en_settings e)"
  have items: "bx_items (preview_blackout_impact bo e s) = filter (\<lambda>oc. list_ex (\<lambda>f.
      interval_overlaps_blackout bo f (bi_start_at oc) (bi_end_at oc) ?tz) (bi_facility_ids oc)) ?L"
    using a by (simp add: preview_blackout_impact_def Let_def)
  show ?thesis
  proof (intro equalityI subsetI)
    fix i assume "i \<in> bi_id ` set (bx_items (preview_blackout_impact bo e s))"
    then obtain it where it: "it \<in> set ?L" "i = bi_id it"
      "\<exists>f\<in>set (bi_facility_ids it). interval_overlaps_blackout bo f (bi_start_at it) (bi_end_at it) ?tz"
      unfolding items by (auto simp: list_ex_iff)
    obtain b where b: "b \<in> set (db_bookings s)" "future_series_booking s (en_sql_now e) (en_now_utc e) b"
      "it = impact_item b (bi_facility_ids it)" "set (bi_facility_ids it) = confirmed_rooms s b"
      using live_future_items(1) [OF d it(1)] by blast
    with it impact_item_fields [OF b(3)] show "i \<in> bk_id ` {b \<in> set (db_bookings s). hit_by bo e s b}" by (auto simp: hit_by_def)
  next
    fix i assume "i \<in> bk_id ` {b \<in> set (db_bookings s). hit_by bo e s b}"
    then obtain b f where b: "b \<in> set (db_bookings s)" "i = bk_id b" "future_series_booking s (en_sql_now e) (en_now_utc e) b"
      "f \<in> confirmed_rooms s b" "interval_overlaps_blackout bo f (bk_start_at b) (bk_end_at b) ?tz" by (auto simp: hit_by_def)
    then have "confirmed_rooms s b \<noteq> {}" by blast
    from live_future_items(2) [OF d b(1,3) this] obtain it where it: "it \<in> set ?L" "bi_id it = bk_id b" by (metis imageE)
    obtain c where c: "c \<in> set (db_bookings s)" "it = impact_item c (bi_facility_ids it)" "set (bi_facility_ids it) = confirmed_rooms s c"
      using live_future_items(1) [OF d it(1)] by blast
    have "c = b" using same_booking [OF d c(1) b(1)] it(2) impact_item_fields [OF c(2)] by simp
    with it b c(3) impact_item_fields [OF c(2)] have "it \<in> set (bx_items (preview_blackout_impact bo e s))"
      unfolding items by (auto simp: list_ex_iff)
    with it(2) b(2) show "i \<in> bi_id ` set (bx_items (preview_blackout_impact bo e s))" by (metis imageI)
  qed
qed

text \<open>Settling the series of the cancelled Bookings touches no row of a series with a live occurrence.\<close>

lemma settle_series_Inr:
  assumes "settle_series e u s i = Inr s'"
  shows "s' = s \<or> s' = close_series i u s \<and> (\<forall>b\<in>set (db_bookings s). \<not> live_occurrence i (en_now_utc e) b)"
proof -
  from assms obtain x0 where x0: "series_get_by_id s i (en_locale_id e) = Some x0" and
    s': "s' = (if filter (\<lambda>item. is_cancellable item (en_now_utc e)) (list_series_occurrences s i) = [] \<and> sr_status x0 \<noteq> BS_CANCELLED
       then close_series (sr_id x0) u s else s)"
    by (auto simp: settle_series_def guard_simps series_with_occurrences_Inr Let_def)
  have "sr_id x0 = i" by (rule series_get_by_id_Some [OF x0])
  with s' show ?thesis by (auto simp: no_live_left split: if_splits)
qed

definition settled_from :: "env \<Rightarrow> db \<Rightarrow> db \<Rightarrow> bool" where
  "settled_from e s s' \<longleftrightarrow>
     db_bookings s' = db_bookings s \<and> db_slots s' = db_slots s \<and> keeps_rows s s' \<and>
     (\<forall>i. (\<exists>b\<in>set (db_bookings s). live_occurrence i (en_now_utc e) b) \<longrightarrow> find_series s' i = find_series s i)"

lemma settle_step:
  assumes "settled_from e s s1" "settle_series e u s1 i = Inr s2"
  shows "settled_from e s s2"
proof -
  have f: "se_id (closed_by u x) = se_id x" for x by (simp add: closed_by_def)
  consider "s2 = s1" | "s2 = close_series i u s1" "\<forall>b\<in>set (db_bookings s1). \<not> live_occurrence i (en_now_utc e) b"
    using settle_series_Inr [OF assms(2)] by blast
  then show ?thesis
  proof cases
    case 1
    with assms(1) show ?thesis by simp
  next
    case 2
    have cs: "s2 = update_series i (closed_by u) s1" by (simp add: 2(1) close_series_eq update_series_def)
    have "find_series s2 j = find_series s1 j" if "j \<noteq> i" for j
      unfolding cs find_series_update [OF f] using that by (cases "find_series s1 j") (auto dest: find_series_id)
    moreover have "keeps_rows s1 s2" unfolding cs by (rule keeps_rows_repository(4)) (rule f)
    ultimately show ?thesis
      using assms(1) 2(2) keeps_rows_trans unfolding settled_from_def by (fastforce simp: cs update_series_def)
  qed
qed

text \<open>
  Applying what the preview lists, at the same moment, cancels exactly the occurrences the blackout hits, under the
  caller's name and with the given reason, and the preview of the same blackout is then empty.
\<close>

lemma blackout_impact_effect:
  assumes "wf_db s" and "bo_is_active bo"
    and "apply_blackout_impact (bx_items (preview_blackout_impact bo e s)) reason e s = Inr (r, s')"
  shows "(bx_confirmation_required (preview_blackout_impact bo e s) \<longleftrightarrow> (\<exists>b\<in>set (db_bookings s). hit_by bo e s b)) \<and>
    db_bookings s' = map (\<lambda>b. if hit_by bo e s b then cancelled (en_repo_now e) (en_user_id e) (Some reason) b else b) (db_bookings s) \<and>
    bx_items (preview_blackout_impact bo e s') = []"
proof -
  have d: "distinct (map bk_id (db_bookings s))" using assms(1) by (simp add: wf_db_def)
  let ?items = "bx_items (preview_blackout_impact bo e s)" and ?I = "bk_id ` {b \<in> set (db_bookings s). hit_by bo e s b}"
  from assms(3) obtain u where u: "en_user_id e = Some u" and
    fold: "foldE (settle_series e u) (fold (\<lambda>oc. cancel_booking (en_repo_now e) (bi_id oc) (Some u) (Some reason) True) ?items s)
       (dict_fromkeys (map bi_series_id ?items)) = Inr s'"
    by (auto simp: apply_blackout_impact_def guard_simps Let_def split: option.splits)
  let ?s1 = "cancel_bookings (en_repo_now e) (Some u) (Some reason) ?I s"
  have "settled_from e ?s1 s'"
  proof (rule foldE_invariant [OF fold [unfolded cancel_loop preview_ids [OF d assms(2)]]])
    show "settled_from e ?s1 ?s1" by (simp add: settled_from_def)
  qed (rule settle_step)
  then have st: "db_bookings s' = db_bookings ?s1" "db_slots s' = db_slots ?s1" "keeps_rows ?s1 s'"
    "\<And>i. \<exists>b\<in>set (db_bookings ?s1). live_occurrence i (en_now_utc e) b \<Longrightarrow> find_series s' i = find_series ?s1 i"
    by (auto simp: settled_from_def)
  have rows: "db_bookings s' = map (\<lambda>b. if hit_by bo e s b then cancelled (en_repo_now e) (en_user_id e) (Some reason) b else b) (db_bookings s)"
    unfolding st(1) cancel_bookings_frame update_where_keys [OF d] by (simp add: update_where_def u)
  have none: "\<not> hit_by bo e s' b" if b: "b \<in> set (db_bookings s')" for b
  proof
    assume h: "hit_by bo e s' b"
    from b rows obtain b0 where b0: "b0 \<in> set (db_bookings s)" "b = (if hit_by bo e s b0 then cancelled (en_repo_now e) (en_user_id e) (Some reason) b0 else b0)"
      by auto
    have act: "active_occupancy_clause s' (en_sql_now e) b" "bk_series_id b \<noteq> None" "\<not> bk_is_deleted b" "en_now_utc e < bk_start_at b"
      using h by (auto simp: hit_by_def future_series_booking_def)
    then have nb: "b = b0" "\<not> hit_by bo e s b0" using b0(2) by (auto simp: active_occupancy_clause_def split: if_splits)
    obtain i where i: "bk_series_id b = Some i" using act(2) by auto
    have "live_occurrence i (en_now_utc e) b"
      using act i by (auto simp: live_occurrence_def occurrence_of_def active_occupancy_clause_def)
    then have "find_series s' i = find_series ?s1 i" using st(4) b unfolding st(1) by blast
    then have "joined_hold s' b = joined_hold s b" by (simp add: joined_hold_def i find_series_def)
    then have "active_occupancy_clause s (en_sql_now e) b" using act(1) by (simp add: active_occupancy_clause_def)
    moreover have "confirmed_rooms s' b \<subseteq> confirmed_rooms s b"
      by (auto simp: confirmed_rooms_def st(2) set_update_where released_def split: if_splits)
    ultimately have "hit_by bo e s b" using h act by (auto simp: hit_by_def future_series_booking_def)
    with nb show False by simp
  qed
  have wf': "wf_db s'" by (rule keeps_rows_wf [OF keeps_rows_trans [OF keeps_rows_cancel_bookings st(3)] assms(1)])
  then have d': "distinct (map bk_id (db_bookings s'))" by (simp add: wf_db_def)
  have "bi_id ` set (bx_items (preview_blackout_impact bo e s')) = {}" unfolding preview_ids [OF d' assms(2)] using none by auto
  moreover have "bx_confirmation_required (preview_blackout_impact bo e s) \<longleftrightarrow> ?items \<noteq> []"
    by (simp add: preview_blackout_impact_def Let_def)
  then have "bx_confirmation_required (preview_blackout_impact bo e s) \<longleftrightarrow> bi_id ` set ?items \<noteq> {}" by simp
  ultimately show ?thesis using rows unfolding preview_ids [OF d assms(2)] by auto
qed

section \<open>On the waiting series\<close>

text \<open>The hall is closed on the morning of the 14th.\<close>

definition hall_closed :: blackout where
  "hall_closed = \<lparr>bo_id = 91, bo_facility_id = Some hall_id, bo_name = ''Floor works'', bo_reason = ''works'', bo_kind = ''one_off'',
     bo_blackout_date = Some (ymd2ord 2026 7 14), bo_days_of_week_mask = None, bo_start_time = 8 * HOUR_US,
     bo_end_time = 12 * HOUR_US, bo_is_active = True, bo_effective_from = None, bo_effective_to = None, bo_is_deleted = False\<rparr>"

lemma hall_closed_returns:
  "inr_sat (apply_blackout_impact (bx_items (preview_blackout_impact hall_closed (july_env steward_id 6 9) held_db))
       ''works'' (july_env steward_id 6 9) held_db)
     (\<lambda>(r, s'). map bk_status (db_bookings s') = [BS_PENDING_PAYMENT, BS_CANCELLED, BS_PENDING_PAYMENT])"
  by code_simp

section \<open>A lapsed occurrence that comes back\<close>

text \<open>The hall again, on the day the first occurrence is under way and its hold has lapsed at noon.\<close>

definition afternoon :: create_booking_command where
  "afternoon =
     \<lparr>cb_title = Some ''Rehearsal'', cb_start_at = moment 2026 7 7 14 0, cb_end_at = moment 2026 7 7 16 0,
      cb_ministry_id = None, cb_user_id = None,
      cb_rooms = [\<lparr>rc_facility_id = hall_id, rc_start_at = None, rc_end_at = None, rc_sequence = 0\<rparr>],
      cb_surcharge_codes = [], cb_remark = None, cb_booking_draft_id = None, cb_enforce_opening_hours = True,
      cb_allow_priority_override = True, cb_override_review_token = None\<rparr>"

definition cancel_whole :: cancel_series_command where
  "cancel_whole = \<lparr>xs_scope = ''entire_series'', xs_occurrence_id = None, xs_cancel_reason = Some ''moved away''\<rparr>"


end
