(* ===== verification/Opening_Admin.thy ===== *)
theory Opening_Admin imports Series_Blackout begin

text \<open>
  Administration of what opens and closes a room: the Room Slot Templates (\<open>room_slot_template_service.py\<close>)
  and the Blackouts (\<open>room_blackout_service.py\<close>), with their repositories. Both services keep a register
  of weekly windows in which no two active entries may conflict; the locale \<open>window_register\<close> states that
  contract and is interpreted on both tables. The rows carry no deletion reason, which nothing reads back.
\<close>

section \<open>Registers of windows\<close>

definition register_consistent :: "('w \<Rightarrow> uuid) \<Rightarrow> ('w \<Rightarrow> bool) \<Rightarrow> ('w \<Rightarrow> 'w \<Rightarrow> bool) \<Rightarrow> 'w list \<Rightarrow> bool" where
  "register_consistent key in_force conflict ws \<longleftrightarrow>
     (\<forall>x\<in>set ws. \<forall>y\<in>set ws. in_force x \<longrightarrow> in_force y \<longrightarrow> key x \<noteq> key y \<longrightarrow> \<not> conflict x y)"

locale window_register =
  fixes key :: "'w \<Rightarrow> uuid"
    and in_force :: "'w \<Rightarrow> bool"
    and conflict :: "'w \<Rightarrow> 'w \<Rightarrow> bool"
  assumes conflict_sym: "conflict x y \<longleftrightarrow> conflict y x"
begin

lemma consistentD:
  "register_consistent key in_force conflict ws \<Longrightarrow> x \<in> set ws \<Longrightarrow> y \<in> set ws \<Longrightarrow> in_force x \<Longrightarrow> in_force y \<Longrightarrow>
   conflict x y \<Longrightarrow> key x = key y"
  unfolding register_consistent_def by blast

lemma consistent_insert:
  assumes "register_consistent key in_force conflict ws"
    and "in_force w \<Longrightarrow> \<forall>x\<in>set ws. in_force x \<longrightarrow> \<not> conflict w x"
  shows "register_consistent key in_force conflict (ws @ [w])"
  using assms conflict_sym unfolding register_consistent_def set_append list.set by blast

lemma consistent_update:
  assumes "register_consistent key in_force conflict ws"
    and "\<And>x. x \<in> set ws \<Longrightarrow> P x \<Longrightarrow> key x = i \<and> key (f x) = i"
    and "\<And>x y. x \<in> set ws \<Longrightarrow> P x \<Longrightarrow> in_force (f x) \<Longrightarrow> y \<in> set ws \<Longrightarrow> key y \<noteq> i \<Longrightarrow> in_force y \<Longrightarrow> \<not> conflict (f x) y"
  shows "register_consistent key in_force conflict (update_where P f ws)"
  unfolding register_consistent_def set_update_where
proof (intro ballI impI)
  let ?g = "\<lambda>x. if P x then f x else x"
  fix x y assume "x \<in> ?g ` set ws" "y \<in> ?g ` set ws" and act: "in_force x" "in_force y" and k: "key x \<noteq> key y"
  then obtain x0 y0 where x: "x0 \<in> set ws" "x = ?g x0" and y: "y0 \<in> set ws" "y = ?g y0" by blast
  consider "P x0" "P y0" | "P x0" "\<not> P y0" | "\<not> P x0" "P y0" | "\<not> P x0" "\<not> P y0" by blast
  then show "\<not> conflict x y"
  proof cases
    case 1
    then show ?thesis using assms(2) [OF x(1)] assms(2) [OF y(1)] k x(2) y(2) by simp
  next
    case 2
    then show ?thesis using assms(3) [OF x(1) _ _ y(1)] assms(2) [OF x(1)] act k x(2) y(2) by simp
  next
    case 3
    then have "\<not> conflict y x" using assms(3) [OF y(1) _ _ x(1)] assms(2) [OF y(1)] act k x(2) y(2) by simp
    then show ?thesis using conflict_sym by blast
  next
    case 4
    then show ?thesis using assms(1) x y act k unfolding register_consistent_def by simp
  qed
qed

lemma consistent_withdraw:
  assumes "register_consistent key in_force conflict ws" "\<And>x. \<not> in_force (f x)"
  shows "register_consistent key in_force conflict (update_where P f ws)"
  using assms unfolding register_consistent_def set_update_where by auto

lemma consistent_remove:
  "register_consistent key in_force conflict ws \<Longrightarrow> register_consistent key in_force conflict (filter P ws)"
  unfolding register_consistent_def by auto

end

section \<open>Rooms\<close>

definition room_not_found :: "uuid \<Rightarrow> exn" where "room_not_found room_id = not_found ROOM_NOT_FOUND (CtxId room_id)"

record delete_command =
  de_reason :: "string option"
  de_permanent :: bool

section \<open>Room Slot Templates\<close>

text \<open>\<open>CreateRoomSlotTemplateCommand\<close> and \<open>UpdateRoomSlotTemplateCommand\<close> have the same fields.\<close>

record template_command =
  tc_facility_id :: uuid
  tc_name :: string
  tc_days_of_week :: "int list"
  tc_start_time :: tod
  tc_end_time :: tod
  tc_slot_duration_minutes :: int
  tc_is_active :: bool
  tc_effective_from :: "date option"
  tc_effective_to :: "date option"

definition template_not_found :: "uuid \<Rightarrow> exn" where
  "template_not_found i = not_found SLOT_TEMPLATE_NOT_FOUND (CtxId i)"

definition dates_reversed :: "date option \<Rightarrow> date option \<Rightarrow> bool" where
  "dates_reversed effective_from effective_to = (case (effective_from, effective_to) of (Some a, Some b) \<Rightarrow> a > b | _ \<Rightarrow> False)"

definition validate_time_window :: "template_command \<Rightarrow> exn + unit" where
  "validate_time_window command =
     raise_if (tc_start_time command \<ge> tc_end_time command) bad_request_plain
       (raise_if (tc_slot_duration_minutes command \<le> 0) bad_request_plain
         (raise_if (dates_reversed (tc_effective_from command) (tc_effective_to command)) bad_request_plain (Inr ())))"

definition encode_days_mask :: "int list \<Rightarrow> exn + int" where
  "encode_days_mask days = (case days_to_mask days of None \<Rightarrow> Inl bad_request_plain | Some m \<Rightarrow> Inr m)"

definition template_candidates :: "db \<Rightarrow> uuid \<Rightarrow> int \<Rightarrow> uuid option \<Rightarrow> slot_template list" where
  "template_candidates s facility_id days_of_week_mask exclude_template_id =
     filter (\<lambda>t. \<not> st_is_deleted t \<and> st_is_active t \<and> st_facility_id t = facility_id \<and>
        st_days_of_week_mask t AND days_of_week_mask \<noteq> 0 \<and>
        (case exclude_template_id of None \<Rightarrow> True | Some i \<Rightarrow> st_id t \<noteq> i)) (db_slot_templates s)"

definition assert_no_template_overlap :: "db \<Rightarrow> template_command \<Rightarrow> int \<Rightarrow> uuid option \<Rightarrow> exn + unit" where
  "assert_no_template_overlap s command days_of_week_mask exclude_template_id =
     (if \<not> tc_is_active command then Inr ()
      else forE (\<lambda>candidate.
             if \<not> effective_dates_overlap (tc_effective_from command) (tc_effective_to command)
                    (st_effective_from candidate) (st_effective_to candidate) then Inr ()
             else raise_if (time_ranges_overlap (tc_start_time command) (tc_end_time command)
                      (st_start_time candidate) (st_end_time candidate))
                    (raise_exn BadRequest (Some (FCode SLOT_TEMPLATE_OVERLAP)) (CtxId (tc_facility_id command))) (Inr ()))
           (template_candidates s (tc_facility_id command) days_of_week_mask exclude_template_id))"

definition template_row :: "uuid \<Rightarrow> template_command \<Rightarrow> int \<Rightarrow> slot_template" where
  "template_row i command days_of_week_mask =
     \<lparr>st_id = i, st_facility_id = tc_facility_id command, st_name = tc_name command,
      st_days_of_week_mask = days_of_week_mask, st_start_time = tc_start_time command, st_end_time = tc_end_time command,
      st_slot_duration_minutes = tc_slot_duration_minutes command, st_is_active = tc_is_active command,
      st_effective_from = tc_effective_from command, st_effective_to = tc_effective_to command, st_is_deleted = False\<rparr>"

definition template_get_by_id :: "db \<Rightarrow> uuid \<Rightarrow> slot_template option" where
  "template_get_by_id s i = List.find (\<lambda>t. st_id t = i) (db_slot_templates s)"

definition template_list_by_facility :: "db \<Rightarrow> uuid \<Rightarrow> slot_template list" where
  "template_list_by_facility s facility_id =
     sort_key (\<lambda>t. (st_days_of_week_mask t, st_start_time t))
       (filter (\<lambda>t. \<not> st_is_deleted t \<and> st_facility_id t = facility_id) (db_slot_templates s))"

definition create_template :: "template_command \<Rightarrow> uuid handler" where
  "create_template command e s =
     raise_if (\<not> room_exists_by_id s (tc_facility_id command)) (room_not_found (tc_facility_id command))
     (bindE (validate_time_window command) (\<lambda>_.
      bindE (encode_days_mask (tc_days_of_week command)) (\<lambda>m.
      bindE (assert_no_template_overlap s command m None) (\<lambda>_.
      case fresh_uuid s of (i, s1) \<Rightarrow>
        Inr (i, s1\<lparr>db_slot_templates := db_slot_templates s1 @ [template_row i command m]\<rparr>)))))"

text \<open>The update writes every column but the id; a deleted row is not written, which raises.\<close>

definition update_template :: "uuid \<Rightarrow> template_command \<Rightarrow> unit handler" where
  "update_template i command e s =
     raise_if (template_get_by_id s i = None) (template_not_found i)
     (raise_if (\<not> room_exists_by_id s (tc_facility_id command)) (room_not_found (tc_facility_id command))
     (bindE (validate_time_window command) (\<lambda>_.
      bindE (encode_days_mask (tc_days_of_week command)) (\<lambda>m.
      bindE (assert_no_template_overlap s command m (Some i)) (\<lambda>_.
      raise_if (\<not> list_ex (\<lambda>t. st_id t = i \<and> \<not> st_is_deleted t) (db_slot_templates s)) (template_not_found i)
        (Inr ((), s\<lparr>db_slot_templates := update_where (\<lambda>t. st_id t = i \<and> \<not> st_is_deleted t)
                      (\<lambda>t. template_row (st_id t) command m) (db_slot_templates s)\<rparr>)))))))"

definition delete_template :: "uuid \<Rightarrow> delete_command \<Rightarrow> unit handler" where
  "delete_template i command e s =
     raise_if (template_get_by_id s i = None) (template_not_found i)
       (if de_permanent command
        then Inr ((), s\<lparr>db_slot_templates := filter (\<lambda>t. st_id t \<noteq> i) (db_slot_templates s)\<rparr>)
        else Inr ((), s\<lparr>db_slot_templates := update_where (\<lambda>t. st_id t = i) (\<lambda>t. t\<lparr>st_is_deleted := True\<rparr>) (db_slot_templates s)\<rparr>))"

definition restore_template :: "uuid \<Rightarrow> unit handler" where
  "restore_template i e s =
     Inr ((), s\<lparr>db_slot_templates := update_where (\<lambda>t. st_id t = i) (\<lambda>t. t\<lparr>st_is_deleted := False\<rparr>) (db_slot_templates s)\<rparr>)"

section \<open>Blackouts\<close>

text \<open>The shared fields of the create and the update command; only a creation confirms an impact.\<close>

record blackout_command =
  kc_facility_id :: "uuid option"
  kc_name :: string
  kc_reason :: string
  kc_kind :: string
  kc_blackout_date :: "date option"
  kc_days_of_week :: "int list option"
  kc_start_time :: tod
  kc_end_time :: tod
  kc_is_active :: bool
  kc_effective_from :: "date option"
  kc_effective_to :: "date option"

record create_blackout_command = blackout_command +
  kc_confirm_occurrence_ids :: "uuid list option"

definition normalize_kind :: "string \<Rightarrow> exn + string" where
  "normalize_kind kind =
     (let v = str_lower (str_strip kind)
      in raise_if (v \<notin> {blackout_kind_value BK_ONE_OFF, blackout_kind_value BK_RECURRING}) bad_request_plain (Inr v))"

definition validate_blackout :: "('a) blackout_command_scheme \<Rightarrow> exn + (string \<times> int option)" where
  "validate_blackout command =
     raise_if (str_strip (kc_reason command) = []) bad_request_plain
     (raise_if (kc_start_time command \<ge> kc_end_time command) bad_request_plain
     (raise_if (dates_reversed (kc_effective_from command) (kc_effective_to command)) bad_request_plain
     (bindE (normalize_kind (kc_kind command)) (\<lambda>kind.
        if kind = blackout_kind_value BK_ONE_OFF then
          raise_if (kc_blackout_date command = None) bad_request_plain
            (raise_if (kc_days_of_week command \<noteq> None \<and> kc_days_of_week command \<noteq> Some []) bad_request_plain (Inr (kind, None)))
        else
          raise_if (kc_blackout_date command \<noteq> None) bad_request_plain
            (bindE (encode_days_mask (case kc_days_of_week command of None \<Rightarrow> [] | Some ds \<Rightarrow> ds)) (\<lambda>m. Inr (kind, Some m)))))))"

definition assert_room_exists :: "db \<Rightarrow> uuid option \<Rightarrow> exn + unit" where
  "assert_room_exists s facility_id =
     (case facility_id of None \<Rightarrow> Inr ()
      | Some i \<Rightarrow> raise_if (\<not> room_exists_by_id s i) (room_not_found i) (Inr ()))"

definition blackout_candidates :: "db \<Rightarrow> uuid option \<Rightarrow> string \<Rightarrow> uuid option \<Rightarrow> blackout list" where
  "blackout_candidates s facility_id kind exclude_blackout_id =
     filter (\<lambda>b. \<not> bo_is_deleted b \<and> bo_is_active b \<and> bo_kind b = kind \<and>
        (case facility_id of None \<Rightarrow> True | Some i \<Rightarrow> bo_facility_id b = Some i \<or> bo_facility_id b = None) \<and>
        (case exclude_blackout_id of None \<Rightarrow> True | Some i \<Rightarrow> bo_id b \<noteq> i)) (db_blackouts s)"

definition blackout_overlap :: "uuid option \<Rightarrow> exn" where
  "blackout_overlap facility_id =
     raise_exn BadRequest (Some (FCode BLACKOUT_OVERLAP)) (case facility_id of None \<Rightarrow> CtxNone | Some i \<Rightarrow> CtxId i)"

text \<open>The body of the loop over the candidates.\<close>

definition check_candidate :: "('a) blackout_command_scheme \<Rightarrow> string \<Rightarrow> int option \<Rightarrow> blackout \<Rightarrow> exn + unit" where
  "check_candidate command kind days_of_week_mask candidate =
     (if \<not> scopes_overlap (kc_facility_id command) (bo_facility_id candidate) then Inr ()
      else if \<not> time_ranges_overlap (kc_start_time command) (kc_end_time command)
                 (bo_start_time candidate) (bo_end_time candidate) then Inr ()
      else if (if kind = blackout_kind_value BK_ONE_OFF then bo_blackout_date candidate \<noteq> kc_blackout_date command
               else (case (bo_days_of_week_mask candidate, days_of_week_mask) of
                       (Some a, Some b) \<Rightarrow> a AND b = 0 \<or>
                         \<not> effective_dates_overlap (kc_effective_from command) (kc_effective_to command)
                             (bo_effective_from candidate) (bo_effective_to candidate)
                     | _ \<Rightarrow> True)) then Inr ()
      else Inl (blackout_overlap (kc_facility_id command)))"

definition assert_no_blackout_overlap ::
  "db \<Rightarrow> ('a) blackout_command_scheme \<Rightarrow> string \<Rightarrow> int option \<Rightarrow> uuid option \<Rightarrow> exn + unit" where
  "assert_no_blackout_overlap s command kind days_of_week_mask exclude_blackout_id =
     (if \<not> kc_is_active command then Inr ()
      else forE (check_candidate command kind days_of_week_mask)
             (blackout_candidates s (kc_facility_id command) kind exclude_blackout_id))"

text \<open>\<open>_to_payload\<close> and \<open>_proposed_blackout\<close>; nothing reads the id of a proposal.\<close>

definition blackout_row :: "uuid \<Rightarrow> ('a) blackout_command_scheme \<Rightarrow> string \<Rightarrow> int option \<Rightarrow> blackout" where
  "blackout_row i command kind days_of_week_mask =
     (let one_off = (kind = blackout_kind_value BK_ONE_OFF); recurring = (kind = blackout_kind_value BK_RECURRING)
      in \<lparr>bo_id = i, bo_facility_id = kc_facility_id command, bo_name = str_strip (kc_name command),
          bo_reason = str_strip (kc_reason command), bo_kind = kind,
          bo_blackout_date = (if one_off then kc_blackout_date command else None),
          bo_days_of_week_mask = (if recurring then days_of_week_mask else None),
          bo_start_time = kc_start_time command, bo_end_time = kc_end_time command, bo_is_active = kc_is_active command,
          bo_effective_from = (if recurring then kc_effective_from command else None),
          bo_effective_to = (if recurring then kc_effective_to command else None), bo_is_deleted = False\<rparr>)"

definition raise_if_impact_unconfirmed :: "blackout_impact \<Rightarrow> uuid list option \<Rightarrow> exn + unit" where
  "raise_if_impact_unconfirmed impact confirm_occurrence_ids =
     (if bx_items impact = [] then Inr ()
      else (let confirmed = set (case confirm_occurrence_ids of None \<Rightarrow> [] | Some ids \<Rightarrow> ids);
                expected = set (map bi_id (bx_items impact))
            in raise_if (confirmed = {}) (bad_request BLACKOUT_IMPACT_CONFIRMATION_REQUIRED)
                 (raise_if (confirmed \<noteq> expected) (bad_request BLACKOUT_IMPACT_MISMATCH) (Inr ()))))"

definition blackout_get_by_id :: "db \<Rightarrow> uuid \<Rightarrow> blackout option" where
  "blackout_get_by_id s i = List.find (\<lambda>b. bo_id b = i) (db_blackouts s)"

definition blackout_list_by_facility :: "db \<Rightarrow> uuid option \<Rightarrow> blackout list" where
  "blackout_list_by_facility s facility_id =
     sort_key bo_start_time
       (filter (\<lambda>b. \<not> bo_is_deleted b \<and>
          (case facility_id of None \<Rightarrow> bo_facility_id b = None
           | Some i \<Rightarrow> bo_facility_id b = Some i \<or> bo_facility_id b = None)) (db_blackouts s))"

definition preview_command_impact :: "('a) blackout_command_scheme \<Rightarrow> env \<Rightarrow> db \<Rightarrow> exn + blackout_impact" where
  "preview_command_impact command e s =
     bindE (assert_room_exists s (kc_facility_id command)) (\<lambda>_.
     bindE (validate_blackout command) (\<lambda>(kind, m).
     Inr (preview_blackout_impact (blackout_row (db_next_uuid s) command kind m) e s)))"

definition create_blackout :: "create_blackout_command \<Rightarrow> uuid handler" where
  "create_blackout command e s =
     bindE (assert_room_exists s (kc_facility_id command)) (\<lambda>_.
     bindE (validate_blackout command) (\<lambda>(kind, m).
     bindE (assert_no_blackout_overlap s command kind m None) (\<lambda>_.
     let impact = preview_blackout_impact (blackout_row (db_next_uuid s) command kind m) e s
     in bindE (raise_if_impact_unconfirmed impact (kc_confirm_occurrence_ids command)) (\<lambda>_.
        case fresh_uuid s of (i, s1) \<Rightarrow>
        let s2 = s1\<lparr>db_blackouts := db_blackouts s1 @ [blackout_row i command kind m]\<rparr>
        in if bx_items impact = [] then Inr (i, s2)
           else bindE (apply_blackout_impact (bx_items impact) (str_strip (kc_reason command)) e s2) (\<lambda>(r, s3). Inr (i, s3))))))"

definition blackout_not_found :: "uuid \<Rightarrow> exn" where "blackout_not_found i = not_found BLACKOUT_NOT_FOUND (CtxId i)"

text \<open>The update of a Blackout neither previews nor applies an impact.\<close>

definition update_blackout :: "uuid \<Rightarrow> blackout_command \<Rightarrow> unit handler" where
  "update_blackout i command e s =
     raise_if (blackout_get_by_id s i = None) (blackout_not_found i)
     (bindE (assert_room_exists s (kc_facility_id command)) (\<lambda>_.
      bindE (validate_blackout command) (\<lambda>(kind, m).
      bindE (assert_no_blackout_overlap s command kind m (Some i)) (\<lambda>_.
      raise_if (\<not> list_ex (\<lambda>b. bo_id b = i \<and> \<not> bo_is_deleted b) (db_blackouts s)) (blackout_not_found i)
        (Inr ((), s\<lparr>db_blackouts := update_where (\<lambda>b. bo_id b = i \<and> \<not> bo_is_deleted b)
                      (\<lambda>b. blackout_row (bo_id b) command kind m) (db_blackouts s)\<rparr>))))))"

definition delete_blackout :: "uuid \<Rightarrow> delete_command \<Rightarrow> unit handler" where
  "delete_blackout i command e s =
     raise_if (blackout_get_by_id s i = None) (blackout_not_found i)
       (if de_permanent command
        then Inr ((), s\<lparr>db_blackouts := filter (\<lambda>b. bo_id b \<noteq> i) (db_blackouts s)\<rparr>)
        else Inr ((), s\<lparr>db_blackouts := update_where (\<lambda>b. bo_id b = i) (\<lambda>b. b\<lparr>bo_is_deleted := True\<rparr>) (db_blackouts s)\<rparr>))"

definition restore_blackout :: "uuid \<Rightarrow> unit handler" where
  "restore_blackout i e s =
     Inr ((), s\<lparr>db_blackouts := update_where (\<lambda>b. bo_id b = i) (\<lambda>b. b\<lparr>bo_is_deleted := False\<rparr>) (db_blackouts s)\<rparr>)"

section \<open>The registers\<close>

definition template_in_force :: "slot_template \<Rightarrow> bool" where
  "template_in_force t \<longleftrightarrow> \<not> st_is_deleted t \<and> st_is_active t"

definition template_conflict :: "slot_template \<Rightarrow> slot_template \<Rightarrow> bool" where
  "template_conflict x y \<longleftrightarrow>
     st_facility_id x = st_facility_id y \<and> st_days_of_week_mask x AND st_days_of_week_mask y \<noteq> 0 \<and>
     effective_dates_overlap (st_effective_from x) (st_effective_to x) (st_effective_from y) (st_effective_to y) \<and>
     time_ranges_overlap (st_start_time x) (st_end_time x) (st_start_time y) (st_end_time y)"

definition blackout_in_force :: "blackout \<Rightarrow> bool" where
  "blackout_in_force b \<longleftrightarrow> \<not> bo_is_deleted b \<and> bo_is_active b"

definition blackout_conflict :: "blackout \<Rightarrow> blackout \<Rightarrow> bool" where
  "blackout_conflict x y \<longleftrightarrow>
     bo_kind x = bo_kind y \<and> scopes_overlap (bo_facility_id x) (bo_facility_id y) \<and>
     time_ranges_overlap (bo_start_time x) (bo_end_time x) (bo_start_time y) (bo_end_time y) \<and>
     (if bo_kind x = blackout_kind_value BK_ONE_OFF then bo_blackout_date x = bo_blackout_date y
      else (case (bo_days_of_week_mask x, bo_days_of_week_mask y) of
              (Some a, Some b) \<Rightarrow> a AND b \<noteq> 0 \<and>
                effective_dates_overlap (bo_effective_from x) (bo_effective_to x) (bo_effective_from y) (bo_effective_to y)
            | _ \<Rightarrow> False))"

lemma effective_dates_sym: "effective_dates_overlap a b c d = effective_dates_overlap c d a b"
  by (auto simp: effective_dates_overlap_def split: option.splits)

lemma time_ranges_sym: "time_ranges_overlap a b c d = time_ranges_overlap c d a b"
  by (auto simp: time_ranges_overlap_def)

lemma scopes_sym: "scopes_overlap a b = scopes_overlap b a"
  by (auto simp: scopes_overlap_def)

interpretation templates: window_register st_id template_in_force template_conflict
proof unfold_locales
  fix x y
  show "template_conflict x y \<longleftrightarrow> template_conflict y x"
    using effective_dates_sym [of "st_effective_from x" "st_effective_to x"] time_ranges_sym [of "st_start_time x" "st_end_time x"]
    by (auto simp: template_conflict_def and.commute)
qed

interpretation blackouts: window_register bo_id blackout_in_force blackout_conflict
proof unfold_locales
  fix x y
  show "blackout_conflict x y \<longleftrightarrow> blackout_conflict y x"
    using effective_dates_sym [of "bo_effective_from x" "bo_effective_to x"] time_ranges_sym [of "bo_start_time x" "bo_end_time x"]
      scopes_sym [of "bo_facility_id x"]
    by (auto simp: blackout_conflict_def and.commute split: option.splits)
qed

definition templates_consistent :: "db \<Rightarrow> bool" where
  "templates_consistent s \<longleftrightarrow> register_consistent st_id template_in_force template_conflict (db_slot_templates s)"

definition blackouts_consistent :: "db \<Rightarrow> bool" where
  "blackouts_consistent s \<longleftrightarrow> register_consistent bo_id blackout_in_force blackout_conflict (db_blackouts s)"

text \<open>What the checks of the services establish.\<close>

lemma template_row_simps [simp]:
  "st_id (template_row i c m) = i" "template_in_force (template_row i c m) = tc_is_active c"
  by (simp_all add: template_row_def template_in_force_def)

lemma no_template_overlap:
  assumes "assert_no_template_overlap s c m ex = Inr u" "tc_is_active c"
    and "t \<in> set (db_slot_templates s)" "template_in_force t" "ex \<noteq> Some (st_id t)"
  shows "\<not> template_conflict (template_row i c m) t"
proof (cases "t \<in> set (template_candidates s (tc_facility_id c) m ex)")
  case True
  then show ?thesis
    using assms(1,2) by (auto simp: assert_no_template_overlap_def forE_Inr_iff raise_if_def template_conflict_def template_row_def split: if_splits)
next
  case False
  then show ?thesis
    using assms(3-5) by (auto simp: template_candidates_def template_conflict_def template_row_def template_in_force_def and.commute split: option.splits)
qed

lemma blackout_row_simps [simp]:
  "bo_id (blackout_row i c k m) = i" "blackout_in_force (blackout_row i c k m) = kc_is_active c"
  "bo_is_active (blackout_row i c k m) = kc_is_active c"
  by (simp_all add: blackout_row_def blackout_in_force_def Let_def)

lemma blackout_kinds_differ [simp]: "blackout_kind_value BK_RECURRING \<noteq> blackout_kind_value BK_ONE_OFF" by simp

lemma validate_blackout_kind:
  "validate_blackout c = Inr (k, m) \<Longrightarrow> k = blackout_kind_value BK_ONE_OFF \<or> k = blackout_kind_value BK_RECURRING"
  by (auto simp: validate_blackout_def normalize_kind_def guard_simps Let_def split: if_splits)

lemma no_blackout_overlap:
  assumes "assert_no_blackout_overlap s c k m ex = Inr u" "kc_is_active c" "validate_blackout c = Inr (k, m)"
    and "b \<in> set (db_blackouts s)" "blackout_in_force b" "ex \<noteq> Some (bo_id b)"
  shows "\<not> blackout_conflict (blackout_row i c k m) b"
proof (cases "b \<in> set (blackout_candidates s (kc_facility_id c) k ex)")
  case True
  then have check: "check_candidate c k m b = Inr ()"
    using assms(1,2) by (simp add: assert_no_blackout_overlap_def forE_Inr_iff)
  show ?thesis
  proof (cases "k = blackout_kind_value BK_ONE_OFF")
    case True
    with check show ?thesis
      by (auto simp: check_candidate_def blackout_conflict_def blackout_row_def Let_def split: if_splits)
  next
    case False
    with validate_blackout_kind [OF assms(3)] have "k = blackout_kind_value BK_RECURRING" by simp
    with check show ?thesis
      by (cases m; cases "bo_days_of_week_mask b")
         (auto simp: check_candidate_def blackout_conflict_def blackout_row_def Let_def and.commute split: if_splits)
  qed
next
  case False
  then show ?thesis
    using assms(4-6) by (auto simp: blackout_candidates_def blackout_conflict_def blackout_row_def blackout_in_force_def scopes_overlap_def Let_def
        split: option.splits)
qed

end
