(* ===== verification/Opening_Safety.thy ===== *)
theory Opening_Safety imports Opening_Admin begin

text \<open>
  What the administration of opening hours and blackouts guarantees: the registers stay free of conflicts, so
  that a moment of a room lies in at most one window, and a new Blackout leaves no live occurrence behind.
\<close>

section \<open>Opening windows\<close>

lemma template_windows_disjoint:
  assumes "templates_consistent s"
    and "x \<in> set (filter_applicable_templates (list_active_for_day s f (weekday d)) d)"
    and "y \<in> set (filter_applicable_templates (list_active_for_day s f (weekday d)) d)"
    and "time_ranges_overlap (st_start_time x) (st_end_time x) (st_start_time y) (st_end_time y)"
  shows "st_id x = st_id y"
proof (rule templates.consistentD [OF assms(1) [unfolded templates_consistent_def]])
  have in_list: "z \<in> set (db_slot_templates s) \<and> template_in_force z \<and> st_facility_id z = f \<and>
      bit (st_days_of_week_mask z) (nat (weekday d)) \<and> template_effective d z"
    if "z \<in> set (filter_applicable_templates (list_active_for_day s f (weekday d)) d)" for z
    using that by (auto simp: filter_applicable_templates_def list_active_for_day_def Let_def template_in_force_def bit_iff_and_push_bit_not_eq_0)
  note x = in_list [OF assms(2)] and y = in_list [OF assms(3)]
  show "x \<in> set (db_slot_templates s)" "y \<in> set (db_slot_templates s)" "template_in_force x" "template_in_force y"
    using x y by simp_all
  have "bit (st_days_of_week_mask x AND st_days_of_week_mask y) (nat (weekday d))" using x y by (simp add: bit_and_iff)
  then have "st_days_of_week_mask x AND st_days_of_week_mask y \<noteq> 0" by (metis bit_0_eq bot_apply bot_bool_def)
  then show "template_conflict x y"
    using x y assms(4) by (auto simp: template_conflict_def effective_dates_overlap_def template_effective_def split: option.splits)
qed

lemma create_template_kept:
  assumes "templates_consistent s" "create_template c e s = Inr (i, s')"
  shows "templates_consistent s'"
proof -
  from assms(2) obtain m u where m: "assert_no_template_overlap s c m None = Inr u"
    and s': "db_slot_templates s' = db_slot_templates s @ [template_row i c m]"
    by (auto simp: create_template_def guard_simps fresh_uuid_def)
  show ?thesis
    using assms(1) no_template_overlap [OF m] unfolding templates_consistent_def s'
    by (intro templates.consistent_insert) auto
qed

lemma update_template_kept:
  assumes "templates_consistent s" "update_template i c e s = Inr (u, s')"
  shows "templates_consistent s'"
proof -
  from assms(2) obtain m u where m: "assert_no_template_overlap s c m (Some i) = Inr u"
    and s': "db_slot_templates s' = update_where (\<lambda>t. st_id t = i \<and> \<not> st_is_deleted t) (\<lambda>t. template_row (st_id t) c m) (db_slot_templates s)"
    by (auto simp: update_template_def guard_simps)
  show ?thesis
    unfolding templates_consistent_def s'
  proof (rule templates.consistent_update [OF assms(1) [unfolded templates_consistent_def], where i = i], goal_cases)
    case (2 x y)
    then show ?case using no_template_overlap [OF m] by auto
  qed simp
qed

lemma withdrawn [simp]:
  "\<not> template_in_force (t\<lparr>st_is_deleted := True\<rparr>)" "\<not> blackout_in_force (b\<lparr>bo_is_deleted := True\<rparr>)"
  by (simp_all add: template_in_force_def blackout_in_force_def)

lemma delete_template_kept:
  assumes "templates_consistent s" "delete_template i c e s = Inr (u, s')"
  shows "templates_consistent s'"
  using assms(2) templates.consistent_remove [OF assms(1) [unfolded templates_consistent_def]]
    templates.consistent_withdraw [OF assms(1) [unfolded templates_consistent_def], of "st_is_deleted_update (\<lambda>_. True)"]
  by (auto simp: delete_template_def guard_simps templates_consistent_def split: if_splits)

text \<open>
  C20. The register of opening windows: creating, updating or deleting a Room Slot Template keeps any two active
  templates of a room apart, in time, in weekday or in season; so on every date the windows of a room that apply do not
  overlap, and at every time of day at most one of them governs.
\<close>

theorem template_register_kept:
  assumes "templates_consistent s"
    and "(\<exists>c i. create_template c e s = Inr (i, s')) \<or> (\<exists>i c. update_template i c e s = Inr ((), s')) \<or>
         (\<exists>i c. delete_template i c e s = Inr ((), s'))"
    and "x \<in> set (filter_applicable_templates (list_active_for_day s' f (weekday d)) d)"
    and "y \<in> set (filter_applicable_templates (list_active_for_day s' f (weekday d)) d)"
  shows "templates_consistent s' \<and>
    (time_ranges_overlap (st_start_time x) (st_end_time x) (st_start_time y) (st_end_time y) \<longrightarrow> st_id x = st_id y)"
proof -
  have "templates_consistent s'"
    using assms(1,2) create_template_kept update_template_kept delete_template_kept by blast
  with template_windows_disjoint [OF _ assms(3,4)] show ?thesis by blast
qed

section \<open>Blackouts\<close>

lemma blackout_windows_disjoint:
  assumes "blackouts_consistent s"
    and "x \<in> set (list_active_for_room_day s f d)" "y \<in> set (list_active_for_room_day s f d)" "bo_kind x = bo_kind y"
    and "time_ranges_overlap (bo_start_time x) (bo_end_time x) (bo_start_time y) (bo_end_time y)"
  shows "bo_id x = bo_id y"
proof (rule blackouts.consistentD [OF assms(1) [unfolded blackouts_consistent_def]])
  have in_list: "z \<in> set (db_blackouts s) \<and> blackout_in_force z \<and> scopes_overlap (Some f) (bo_facility_id z) \<and>
      (bo_facility_id z = None \<or> bo_facility_id z = Some f) \<and>
      (bo_kind z = blackout_kind_value BK_ONE_OFF \<and> bo_blackout_date z = Some d \<or>
       bo_kind z = blackout_kind_value BK_RECURRING \<and>
       (\<exists>m. bo_days_of_week_mask z = Some m \<and> bit m (nat (weekday d))) \<and>
       (case bo_effective_from z of None \<Rightarrow> True | Some a \<Rightarrow> a \<le> d) \<and> (case bo_effective_to z of None \<Rightarrow> True | Some b \<Rightarrow> b \<ge> d))"
    if "z \<in> set (list_active_for_room_day s f d)" for z
    using that by (auto simp: list_active_for_room_day_def Let_def blackout_in_force_def scopes_overlap_def bit_iff_and_push_bit_not_eq_0
        simp del: blackout_kind_value.simps split: option.splits)
  note x = in_list [OF assms(2)] and y = in_list [OF assms(3)]
  show "x \<in> set (db_blackouts s)" "y \<in> set (db_blackouts s)" "blackout_in_force x" "blackout_in_force y" using x y by simp_all
  have sc: "scopes_overlap (bo_facility_id x) (bo_facility_id y)" using x y by (auto simp: scopes_overlap_def)
  show "blackout_conflict x y"
  proof (cases "bo_kind x = blackout_kind_value BK_ONE_OFF")
    case True
    then have "bo_blackout_date x = bo_blackout_date y" using x y assms(4) by auto
    with True sc assms(4,5) show ?thesis by (simp add: blackout_conflict_def)
  next
    case False
    then obtain a b where ab: "bo_days_of_week_mask x = Some a" "bit a (nat (weekday d))" "bo_days_of_week_mask y = Some b" "bit b (nat (weekday d))"
      using x y assms(4) by auto
    then have "bit (a AND b) (nat (weekday d))" by (simp add: bit_and_iff)
    then have "a AND b \<noteq> 0" by (metis bit_0_eq bot_apply bot_bool_def)
    moreover have "effective_dates_overlap (bo_effective_from x) (bo_effective_to x) (bo_effective_from y) (bo_effective_to y)"
      using False x y assms(4) by (auto simp: effective_dates_overlap_def split: option.splits)
    ultimately show ?thesis using False ab sc assms(4,5) by (simp add: blackout_conflict_def)
  qed
qed

lemma settled_blackouts:
  assumes "apply_blackout_impact items reason e s = Inr (r, s')"
  shows "db_blackouts s' = db_blackouts s"
proof -
  from assms obtain u ids where "foldE (settle_series e u) (fold (\<lambda>oc. cancel_booking (en_repo_now e) (bi_id oc) (Some u) (Some reason) True) items s) ids = Inr s'"
    by (auto simp: apply_blackout_impact_def guard_simps Let_def split: option.splits)
  then show ?thesis
    unfolding cancel_loop
  proof (rule foldE_invariant)
    show "db_blackouts (cancel_bookings (en_repo_now e) (Some u) (Some reason) (bi_id ` set items) s) = db_blackouts s"
      by (simp add: cancel_bookings_def)
    show "db_blackouts t = db_blackouts s" if "db_blackouts s1 = db_blackouts s" "settle_series e u s1 i = Inr t" for s1 i t
      using settle_series_Inr [OF that(2)] that(1) by (auto simp: close_series_eq)
  qed
qed

lemma create_blackout_Inr:
  assumes "create_blackout c e s = Inr (i, s')"
  obtains k m u s2 where "validate_blackout c = Inr (k, m)" "assert_no_blackout_overlap s c k m None = Inr u" "i = db_next_uuid s"
    "raise_if_impact_unconfirmed (preview_blackout_impact (blackout_row i c k m) e s) (kc_confirm_occurrence_ids c) = Inr ()"
    "s2 = s\<lparr>db_next_uuid := db_next_uuid s + 1, db_blackouts := db_blackouts s @ [blackout_row i c k m]\<rparr>"
    "if bx_items (preview_blackout_impact (blackout_row i c k m) e s) = [] then s' = s2
     else \<exists>r. apply_blackout_impact (bx_items (preview_blackout_impact (blackout_row i c k m) e s)) (str_strip (kc_reason c)) e s2 = Inr (r, s')"
proof -
  let ?s2 = "\<lambda>k m. s\<lparr>db_next_uuid := db_next_uuid s + 1, db_blackouts := db_blackouts s @ [blackout_row (db_next_uuid s) c k m]\<rparr>"
  let ?im = "\<lambda>k m. preview_blackout_impact (blackout_row (db_next_uuid s) c k m) e s"
  from assms obtain k m u where v: "validate_blackout c = Inr (k, m)" "assert_no_blackout_overlap s c k m None = Inr u"
    "raise_if_impact_unconfirmed (?im k m) (kc_confirm_occurrence_ids c) = Inr ()" and
    r: "(if bx_items (?im k m) = [] then Inr (db_next_uuid s, ?s2 k m)
         else bindE (apply_blackout_impact (bx_items (?im k m)) (str_strip (kc_reason c)) e (?s2 k m)) (\<lambda>(r, s3). Inr (db_next_uuid s, s3))) = Inr (i, s')"
    by (clarsimp simp: create_blackout_def bindE_eq_Inr fresh_uuid_def Let_def split del: if_split cong: if_cong)
  from r have i: "i = db_next_uuid s" by (auto simp: bindE_eq_Inr split: if_splits)
  show ?thesis
    by (rule that [OF v(1,2) i _ refl]) (use v(3) r in \<open>auto simp: i bindE_eq_Inr split: if_splits\<close>)
qed

lemma create_blackout_kept:
  assumes "blackouts_consistent s" "create_blackout c e s = Inr (i, s')"
  shows "blackouts_consistent s'"
proof -
  from assms(2) obtain k m u s2 where v: "validate_blackout c = Inr (k, m)" "assert_no_blackout_overlap s c k m None = Inr u"
    and s2: "s2 = s\<lparr>db_next_uuid := db_next_uuid s + 1, db_blackouts := db_blackouts s @ [blackout_row i c k m]\<rparr>"
    and s': "if bx_items (preview_blackout_impact (blackout_row i c k m) e s) = [] then s' = s2
     else \<exists>r. apply_blackout_impact (bx_items (preview_blackout_impact (blackout_row i c k m) e s)) (str_strip (kc_reason c)) e s2 = Inr (r, s')"
    by (rule create_blackout_Inr)
  have "db_blackouts s' = db_blackouts s @ [blackout_row i c k m]"
    using s' settled_blackouts by (fastforce simp: s2 split: if_splits)
  then show ?thesis
    using assms(1) no_blackout_overlap [OF v(2) _ v(1)] unfolding blackouts_consistent_def
    by (simp only:) (intro blackouts.consistent_insert, auto)
qed

lemma update_blackout_kept:
  assumes "blackouts_consistent s" "update_blackout i c e s = Inr (u, s')"
  shows "blackouts_consistent s'"
proof -
  from assms(2) obtain k m u where v: "validate_blackout c = Inr (k, m)" "assert_no_blackout_overlap s c k m (Some i) = Inr u"
    and s': "db_blackouts s' = update_where (\<lambda>b. bo_id b = i \<and> \<not> bo_is_deleted b) (\<lambda>b. blackout_row (bo_id b) c k m) (db_blackouts s)"
    by (auto simp: update_blackout_def guard_simps)
  show ?thesis
    unfolding blackouts_consistent_def s'
  proof (rule blackouts.consistent_update [OF assms(1) [unfolded blackouts_consistent_def], where i = i], goal_cases)
    case (2 x y)
    then show ?case using no_blackout_overlap [OF v(2) _ v(1)] by auto
  qed simp
qed

lemma delete_blackout_kept:
  assumes "blackouts_consistent s" "delete_blackout i c e s = Inr (u, s')"
  shows "blackouts_consistent s'"
  using assms(2) blackouts.consistent_remove [OF assms(1) [unfolded blackouts_consistent_def]]
    blackouts.consistent_withdraw [OF assms(1) [unfolded blackouts_consistent_def], of "bo_is_deleted_update (\<lambda>_. True)"]
  by (auto simp: delete_blackout_def guard_simps blackouts_consistent_def split: if_splits)

text \<open>
  The register of Blackouts: creating, updating or deleting a Blackout keeps any two active Blackouts of one kind
  apart, so that on every date the Blackouts of one kind that apply to a room have disjoint times.
\<close>

lemma blackout_register_kept:
  assumes "blackouts_consistent s"
    and "(\<exists>c i. create_blackout c e s = Inr (i, s')) \<or> (\<exists>i c. update_blackout i c e s = Inr ((), s')) \<or>
         (\<exists>i c. delete_blackout i c e s = Inr ((), s'))"
    and "x \<in> set (list_active_for_room_day s' f d)" "y \<in> set (list_active_for_room_day s' f d)" "bo_kind x = bo_kind y"
  shows "blackouts_consistent s' \<and>
    (time_ranges_overlap (bo_start_time x) (bo_end_time x) (bo_start_time y) (bo_end_time y) \<longrightarrow> bo_id x = bo_id y)"
proof -
  have "blackouts_consistent s'"
    using assms(1,2) create_blackout_kept update_blackout_kept delete_blackout_kept by blast
  with blackout_windows_disjoint [OF _ assms(3-5)] show ?thesis by blast
qed

section \<open>A new Blackout and the series\<close>

lemma preview_cong:
  assumes "db_bookings s' = db_bookings s" "db_slots s' = db_slots s" "db_series s' = db_series s"
  shows "preview_blackout_impact bo e s' = preview_blackout_impact bo e s"
proof -
  have "active_occupancy_clause s' t b = active_occupancy_clause s t b" for t b by (rule active_cong_series) (rule assms(3))
  then have "list_live_future_series_occurrences s' t now = list_live_future_series_occurrences s t now" for t now
    by (simp add: live_future_eq future_rows_def future_series_booking_def assms(1,2))
  then show ?thesis by (simp add: preview_blackout_impact_def)
qed

lemma hit_cong:
  assumes "db_slots s' = db_slots s" "db_series s' = db_series s"
  shows "hit_by bo e s' b = hit_by bo e s b"
proof -
  have "active_occupancy_clause s' t b = active_occupancy_clause s t b" for t b by (rule active_cong_series) (rule assms(2))
  then show ?thesis by (simp add: hit_by_def future_series_booking_def confirmed_rooms_def assms(1))
qed

text \<open>
  C18. A new Blackout and the series: a creation that succeeds was confirmed for exactly the live future occurrences the
  Blackout hits, when it hits any; these, and no other Booking, are cancelled with the Blackout's reason; the Blackout
  is stored, and no live future occurrence holds a room it closes.
\<close>

theorem created_blackout_settled:
  assumes "wf_db s" and "create_blackout c e s = Inr (i, s')" and "kc_is_active c"
  shows "\<exists>bo. db_blackouts s' = db_blackouts s @ [bo] \<and> bo_id bo = i \<and> blackout_in_force bo \<and>
    (let hits = {b \<in> set (db_bookings s). hit_by bo e s b} in
       (hits \<noteq> {} \<longrightarrow> (\<exists>ids. kc_confirm_occurrence_ids c = Some ids \<and> set ids = bk_id ` hits)) \<and>
       db_bookings s' = map (\<lambda>b. if b \<in> hits then cancelled (en_repo_now e) (en_user_id e) (Some (str_strip (kc_reason c))) b else b)
         (db_bookings s)) \<and>
    (\<forall>b\<in>set (db_bookings s'). \<not> hit_by bo e s' b)"
proof -
  from assms(2) obtain k m u s2 where v: "validate_blackout c = Inr (k, m)" and
    conf: "raise_if_impact_unconfirmed (preview_blackout_impact (blackout_row i c k m) e s) (kc_confirm_occurrence_ids c) = Inr ()"
    and s2: "s2 = s\<lparr>db_next_uuid := db_next_uuid s + 1, db_blackouts := db_blackouts s @ [blackout_row i c k m]\<rparr>"
    and s': "if bx_items (preview_blackout_impact (blackout_row i c k m) e s) = [] then s' = s2
     else \<exists>r. apply_blackout_impact (bx_items (preview_blackout_impact (blackout_row i c k m) e s)) (str_strip (kc_reason c)) e s2 = Inr (r, s')"
    by (rule create_blackout_Inr)
  let ?bo = "blackout_row i c k m"
  let ?items = "bx_items (preview_blackout_impact ?bo e s)" and ?hits = "{b \<in> set (db_bookings s). hit_by ?bo e s b}"
  have d: "distinct (map bk_id (db_bookings s))" using assms(1) by (simp add: wf_db_def)
  have ids: "bi_id ` set ?items = bk_id ` ?hits" by (rule preview_ids [OF d]) (simp add: assms(3))
  have wf2: "wf_db s2" by (rule keeps_rows_wf [OF _ assms(1)]) (simp add: keeps_rows_def s2)
  have same: "preview_blackout_impact ?bo e s2 = preview_blackout_impact ?bo e s" "hit_by ?bo e s2 = hit_by ?bo e s"
    by (rule preview_cong, simp_all add: s2) (intro ext hit_cong, simp_all add: s2)
  have bl: "db_blackouts s' = db_blackouts s @ [?bo]" using s' settled_blackouts by (fastforce simp: s2 split: if_splits)
  have confirmed: "?hits \<noteq> {} \<longrightarrow> (\<exists>xs. kc_confirm_occurrence_ids c = Some xs \<and> set xs = bk_id ` ?hits)"
  proof
    assume "?hits \<noteq> {}"
    then have "?items \<noteq> []" using ids by auto
    with conf have "(case kc_confirm_occurrence_ids c of None \<Rightarrow> {} | Some xs \<Rightarrow> set xs) = bi_id ` set ?items"
      "(case kc_confirm_occurrence_ids c of None \<Rightarrow> {} | Some xs \<Rightarrow> set xs) \<noteq> {}"
      by (cases "kc_confirm_occurrence_ids c"; auto simp: raise_if_impact_unconfirmed_def guard_simps Let_def)+
    then show "\<exists>xs. kc_confirm_occurrence_ids c = Some xs \<and> set xs = bk_id ` ?hits" unfolding ids by (auto split: option.splits)
  qed
  have rest: "db_bookings s' = map (\<lambda>b. if b \<in> ?hits then cancelled (en_repo_now e) (en_user_id e) (Some (str_strip (kc_reason c))) b else b)
        (db_bookings s) \<and> (\<forall>b\<in>set (db_bookings s'). \<not> hit_by ?bo e s' b)"
  proof (cases "?items = []")
    case True
    then have "?hits = {}" using ids by auto
    with True s' show ?thesis by (auto simp: s2 same [unfolded s2] intro: map_idI [symmetric])
  next
    case False
    then obtain r where r: "apply_blackout_impact (bx_items (preview_blackout_impact ?bo e s2)) (str_strip (kc_reason c)) e s2 = Inr (r, s')"
      using s' by (auto simp: same)
    have act: "bo_is_active ?bo" by (simp add: assms(3))
    note eff = blackout_impact_effect [OF wf2 act r]
    have rows: "db_bookings s' = map (\<lambda>b. if b \<in> ?hits then cancelled (en_repo_now e) (en_user_id e) (Some (str_strip (kc_reason c))) b else b)
        (db_bookings s)"
      using eff unfolding same by (simp add: s2)
    have "map bk_id (db_bookings s') = map bk_id (db_bookings s)" unfolding rows by simp
    then have "distinct (map bk_id (db_bookings s'))" using d by simp
    from preview_ids [OF this act, of e] eff have "{b \<in> set (db_bookings s'). hit_by ?bo e s' b} = {}" by simp
    with rows show ?thesis by blast
  qed
  show ?thesis
    by (intro exI [of _ ?bo]) (use bl confirmed rest assms(3) in \<open>simp add: Let_def\<close>)
qed

section \<open>Examples\<close>

text \<open>The hall also opens for an hour at night on Mondays; a second morning template is refused.\<close>

definition night_template :: template_command where
  "night_template = \<lparr>tc_facility_id = hall_id, tc_name = ''Night'', tc_days_of_week = [0], tc_start_time = 22 * HOUR_US,
     tc_end_time = 23 * HOUR_US, tc_slot_duration_minutes = 30, tc_is_active = True, tc_effective_from = None, tc_effective_to = None\<rparr>"

lemma night_template_returns:
  "inr_sat (create_template night_template (july_env steward_id 6 9) sample_db)
     (\<lambda>(i, s'). i = 1000 \<and> list_ex (\<lambda>x. st_id x = 1000)
        (filter_applicable_templates (list_active_for_day s' hall_id (weekday (ymd2ord 2026 7 6))) (ymd2ord 2026 7 6)))"
  by code_simp

lemma morning_template_refused:
  "create_template (night_template\<lparr>tc_start_time := 7 * HOUR_US, tc_end_time := 9 * HOUR_US\<rparr>) (july_env steward_id 6 9) sample_db =
     Inl (raise_exn BadRequest (Some (FCode SLOT_TEMPLATE_OVERLAP)) (CtxId hall_id))"
  by code_simp

lemma sample_db_templates: "templates_consistent sample_db"
  unfolding templates_consistent_def by code_simp

theorem template_register_kept_witness:
  "\<exists>s'. create_template night_template (july_env steward_id 6 9) sample_db = Inr (1000, s') \<and> templates_consistent s'"
proof -
  obtain s' x where r: "create_template night_template (july_env steward_id 6 9) sample_db = Inr (1000, s')"
    "x \<in> set (filter_applicable_templates (list_active_for_day s' hall_id (weekday (ymd2ord 2026 7 6))) (ymd2ord 2026 7 6))"
    using night_template_returns unfolding inr_sat_eq list_ex_iff by auto
  have "\<exists>c i. create_template c (july_env steward_id 6 9) sample_db = Inr (i, s')" using r(1) by blast
  from template_register_kept [OF sample_db_templates disjI1 [OF this] r(2) r(2)] r(1) show ?thesis by blast
qed

text \<open>A restored template is not checked: deleting the daytime template, replacing it and restoring it makes them overlap.\<close>

lemma restored_template_overlaps:
  "inr_sat
     (bindE (delete_template 40 \<lparr>de_reason = None, de_permanent = False\<rparr> (july_env steward_id 6 9) sample_db) (\<lambda>(u, s1).
      bindE (create_template (night_template\<lparr>tc_start_time := 7 * HOUR_US, tc_end_time := 9 * HOUR_US\<rparr>) (july_env steward_id 6 9) s1) (\<lambda>(i, s2).
      restore_template 40 (july_env steward_id 6 9) s2)))
     (\<lambda>(u, s3). \<not> register_consistent st_id template_in_force template_conflict (db_slot_templates s3))"
  by code_simp

text \<open>The floor of the hall is done on the morning of the 14th; the second occurrence of the waiting series is confirmed away.\<close>

definition floor_works :: create_blackout_command where
  "floor_works = \<lparr>kc_facility_id = Some hall_id, kc_name = ''Floor works'', kc_reason = ''works '', kc_kind = ''one_off'',
     kc_blackout_date = Some (ymd2ord 2026 7 14), kc_days_of_week = None, kc_start_time = 8 * HOUR_US, kc_end_time = 12 * HOUR_US,
     kc_is_active = True, kc_effective_from = None, kc_effective_to = None, kc_confirm_occurrence_ids = Some [72]\<rparr>"

lemma floor_works_returns:
  "inr_sat (create_blackout floor_works (july_env steward_id 6 9) held_db)
     (\<lambda>(i, s'). i = 1000 \<and> map bk_status (db_bookings s') = [BS_PENDING_PAYMENT, BS_CANCELLED, BS_PENDING_PAYMENT] \<and>
        list_active_for_room_day s' hall_id (ymd2ord 2026 7 14) \<noteq> [])"
  by code_simp

lemma floor_works_unconfirmed:
  "create_blackout (floor_works\<lparr>kc_confirm_occurrence_ids := None\<rparr>) (july_env steward_id 6 9) held_db =
     Inl (bad_request BLACKOUT_IMPACT_CONFIRMATION_REQUIRED)"
  by code_simp

lemma held_db_blackouts: "blackouts_consistent held_db"
  unfolding blackouts_consistent_def by code_simp

lemma floor_works_created:
  obtains s' x where "create_blackout floor_works (july_env steward_id 6 9) held_db = Inr (1000, s')"
    "map bk_status (db_bookings s') = [BS_PENDING_PAYMENT, BS_CANCELLED, BS_PENDING_PAYMENT]"
    "x \<in> set (list_active_for_room_day s' hall_id (ymd2ord 2026 7 14))"
proof -
  obtain s' where r: "create_blackout floor_works (july_env steward_id 6 9) held_db = Inr (1000, s')"
    "map bk_status (db_bookings s') = [BS_PENDING_PAYMENT, BS_CANCELLED, BS_PENDING_PAYMENT]"
    "list_active_for_room_day s' hall_id (ymd2ord 2026 7 14) \<noteq> []"
    using floor_works_returns unfolding inr_sat_eq by auto
  from r(3) have "hd (list_active_for_room_day s' hall_id (ymd2ord 2026 7 14)) \<in> set (list_active_for_room_day s' hall_id (ymd2ord 2026 7 14))"
    by (rule hd_in_set)
  then show ?thesis by (rule that [OF r(1,2)])
qed

theorem created_blackout_settled_witness:
  "\<exists>s' bo. create_blackout floor_works (july_env steward_id 6 9) held_db = Inr (1000, s') \<and>
     db_blackouts s' = db_blackouts held_db @ [bo] \<and> {b \<in> set (db_bookings s'). hit_by bo (july_env steward_id 6 9) s' b} = {} \<and>
     map bk_status (db_bookings s') = [BS_PENDING_PAYMENT, BS_CANCELLED, BS_PENDING_PAYMENT]"
proof -
  obtain s' x where r: "create_blackout floor_works (july_env steward_id 6 9) held_db = Inr (1000, s')"
    "map bk_status (db_bookings s') = [BS_PENDING_PAYMENT, BS_CANCELLED, BS_PENDING_PAYMENT]"
    by (rule floor_works_created)
  have "kc_is_active floor_works" by (simp add: floor_works_def)
  from created_blackout_settled [OF held_db_wf r(1) this] obtain bo where
    "db_blackouts s' = db_blackouts held_db @ [bo]" "\<forall>b\<in>set (db_bookings s'). \<not> hit_by bo (july_env steward_id 6 9) s' b"
    by (elim exE conjE)
  then have "db_blackouts s' = db_blackouts held_db @ [bo]" "{b \<in> set (db_bookings s'). hit_by bo (july_env steward_id 6 9) s' b} = {}"
    by auto
  with r show ?thesis by (intro exI conjI)
qed

end
