(* ===== verification/Booking_System.thy ===== *)
theory Booking_System imports Opening_Safety begin

text \<open>
  The booking services as one transition system: the tables and the time of the last transaction, one
  operation per request, each served in a transaction of its own that is rolled back when the handler
  raises. The invariant of the reachable states is that no two Bookings hold a room at overlapping times.
\<close>

section \<open>Operations\<close>

datatype operation =
    Create_Booking crypto string create_booking_command
  | Update_Booking uuid update_booking_command
  | Cancel_Booking uuid cancel_booking_command
  | Update_My_Title uuid update_title_command
  | Cancel_My_Booking uuid cancel_booking_command
  | Create_Series crypto string create_series_command
  | Confirm_Payment uuid
  | Update_My_Series_Title uuid update_title_command
  | Cancel_Series uuid cancel_series_command
  | Cancel_My_Series uuid cancel_series_command
  | Expire_Holds bool
  | Create_Blackout create_blackout_command

definition outcome :: "exn + ('a \<times> db) \<Rightarrow> exn + db" where
  "outcome m = bindE m (\<lambda>(r, s). Inr s)"

fun serve :: "operation \<Rightarrow> env \<Rightarrow> db \<Rightarrow> exn + db" where
  "serve (Create_Booking c secret command) e s = outcome (create_booking c secret command e s)"
| "serve (Update_Booking i command) e s = outcome (update_booking i command e s)"
| "serve (Cancel_Booking i command) e s = outcome (service_cancel_booking i command e s)"
| "serve (Update_My_Title i command) e s = outcome (update_my_booking_title i command e s)"
| "serve (Cancel_My_Booking i command) e s = outcome (cancel_my_booking i command e s)"
| "serve (Create_Series c secret command) e s = outcome (create_series c secret command e s)"
| "serve (Confirm_Payment i) e s = outcome (confirm_payment i e s)"
| "serve (Update_My_Series_Title i command) e s = outcome (update_my_series_title i command e s)"
| "serve (Cancel_Series i command) e s = outcome (cancel_series i command e s)"
| "serve (Cancel_My_Series i command) e s = outcome (cancel_my_series i command e s)"
| "serve (Expire_Holds acquired) e s = Inr (snd (expire_pending_holds acquired e s))"
| "serve (Create_Blackout command) e s = outcome (create_blackout command e s)"

text \<open>
  What a request may assume: the services read their clock after the transaction has begun, the facility's zone has a
  bounded offset, and the times of a series command are times of day, as its schema requires.
\<close>

fun well_typed :: "operation \<Rightarrow> bool" where
  "well_typed (Create_Series c secret command) = valid_times command"
| "well_typed _ = True"

definition request_ok :: "env \<Rightarrow> operation \<Rightarrow> bool" where
  "request_ok e op \<longleftrightarrow> en_sql_now e \<le> en_now_utc e \<and> bounded_zone (set_facility_timezone (en_settings e)) \<and> well_typed op"

text \<open>
  Closing a series erases its hold, so the operations that may close one are taken after the sweep has seen every
  lapsed hold: an occurrence still pending then belongs to a series whose hold is active.
\<close>

definition swept :: "db \<Rightarrow> instant \<Rightarrow> bool" where
  "swept s t \<longleftrightarrow>
     (\<forall>b\<in>set (db_bookings s). \<not> bk_is_deleted b \<longrightarrow> bk_status b = BS_PENDING_PAYMENT \<longrightarrow>
        (\<forall>i\<in>set_option (bk_series_id b). hold_active s i t))"

fun closes_series :: "operation \<Rightarrow> bool" where
  "closes_series (Cancel_Series i command) = True"
| "closes_series (Cancel_My_Series i command) = True"
| "closes_series (Create_Blackout command) = True"
| "closes_series _ = False"

record sys =
  sy_db :: db
  sy_now :: instant

inductive step :: "sys \<Rightarrow> operation \<Rightarrow> sys \<Rightarrow> bool" where
  served: "step st op \<lparr>sy_db = s', sy_now = en_sql_now e\<rparr>"
    if "request_ok e op" and "sy_now st \<le> en_sql_now e" and "serve op e (sy_db st) = Inr s'"
      and "closes_series op \<Longrightarrow> swept (sy_db st) (en_sql_now e)"
| refused: "step st op st"
    if "request_ok e op" and "serve op e (sy_db st) = Inl x"

inductive_cases stepE: "step st op st'"

definition initial :: "sys \<Rightarrow> bool" where
  "initial st \<longleftrightarrow> db_bookings (sy_db st) = [] \<and> db_slots (sy_db st) = [] \<and> db_series (sy_db st) = []"

inductive reachable :: "sys \<Rightarrow> bool" where
  start: "reachable st" if "initial st"
| request: "reachable st'" if "reachable st" and "step st op st'"

section \<open>One lemma per operation\<close>

definition rooms_safe :: "db \<Rightarrow> instant \<Rightarrow> bool" where
  "rooms_safe s t \<longleftrightarrow> wf_db s \<and> wf_series s \<and> exclusive (occupancy s t)"

lemma rooms_safe_later: "rooms_safe s t \<Longrightarrow> t \<le> t' \<Longrightarrow> rooms_safe s t'"
  unfolding rooms_safe_def using exclusive_mono occupancy_decay by blast

text \<open>Rewriting rows in place is safe when nothing is held that was not held before.\<close>

lemma rooms_safe_rewrite:
  assumes "rooms_safe s t" "keeps_rows s s'" "occupancy s' t \<subseteq> occupancy s t"
  shows "rooms_safe s' t"
  using assms keeps_rows_wf keeps_rows_wf_series exclusive_mono unfolding rooms_safe_def by blast

lemma outcome_Inr: "outcome m = Inr s' \<longleftrightarrow> (\<exists>r. m = Inr (r, s'))"
  by (auto simp: outcome_def guard_simps)

lemma occupancy_retitle:
  assumes "\<And>b. bk_id (f b) = bk_id b \<and> bk_status (f b) = bk_status b \<and> bk_is_deleted (f b) = bk_is_deleted b \<and> bk_series_id (f b) = bk_series_id b"
  shows "occupancy (s\<lparr>db_bookings := update_where p f (db_bookings s)\<rparr>) t \<subseteq> occupancy s t"
proof
  let ?s' = "s\<lparr>db_bookings := update_where p f (db_bookings s)\<rparr>" and ?g = "\<lambda>b. if p b then f b else b"
  have act: "active_occupancy_clause ?s' t b = active_occupancy_clause s t b" for b by (rule active_cong_series) simp
  have g: "bk_id (?g b) = bk_id b" "bk_is_deleted (?g b) = bk_is_deleted b"
    "active_occupancy_clause s t (?g b) = active_occupancy_clause s t b" for b
    by (simp_all add: active_occupancy_clause_def joined_hold_def assms)
  fix x assume "x \<in> occupancy ?s' t"
  then obtain sl b' where sl: "sl \<in> set (db_slots s)" "sl_status sl = SS_CONFIRMED"
    and b': "b' \<in> set (update_where p f (db_bookings s))" "bk_id b' = sl_booking_id sl" "\<not> bk_is_deleted b'" "active_occupancy_clause s t b'"
    and x: "x = (bk_id b', sl_facility_id sl, sl_start_at sl, sl_end_at sl)"
    unfolding occupancy_def act by auto
  from b'(1) obtain b where b: "b \<in> set (db_bookings s)" "b' = ?g b" unfolding set_update_where by (rule imageE)
  show "x \<in> occupancy s t"
    unfolding x b'(2) by (rule occupancyI [OF sl(1) b(1) sl(2)]) (use b'(2-4) g b(2) in simp_all)
qed

lemma title_safe:
  assumes "rooms_safe s t" "update_booking_title i title s = Inr s'"
  shows "rooms_safe s' t"
proof (rule rooms_safe_rewrite [OF assms(1) keeps_rows_repository(5) [OF assms(2)]])
  have "s' = s\<lparr>db_bookings := update_where (\<lambda>b. bk_id b = i) (\<lambda>b. b\<lparr>bk_title := title\<rparr>) (db_bookings s)\<rparr>"
    using assms(2) by (auto simp: update_booking_title_def guard_simps)
  then show "occupancy s' t \<subseteq> occupancy s t" using occupancy_retitle [of "\<lambda>b. b\<lparr>bk_title := title\<rparr>"] by simp
qed

lemma cancel_safe: "rooms_safe s t \<Longrightarrow> rooms_safe (cancel_booking now i u r cs s) t"
  by (erule rooms_safe_rewrite [OF _ keeps_rows_repository(2)]) (auto simp: occupancy_cancel)

lemma cancel_bookings_safe: "rooms_safe s t \<Longrightarrow> rooms_safe (cancel_bookings now u r I s) t"
  by (erule rooms_safe_rewrite [OF _ keeps_rows_cancel_bookings]) (auto simp: occupancy_cancel_bookings)

lemma occupancy_series_same_hold:
  assumes "\<And>x. se_id (f x) = se_id x \<and> se_payment_hold_expires_at (f x) = se_payment_hold_expires_at x"
  shows "occupancy (s\<lparr>db_series := update_where p f (db_series s)\<rparr>) t = occupancy s t"
proof -
  let ?s' = "s\<lparr>db_series := update_where p f (db_series s)\<rparr>"
  have "joined_hold ?s' b = joined_hold s b" for b
    unfolding joined_hold_def find_series_def using assms by (auto simp: find_update_where split: option.splits)
  then have "active_occupancy_clause ?s' t b = active_occupancy_clause s t b" for b by (simp add: active_occupancy_clause_def)
  then show ?thesis by (simp add: occupancy_def)
qed

lemma series_title_safe:
  assumes "rooms_safe s t" "update_series_title i title e s = Inr s'"
  shows "rooms_safe s' t"
proof -
  let ?f = "\<lambda>x. x\<lparr>se_title := title, se_updated_by_id := Some (current_id e)\<rparr>"
  have s': "s' = update_series i ?f s" using assms(2) by (auto simp: update_series_title_def guard_simps)
  show ?thesis unfolding s'
  proof (rule rooms_safe_rewrite [OF assms(1) keeps_rows_repository(4)])
    show "occupancy (update_series i ?f s) t \<subseteq> occupancy s t"
      unfolding update_series_def using occupancy_series_same_hold [of ?f] by simp
  qed simp
qed

lemma close_safe:
  assumes "rooms_safe s t" "swept s t"
  shows "rooms_safe (close_series i u s) t \<and> swept (close_series i u s) t"
proof
  have f: "se_id (closed_by u x) = se_id x" for x by (simp add: closed_by_def)
  have cs: "close_series i u s = update_series i (closed_by u) s" by (simp add: close_series_eq update_series_def)
  have "hold_active s i t \<or> (\<forall>b\<in>set (db_bookings s). bk_series_id b = Some i \<longrightarrow> bk_is_deleted b \<or> bk_status b \<noteq> BS_PENDING_PAYMENT)"
    using assms(2) unfolding swept_def by fastforce
  from occupancy_update_series [OF f this] have "occupancy (update_series i (closed_by u) s) t \<subseteq> occupancy s t" .
  from rooms_safe_rewrite [OF assms(1) keeps_rows_repository(4) this] show "rooms_safe (close_series i u s) t"
    unfolding cs by (simp add: f)
  have "hold_active (update_series i (closed_by u) s) j t" if "hold_active s j t" for j
    using that unfolding hold_active_def find_series_update [OF f]
    by (auto simp: closed_by_def is_pending_payment_hold_active_def split: option.splits)
  then show "swept (close_series i u s) t" using assms(2) unfolding cs swept_def by (simp add: update_series_def)
qed

lemma swept_cancel: "swept s t \<Longrightarrow> swept (cancel_bookings now u r I s) t"
  unfolding swept_def by (auto simp: set_update_where hold_active_def find_series_def split: if_splits)

lemma apply_cancellation_safe:
  assumes "rooms_safe s t" "swept s t" "sr_occurrences series = list_series_occurrences s (sr_id series)"
    and "apply_cancellation series command e s = Inr (r, s')"
  shows "rooms_safe s' t"
proof -
  have d: "distinct (map bk_id (db_bookings s))" using assms(1) by (simp add: rooms_safe_def wf_db_def)
  show ?thesis
    by (rule apply_cancellation_effect [OF d assms(3,4)])
       (simp add: Let_def cancel_bookings_safe [OF assms(1)] close_safe [OF cancel_bookings_safe [OF assms(1)] swept_cancel [OF assms(2)]])
qed

lemma confirm_safe:
  assumes "rooms_safe s t" "confirm_payment i e s = Inr (r, s')" "t \<le> en_now_utc e"
  shows "rooms_safe s' t"
proof -
  from assms(2) obtain x0 u where x0: "series_get_by_id s i (en_locale_id e) = Some x0" and
    c: "s' = s \<or> is_pending_payment_hold_active (sr_payment_hold_expires_at x0) (en_now_utc e) \<and> s' = paid i u s"
    unfolding confirm_payment_Inr by (auto split: if_splits)
  obtain x where x: "live_series s i = Some x" "sr_payment_hold_expires_at x0 = se_payment_hold_expires_at x"
    by (rule series_get_by_id_Some [OF x0])
  from c show ?thesis
  proof
    assume p: "is_pending_payment_hold_active (sr_payment_hold_expires_at x0) (en_now_utc e) \<and> s' = paid i u s"
    then have "hold_active s i t"
      using live_hold_active [OF _ x(1)] assms(1,3) x(2) by (auto simp: rooms_safe_def is_pending_payment_hold_active_def split: option.splits)
    with p show ?thesis using rooms_safe_rewrite [OF assms(1) keeps_rows_paid] paid_adds_nothing by auto
  qed (use assms(1) in simp)
qed

lemma expire_safe:
  assumes "rooms_safe s t"
  shows "rooms_safe (snd (expire_pending_holds acquired e s)) t"
proof (cases acquired)
  case True
  let ?r0 = "\<lparr>sw_skipped = False, sw_expired_series_ids = [], sw_notifications = []\<rparr>" and ?I = "lapsed_ids (en_now_utc e) s"
  have d: "distinct (map bk_id (db_bookings s))" using assms by (simp add: rooms_safe_def wf_db_def)
  have s': "snd (expire_pending_holds acquired e s) = expire_all e ?I s"
    using sweep_loop [OF d, of e ?r0 "list_expired_pending_series s (en_now_utc e)"] True
    by (simp add: expire_pending_holds_def expired_pending_ids)
  have "occupancy (expire_all e ?I s) t \<subseteq> occupancy s t"
    unfolding expire_all_def occupancy_cancel_bookings
    using occupancy_series_same_hold [of "expired_by e", where s = s] by (auto simp: expired_by_def)
  then show ?thesis unfolding s' by (rule rooms_safe_rewrite [OF assms keeps_rows_expire_all])
qed (simp add: expire_pending_holds_def assms)

lemma blackout_safe:
  assumes "rooms_safe s t" "swept s t" "create_blackout c e s = Inr (i, s')"
  shows "rooms_safe s' t"
proof -
  obtain k m s2 where s2: "s2 = s\<lparr>db_next_uuid := db_next_uuid s + 1, db_blackouts := db_blackouts s @ [blackout_row i c k m]\<rparr>"
    and s': "s' = s2 \<or> (\<exists>items r. apply_blackout_impact items (str_strip (kc_reason c)) e s2 = Inr (r, s'))"
    by (rule create_blackout_Inr [OF assms(3)]) (metis (full_types))
  have same: "occupancy s2 t = occupancy s t"
  proof -
    have "active_occupancy_clause s2 t b = active_occupancy_clause s t b" for b by (rule active_cong_series) (simp add: s2)
    then show ?thesis by (simp add: occupancy_def s2)
  qed
  have safe2: "rooms_safe s2 t"
    by (rule rooms_safe_rewrite [OF assms(1)]) (simp_all add: same, simp add: keeps_rows_def s2)
  have swept2: "swept s2 t" using assms(2) by (simp add: swept_def s2 hold_active_def find_series_def)
  from s' show ?thesis
  proof (elim disjE exE)
    fix items r
    assume "apply_blackout_impact items (str_strip (kc_reason c)) e s2 = Inr (r, s')"
    then obtain u ids where
      fold: "foldE (settle_series e u) (cancel_bookings (en_repo_now e) (Some u) (Some (str_strip (kc_reason c))) (bi_id ` set items) s2) ids = Inr s'"
      by (auto simp: apply_blackout_impact_def guard_simps Let_def cancel_loop split: option.splits)
    have "rooms_safe s' t \<and> swept s' t"
    proof (rule foldE_invariant [OF fold])
      show "rooms_safe (cancel_bookings (en_repo_now e) (Some u) (Some (str_strip (kc_reason c))) (bi_id ` set items) s2) t \<and>
        swept (cancel_bookings (en_repo_now e) (Some u) (Some (str_strip (kc_reason c))) (bi_id ` set items) s2) t"
        using cancel_bookings_safe [OF safe2] swept_cancel [OF swept2] by blast
      show "rooms_safe s4 t \<and> swept s4 t" if "rooms_safe s3 t \<and> swept s3 t" "settle_series e u s3 j = Inr s4" for s3 j s4
        using that settle_series_Inr [OF that(2)] close_safe by blast
    qed
    then show "rooms_safe s' t" by simp
  qed (simp add: safe2)
qed

text \<open>New rows take fresh ids.\<close>

lemma create_booking_series:
  assumes "create_booking c secret command e s = Inr (i, s')"
  shows "map se_id (db_series s') = map se_id (db_series s)"
proof -
  from assms obtain operator booker draft title q s1 where
    q: "preview_quote e s (proposal_quote_command command booker) = Inr q" and
    ins: "insert_with_rows (new_booking e command booker title (proposal_lines command) q i) (proposal_lines command) q
       (s\<lparr>db_next_uuid := db_next_uuid s + 1\<rparr>) = Inr s1" and
    s': "s' = delete_own_draft command draft booker
       (displace_targets (proposal_evaluation e s command booker) (proposal_context s command booker) i operator e s1)"
    by (rule create_booking_Inr)
  have len: "length (qt_room_lines q) = length (proposal_lines command)"
    using preview_quote_lines [OF q] by (simp add: proposal_quote_command_def)
  have "db_series s1 = db_series s" using insert_with_rows_place [OF ins len] by (auto simp: place_def)
  moreover have "keeps_rows s1 s'" unfolding s' by (rule keeps_rows_trans [OF keeps_rows_displace keeps_rows_draft])
  ultimately show ?thesis by (simp add: keeps_rows_def)
qed

lemma create_series_ids:
  assumes "wf_db s" "create_series c secret command e s = Inr (r, s')"
  shows "map se_id (db_series s') = map se_id (db_series s) @ [db_next_uuid s]"
proof -
  from assms(2) obtain p rem ovr quotes hold s1 occs s2 st where
    q: "quotes_of e s command (ps_booker_id p) rem = Inr quotes" and
    s1: "insert_series (new_series e command p quotes hold (db_next_uuid s)) (s\<lparr>db_next_uuid := db_next_uuid s + 1\<rparr>) = Inr s1" and
    f: "foldE (insert_occurrence e command (ps_booker_id p) (db_next_uuid s) st) ([], s1) (zip rem quotes) = Inr (occs, s2)" and
    s': "s' = displace_series_targets command p rem occs (override_targets s ovr (ps_local_tz p)) (db_next_uuid s) e s2"
    by (rule create_series_Inr)
  have id: "se_id (new_series e command p quotes hold (db_next_uuid s)) = db_next_uuid s" by (simp add: new_series_def Let_def)
  have "wf_db s1" "db_next_uuid s < db_next_uuid s1" using insert_series_fresh [OF assms(1) id s1] by auto
  with insert_occurrences [OF _ _ quotes_of_Inr(2) [OF q] f, of "en_sql_now e"] have "db_series s2 = db_series s1"
    by (auto simp: occurrences_written_def)
  moreover have "map se_id (db_series s1) = map se_id (db_series s) @ [db_next_uuid s]"
    using s1 by (auto simp: insert_series_def guard_simps id)
  moreover have "keeps_rows s2 s'" unfolding s' by (rule keeps_rows_displace_series)
  ultimately show ?thesis by (simp add: keeps_rows_def)
qed

lemma create_booking_safe:
  assumes "rooms_safe s (en_sql_now e)" "create_booking c secret command e s = Inr (i, s')"
  shows "rooms_safe s' (en_sql_now e)"
  using assms create_booking_exclusive [of s e c secret command i s'] create_booking_series [OF assms(2)]
  by (simp add: rooms_safe_def wf_series_def)

lemma create_series_safe:
  assumes "rooms_safe s (en_sql_now e)" "valid_times command" "bounded_zone (set_facility_timezone (en_settings e))"
    and "create_series c secret command e s = Inr (r, s')"
  shows "rooms_safe s' (en_sql_now e)"
proof -
  have wf: "wf_db s" "wf_series s" "exclusive (occupancy s (en_sql_now e))" using assms(1) by (simp_all add: rooms_safe_def)
  have "db_next_uuid s \<notin> set (map se_id (db_series s))" using wf(1) by (auto simp: wf_db_def ids_below_def)
  then have "wf_series s'" using wf(2) unfolding wf_series_def create_series_ids [OF wf(1) assms(4)] by simp
  with create_series_exclusive [OF wf(1,3) assms(2-4)] show ?thesis by (simp add: rooms_safe_def)
qed

section \<open>Every request keeps the rooms safe\<close>

lemma occurrences_read: "series_with_occurrences e s i = Inr series \<Longrightarrow> sr_occurrences series = list_series_occurrences s (sr_id series)"
  by (auto simp: series_with_occurrences_Inr elim: series_get_by_id_Some)

lemma serve_safe:
  assumes "rooms_safe s (en_sql_now e)" "request_ok e op" "serve op e s = Inr s'"
    and "closes_series op \<Longrightarrow> swept s (en_sql_now e)"
  shows "rooms_safe s' (en_sql_now e)"
proof (cases op)
  case (Create_Booking c secret command)
  with assms(1,3) show ?thesis by (auto simp: outcome_Inr intro: create_booking_safe)
next
  case (Update_Booking i command)
  then obtain r s1 where "update_booking_title i (ub_title command) s = Inr s1" "get_booking_by_id i e s1 = Inr (r, s')"
    using assms(3) by (auto simp: outcome_Inr update_booking_def guard_simps split: option.splits)
  then show ?thesis using title_safe [OF assms(1)] by (auto simp: get_booking_by_id_def split: option.splits)
next
  case (Cancel_Booking i command)
  then show ?thesis using assms(3) cancel_safe [OF assms(1)] by (auto simp: outcome_Inr service_cancel_booking_def guard_simps Let_def)
next
  case (Update_My_Title i command)
  then obtain r s1 where "update_booking_title i (ut_title command) s = Inr s1" "get_my_booking_by_id i None e s1 = Inr (r, s')"
    using assms(3) by (auto simp: outcome_Inr update_my_booking_title_def guard_simps split: option.splits)
  then show ?thesis using title_safe [OF assms(1)] by (auto simp: get_my_booking_by_id_def guard_simps Let_def split: option.splits)
next
  case (Cancel_My_Booking i command)
  then show ?thesis using assms(3) cancel_safe [OF assms(1)]
    by (auto simp: outcome_Inr cancel_my_booking_def service_cancel_booking_def guard_simps Let_def split: option.splits)
next
  case (Create_Series c secret command)
  with assms(1-3) show ?thesis by (auto simp: outcome_Inr request_ok_def intro: create_series_safe)
next
  case (Confirm_Payment i)
  with assms(1-3) show ?thesis by (auto simp: outcome_Inr request_ok_def intro: confirm_safe)
next
  case (Update_My_Series_Title i command)
  then show ?thesis using assms(3) series_title_safe [OF assms(1)]
    by (auto simp: outcome_Inr update_my_series_title_def guard_simps)
next
  case (Cancel_Series i command)
  then have sw: "swept s (en_sql_now e)" using assms(4) by simp
  from Cancel_Series assms(3) obtain series r where x: "series_with_occurrences e s i = Inr series"
    and a: "apply_cancellation series command e s = Inr (r, s')"
    by (auto simp: outcome_Inr cancel_series_def guard_simps split: option.splits)
  show ?thesis by (rule apply_cancellation_safe [OF assms(1) sw occurrences_read [OF x] a])
next
  case (Cancel_My_Series i command)
  then have sw: "swept s (en_sql_now e)" using assms(4) by simp
  from Cancel_My_Series assms(3) obtain series reason r where x: "series_with_occurrences e s i = Inr series"
    and a: "apply_cancellation series (command\<lparr>xs_cancel_reason := Some reason\<rparr>) e s = Inr (r, s')"
    by (auto simp: outcome_Inr cancel_my_series_def get_my_series_def get_series_def guard_simps split: option.splits)
  show ?thesis by (rule apply_cancellation_safe [OF assms(1) sw occurrences_read [OF x] a])
next
  case (Expire_Holds acquired)
  then show ?thesis using assms(3) expire_safe [OF assms(1)] by auto
next
  case (Create_Blackout command)
  then show ?thesis using assms blackout_safe by (auto simp: outcome_Inr)
qed

lemma initial_safe: "initial st \<Longrightarrow> rooms_safe (sy_db st) t"
  by (simp add: initial_def rooms_safe_def wf_db_def wf_series_def bookers_exist_def ids_below_def exclusive_def occupancy_def)

lemma step_safe: "step st op st' \<Longrightarrow> rooms_safe (sy_db st) (sy_now st) \<Longrightarrow> rooms_safe (sy_db st') (sy_now st')"
  by (erule stepE) (auto intro: serve_safe rooms_safe_later)

lemma reachable_safe: "reachable st \<Longrightarrow> rooms_safe (sy_db st) (sy_now st)"
  by (induction rule: reachable.induct) (auto intro: initial_safe step_safe)


text \<open>A member books the hall, is refused the same hours again, and then books the chapel for them.\<close>

definition first_of_may :: env where "first_of_may = sample_env member_id (moment 2026 5 1 0 0)"

definition chapel_create :: create_booking_command where
  "chapel_create = sample_create\<lparr>cb_rooms := [\<lparr>rc_facility_id = chapel_id, rc_start_at = None, rc_end_at = None, rc_sequence = 0\<rparr>]\<rparr>"

lemma two_bookings_run:
  "inr_sat (serve (Create_Booking short_crypto ''secret'' sample_create) first_of_may sample_db) (\<lambda>s1.
     \<not> isr (serve (Create_Booking short_crypto ''secret'' sample_create) first_of_may s1) \<and>
     inr_sat (serve (Create_Booking short_crypto ''secret'' chapel_create) first_of_may s1) (\<lambda>s2.
       map sl_facility_id (db_slots s2) = [hall_id, chapel_id]))"
  by code_simp


end
