(* ===== verification/Timetable.thy ===== *)
theory Timetable imports Room_Hours "HOL-Library.Product_Lexorder" begin

text \<open>
  The projection of a room's day onto half-hour cells (\<open>timetable_projection.py\<close>). An open interval is a
  half-open pair of instants. The lemmas relate the cells, the free slots and the events to the moments of the
  day: a moment is open when a window covers it and held when an occupancy does.
\<close>

type_synonym open_interval = "instant \<times> instant"

record occupancy_interval =
  oi_booking_id :: uuid
  oi_start_at :: instant
  oi_end_at :: instant
  oi_booking_start_at :: instant
  oi_ministry_id :: "uuid option"
  oi_ministry_name :: "string option"
  oi_contact_display_name :: "string option"
  oi_contact_email :: "string option"

record projected_event =
  pe_start_at :: instant
  pe_end_at :: instant
  pe_occupancy_kind :: occupancy_kind
  pe_is_overridable :: bool
  pe_ministry_name :: "string option"
  pe_contact_display_name :: "string option"
  pe_contact_email :: "string option"
  pe_booking_id :: uuid

section \<open>Cells\<close>

definition day_start :: "date \<Rightarrow> zone \<Rightarrow> instant" where "day_start day tz = from_local tz (combine day 0)"

definition day_cell_bounds :: "date \<Rightarrow> zone \<Rightarrow> open_interval list" where
  "day_cell_bounds day tz =
     map (\<lambda>index. let start_at = day_start day tz + TIMETABLE_CELL_MINUTES * index * MINUTE_US
                  in (start_at, start_at + TIMETABLE_CELL_MINUTES * MINUTE_US))
       [0..TIMETABLE_CELLS_PER_DAY - 1]"

definition intervals_overlap :: "instant \<Rightarrow> instant \<Rightarrow> instant \<Rightarrow> instant \<Rightarrow> bool" where
  "intervals_overlap start_a end_a start_b end_b \<longleftrightarrow> start_a < end_b \<and> end_a > start_b"

definition clip_interval :: "instant \<Rightarrow> instant \<Rightarrow> open_interval list \<Rightarrow> open_interval list" where
  "clip_interval start_at end_at windows =
     filter (\<lambda>(seg_start, seg_end). seg_start < seg_end)
       (map (\<lambda>(window_start, window_end). (max start_at window_start, min end_at window_end)) windows)"

definition open_portion_in_cell :: "instant \<Rightarrow> instant \<Rightarrow> open_interval list \<Rightarrow> open_interval list" where
  "open_portion_in_cell cell_start cell_end open_windows = clip_interval cell_start cell_end open_windows"

definition may_override :: "bool \<Rightarrow> instant \<Rightarrow> occupancy_interval \<Rightarrow> bool" where
  "may_override is_priority now_utc item \<longleftrightarrow>
     oi_ministry_id item = None \<and> is_priority \<and> oi_booking_start_at item > now_utc"

definition classify_cell ::
  "open_interval \<Rightarrow> open_interval list \<Rightarrow> occupancy_interval list \<Rightarrow> bool \<Rightarrow> instant \<Rightarrow> cell_state" where
  "classify_cell cell open_windows occupancies is_priority now_utc =
     (let open_parts = open_portion_in_cell (fst cell) (snd cell) open_windows
      in if open_parts = [] then CELL_CLOSED
         else (let overlapping = filter (\<lambda>item. list_ex (\<lambda>(part_start, part_end).
                       intervals_overlap part_start part_end (oi_start_at item) (oi_end_at item)) open_parts) occupancies
               in if overlapping = [] then CELL_AVAILABLE
                  else (let overridable = filter (may_override is_priority now_utc) overlapping
                        in if overridable \<noteq> [] \<and> length overridable = length overlapping then CELL_OVERRIDE
                           else CELL_UNAVAILABLE)))"

definition room_has_offered_time :: "open_interval list \<Rightarrow> bool" where
  "room_has_offered_time open_windows = list_ex (\<lambda>(start_at, end_at). start_at < end_at) open_windows"

definition room_has_usable_free_interval :: "cell_state list \<Rightarrow> bool" where
  "room_has_usable_free_interval cell_states = list_ex (\<lambda>state. state = CELL_AVAILABLE) cell_states"

definition should_include_room :: "bool \<Rightarrow> open_interval list \<Rightarrow> cell_state list \<Rightarrow> bool" where
  "should_include_room is_ministry_context open_windows cell_states =
     (if \<not> room_has_offered_time open_windows then False
      else if is_ministry_context then True
      else room_has_usable_free_interval cell_states)"

text \<open>The loop over the cells; the run it is in is the first argument.\<close>

fun merge_free_from :: "open_interval option \<Rightarrow> (open_interval \<times> cell_state) list \<Rightarrow> open_interval list" where
  "merge_free_from current [] = (case current of None \<Rightarrow> [] | Some c \<Rightarrow> [c])"
| "merge_free_from current (((start_at, end_at), state) # cells) =
     (if state \<noteq> CELL_AVAILABLE then (case current of None \<Rightarrow> [] | Some c \<Rightarrow> [c]) @ merge_free_from None cells
      else merge_free_from (Some (case current of None \<Rightarrow> (start_at, end_at) | Some (s, e) \<Rightarrow> (s, end_at))) cells)"

definition merge_contiguous_free_slots :: "open_interval list \<Rightarrow> cell_state list \<Rightarrow> open_interval list" where
  "merge_contiguous_free_slots cell_bounds cell_states = merge_free_from None (zip cell_bounds cell_states)"

section \<open>Events\<close>

definition event_of :: "bool \<Rightarrow> instant \<Rightarrow> occupancy_interval \<Rightarrow> open_interval \<Rightarrow> projected_event" where
  "event_of is_priority now_utc item seg =
     (let is_ministry = (oi_ministry_id item \<noteq> None)
      in \<lparr>pe_start_at = fst seg, pe_end_at = snd seg,
          pe_occupancy_kind = (if is_ministry then OK_MINISTRY else OK_RENTAL),
          pe_is_overridable = may_override is_priority now_utc item,
          pe_ministry_name = (if is_ministry then oi_ministry_name item else None),
          pe_contact_display_name = oi_contact_display_name item, pe_contact_email = oi_contact_email item,
          pe_booking_id = oi_booking_id item\<rparr>)"

definition project_ministry_events ::
  "occupancy_interval list \<Rightarrow> open_interval list \<Rightarrow> bool \<Rightarrow> instant \<Rightarrow> projected_event list" where
  "project_ministry_events occupancies open_windows is_priority now_utc =
     sort_key (\<lambda>event. (pe_start_at event, pe_end_at event, pe_booking_id event))
       (concat (map (\<lambda>item. map (event_of is_priority now_utc item)
                  (clip_interval (oi_start_at item) (oi_end_at item) open_windows)) occupancies))"

definition two_digits :: "int \<Rightarrow> string" where
  "two_digits n = [char_of (48 + nat n div 10), char_of (48 + nat n mod 10)]"

definition format_local_hm :: "instant \<Rightarrow> zone \<Rightarrow> string" where
  "format_local_hm dt tz =
     (let t = wall_time (to_local tz dt) in two_digits (t div HOUR_US) @ '':'' @ two_digits (t mod HOUR_US div MINUTE_US))"

section \<open>The cells cover the day\<close>

lemma length_day_cells [simp]: "length (day_cell_bounds day tz) = 48"
  by (simp add: day_cell_bounds_def TIMETABLE_CELLS_PER_DAY_def)

lemma day_cell_nth:
  assumes "i < 48"
  shows "day_cell_bounds day tz ! i =
    (day_start day tz + 30 * MINUTE_US * int i, day_start day tz + 30 * MINUTE_US * (int i + 1))"
  using assms by (simp add: day_cell_bounds_def TIMETABLE_CELLS_PER_DAY_def TIMETABLE_CELL_MINUTES_def nth_upto Let_def algebra_simps)

definition in_cell :: "open_interval \<Rightarrow> instant \<Rightarrow> bool" where
  "in_cell c x \<longleftrightarrow> fst c \<le> x \<and> x < snd c"

lemma covered_in_cell: "covered ws x \<longleftrightarrow> (\<exists>w\<in>set ws. in_cell w x)"
  unfolding covered_def in_cell_def by (rule bex_cong) (simp_all add: split_beta)

lemma clip_covered: "covered (clip_interval a b ws) x \<longleftrightarrow> a \<le> x \<and> x < b \<and> covered ws x"
proof -
  have "covered (clip_interval a b ws) x \<longleftrightarrow> (\<exists>(p, q)\<in>set ws. max a p \<le> x \<and> x < min b q)"
    unfolding covered_def clip_interval_def by force
  then show ?thesis by (auto simp: covered_def)
qed

lemma clip_nonempty: "p \<in> set (clip_interval a b ws) \<Longrightarrow> fst p < snd p"
  by (auto simp: clip_interval_def)

lemma clip_empty_iff: "clip_interval a b ws = [] \<longleftrightarrow> (\<nexists>x. a \<le> x \<and> x < b \<and> covered ws x)"
proof
  assume "clip_interval a b ws = []"
  then show "\<nexists>x. a \<le> x \<and> x < b \<and> covered ws x" using clip_covered [of a b ws] by (auto simp: covered_def)
next
  assume none: "\<nexists>x. a \<le> x \<and> x < b \<and> covered ws x"
  show "clip_interval a b ws = []"
  proof (rule ccontr)
    assume "clip_interval a b ws \<noteq> []"
    then obtain p where p: "p \<in> set (clip_interval a b ws)" by (cases "clip_interval a b ws") auto
    with clip_nonempty [OF p] have "covered (clip_interval a b ws) (fst p)" by (force simp: covered_def)
    then show False using none unfolding clip_covered by blast
  qed
qed

lemma clip_overlaps_iff:
  assumes "s < e"
  shows "list_ex (\<lambda>(p, q). intervals_overlap p q s e) (clip_interval a b ws) \<longleftrightarrow>
    (\<exists>x. a \<le> x \<and> x < b \<and> covered ws x \<and> s \<le> x \<and> x < e)"
proof
  assume "list_ex (\<lambda>(p, q). intervals_overlap p q s e) (clip_interval a b ws)"
  then obtain p q where pq: "(p, q) \<in> set (clip_interval a b ws)" "p < e" "q > s"
    by (auto simp: list_ex_iff intervals_overlap_def)
  from clip_nonempty [OF pq(1)] have "covered (clip_interval a b ws) (max p s)"
    using pq by (auto simp: covered_def intro!: bexI [of _ "(p, q)"])
  then show "\<exists>x. a \<le> x \<and> x < b \<and> covered ws x \<and> s \<le> x \<and> x < e"
    using pq(2) assms by (intro exI [of _ "max p s"]) (simp add: clip_covered)
next
  assume "\<exists>x. a \<le> x \<and> x < b \<and> covered ws x \<and> s \<le> x \<and> x < e"
  then obtain x where "covered (clip_interval a b ws) x" "s \<le> x" "x < e" by (auto simp: clip_covered)
  then show "list_ex (\<lambda>(p, q). intervals_overlap p q s e) (clip_interval a b ws)"
    unfolding covered_def list_ex_iff intervals_overlap_def by (elim bexE) (rule bexI, auto)
qed

section \<open>What a cell says\<close>

definition held_at :: "occupancy_interval \<Rightarrow> instant \<Rightarrow> bool" where
  "held_at item x \<longleftrightarrow> oi_start_at item \<le> x \<and> x < oi_end_at item"

definition met :: "open_interval \<Rightarrow> open_interval list \<Rightarrow> occupancy_interval \<Rightarrow> bool" where
  "met c ws item \<longleftrightarrow> (\<exists>x. in_cell c x \<and> covered ws x \<and> held_at item x)"

lemma classify_cell_cases:
  assumes "\<forall>item\<in>set os. oi_start_at item < oi_end_at item"
  shows "classify_cell c ws os pri now =
    (if \<not> (\<exists>x. in_cell c x \<and> covered ws x) then CELL_CLOSED
     else if \<forall>item\<in>set os. \<not> met c ws item then CELL_AVAILABLE
     else if \<forall>item\<in>set os. met c ws item \<longrightarrow> may_override pri now item then CELL_OVERRIDE else CELL_UNAVAILABLE)"
proof -
  let ?parts = "open_portion_in_cell (fst c) (snd c) ws"
  let ?hit = "\<lambda>item. list_ex (\<lambda>(p, q). intervals_overlap p q (oi_start_at item) (oi_end_at item)) ?parts"
  have parts: "?parts = [] \<longleftrightarrow> \<not> (\<exists>x. in_cell c x \<and> covered ws x)"
    by (simp add: open_portion_in_cell_def clip_empty_iff in_cell_def)
  have hit: "?hit item \<longleftrightarrow> met c ws item" if "item \<in> set os" for item
    unfolding open_portion_in_cell_def met_def
    by (subst clip_overlaps_iff) (use assms(1) that in \<open>auto simp: in_cell_def held_at_def\<close>)
  have over: "filter ?hit os = filter (met c ws) os" by (rule filter_cong) (simp_all add: hit)
  have all: "length (filter P xs) = length xs \<longleftrightarrow> (\<forall>x\<in>set xs. P x)" for P and xs :: "occupancy_interval list"
    by (metis filter_id_conv length_filter_less nat_neq_iff)
  have none: "filter (met c ws) os = [] \<longleftrightarrow> (\<forall>item\<in>set os. \<not> met c ws item)" by (simp add: filter_empty_conv)
  have pri: "length (filter (may_override pri now) (filter (met c ws) os)) = length (filter (met c ws) os) \<longleftrightarrow>
      (\<forall>item\<in>set os. met c ws item \<longrightarrow> may_override pri now item)"
    unfolding all by auto
  show ?thesis
    unfolding classify_cell_def Let_def parts over none pri
    by (auto simp: filter_empty_conv)
qed

text \<open>
  A cell says what its moments say: it is closed when no moment of it is open, available when some moment is open and
  no open moment is held, and offered for override when an open moment is held and every holder met there may be
  displaced; otherwise it is unavailable.
\<close>

lemma classify_cell_pointwise:
  assumes "\<forall>item\<in>set os. oi_start_at item < oi_end_at item"
  shows "(classify_cell c ws os pri now = CELL_CLOSED \<longleftrightarrow> (\<forall>x. in_cell c x \<longrightarrow> \<not> covered ws x)) \<and>
    (classify_cell c ws os pri now = CELL_AVAILABLE \<longleftrightarrow>
       (\<exists>x. in_cell c x \<and> covered ws x) \<and>
       (\<forall>x. in_cell c x \<and> covered ws x \<longrightarrow> (\<forall>item\<in>set os. \<not> held_at item x))) \<and>
    (classify_cell c ws os pri now = CELL_OVERRIDE \<longleftrightarrow>
       (\<exists>x item. in_cell c x \<and> covered ws x \<and> item \<in> set os \<and> held_at item x) \<and>
       (\<forall>x. \<forall>item\<in>set os. in_cell c x \<and> covered ws x \<and> held_at item x \<longrightarrow>
          oi_ministry_id item = None \<and> pri \<and> now < oi_booking_start_at item))"
  unfolding classify_cell_cases [OF assms] may_override_def met_def by (simp split: if_split) blast

section \<open>Free slots are the runs of available cells\<close>

fun chained :: "open_interval list \<Rightarrow> bool" where
  "chained [] = True"
| "chained [c] = (fst c < snd c)"
| "chained (c # d # cs) = (fst c < snd c \<and> snd c = fst d \<and> chained (d # cs))"

lemma chained_tl: "chained (c # cs) \<Longrightarrow> fst c < snd c \<and> chained cs"
  by (cases cs) auto

lemma chained_nth:
  "(\<And>i. i < length cs \<Longrightarrow> fst (cs ! i) < snd (cs ! i)) \<Longrightarrow>
   (\<And>i. Suc i < length cs \<Longrightarrow> snd (cs ! i) = fst (cs ! Suc i)) \<Longrightarrow> chained cs"
proof (induction cs rule: chained.induct)
  case (3 c d cs)
  have "chained (d # cs)"
  proof (rule "3.IH")
    show "fst ((d # cs) ! i) < snd ((d # cs) ! i)" if "i < length (d # cs)" for i using "3.prems"(1) [of "Suc i"] that by simp
    show "snd ((d # cs) ! i) = fst ((d # cs) ! Suc i)" if "Suc i < length (d # cs)" for i using "3.prems"(2) [of "Suc i"] that by simp
  qed
  with "3.prems"(1) [of 0] "3.prems"(2) [of 0] show ?case by simp
qed (use order.refl in force)+

lemma chained_day: "chained (day_cell_bounds day tz)"
  by (rule chained_nth) (simp_all add: day_cell_nth MINUTE_US_def algebra_simps)

text \<open>The run the loop is in ends where the next cell starts.\<close>

definition runs_into :: "open_interval option \<Rightarrow> open_interval list \<Rightarrow> bool" where
  "runs_into current cs \<longleftrightarrow> (\<forall>c\<in>set_option current. fst c < snd c \<and> (cs \<noteq> [] \<longrightarrow> snd c = fst (hd cs)))"

lemma runs_into_step:
  assumes "runs_into current ((a, b) # cs)" "chained ((a, b) # cs)"
  shows "runs_into (Some (case current of None \<Rightarrow> (a, b) | Some (s, e) \<Rightarrow> (s, b))) cs"
  using assms by (cases cs) (auto simp: runs_into_def split: option.splits)

lemma merge_free_covered:
  assumes "chained (map fst cells)" "runs_into current (map fst cells)"
  shows "covered (merge_free_from current cells) x \<longleftrightarrow>
    (\<exists>c\<in>set_option current. in_cell c x) \<or> (\<exists>c. (c, CELL_AVAILABLE) \<in> set cells \<and> in_cell c x)"
  using assms
proof (induction current cells rule: merge_free_from.induct)
  case (1 current)
  then show ?case by (cases current) (auto simp: in_cell_def)
next
  case (2 current a b state cells)
  have ch: "chained (map fst cells)" "a < b" using chained_tl [of "(a, b)" "map fst cells"] "2.prems"(1) by auto
  show ?case
  proof (cases "state = CELL_AVAILABLE")
    case True
    let ?c = "case current of None \<Rightarrow> (a, b) | Some (s, e) \<Rightarrow> (s, b)"
    have "runs_into (Some ?c) (map fst cells)" using runs_into_step "2.prems" by simp
    from "2.IH"(2) [OF _ ch(1) this] True
    have "covered (merge_free_from current (((a, b), state) # cells)) x \<longleftrightarrow>
        in_cell ?c x \<or> (\<exists>c. (c, CELL_AVAILABLE) \<in> set cells \<and> in_cell c x)" by simp
    moreover have "in_cell ?c x \<longleftrightarrow> (\<exists>c\<in>set_option current. in_cell c x) \<or> in_cell (a, b) x"
      using "2.prems"(2) ch(2) by (auto simp: runs_into_def in_cell_def split: option.splits)
    ultimately show ?thesis using True by auto
  next
    case False
    have "runs_into None (map fst cells)" by (simp add: runs_into_def)
    from "2.IH"(1) [OF False ch(1) this] False show ?thesis
      by (cases current) (auto simp: covered_def in_cell_def)
  qed
qed

definition separated :: "open_interval list \<Rightarrow> bool" where
  "separated ws \<longleftrightarrow> sorted_wrt (\<lambda>u v. snd u < fst v) ws"

lemma merge_free_bounds:
  assumes "chained (map fst cells)" "runs_into current (map fst cells)" "v \<in> set (merge_free_from current cells)"
  shows "(case current of Some c \<Rightarrow> fst c \<le> fst v | None \<Rightarrow> cells \<noteq> [] \<and> fst (hd (map fst cells)) \<le> fst v)"
  using assms
proof (induction current cells rule: merge_free_from.induct)
  case (1 current)
  then show ?case by (cases current) auto
next
  case (2 current a b state cells)
  have ch: "chained (map fst cells)" "a < b" using chained_tl [of "(a, b)" "map fst cells"] "2.prems"(1) by auto
  have hd: "b = fst (fst (hd cells))" if "cells \<noteq> []" using "2.prems"(1) that by (cases cells) auto
  show ?case
  proof (cases "state = CELL_AVAILABLE")
    case True
    have "runs_into (Some (case current of None \<Rightarrow> (a, b) | Some (s, e) \<Rightarrow> (s, b))) (map fst cells)"
      using runs_into_step "2.prems" by simp
    from "2.IH"(2) [OF _ ch(1) this] True "2.prems"(3) show ?thesis by (auto split: option.splits)
  next
    case False
    from "2.prems"(3) False consider "v \<in> set_option current" | "v \<in> set (merge_free_from None cells)"
      by (auto split: option.splits)
    then show ?thesis
    proof cases
      case 2
      from "2.IH"(1) [OF False ch(1) _ this] have "cells \<noteq> []" "b \<le> fst v" using hd by (auto simp: runs_into_def hd_map)
      with ch(2) "2.prems"(2) show ?thesis by (auto simp: runs_into_def split: option.splits)
    qed auto
  qed
qed

lemma merge_free_separated:
  assumes "chained (map fst cells)" "runs_into current (map fst cells)"
  shows "separated (merge_free_from current cells)"
  using assms
proof (induction current cells rule: merge_free_from.induct)
  case (1 current)
  then show ?case by (cases current) (auto simp: separated_def)
next
  case (2 current a b state cells)
  have ch: "chained (map fst cells)" "a < b" using chained_tl [of "(a, b)" "map fst cells"] "2.prems"(1) by auto
  show ?case
  proof (cases "state = CELL_AVAILABLE")
    case True
    have "runs_into (Some (case current of None \<Rightarrow> (a, b) | Some (s, e) \<Rightarrow> (s, b))) (map fst cells)"
      using runs_into_step "2.prems" by simp
    from "2.IH"(2) [OF _ ch(1) this] True show ?thesis by simp
  next
    case False
    have n: "runs_into None (map fst cells)" by (simp add: runs_into_def)
    have far: "b \<le> fst v" if "v \<in> set (merge_free_from None cells)" for v
      using merge_free_bounds [OF ch(1) n that] "2.prems"(1) by (cases cells) auto
    show ?thesis
      using "2.IH"(1) [OF False ch(1) n] False far ch(2) "2.prems"(2)
      by (cases current) (fastforce simp: separated_def runs_into_def)+
  qed
qed

text \<open>
  C31. The free slots offered for a day are exactly its available cells, joined into maximal runs: a moment is in a
  free slot exactly when it is in an available cell, and between two free slots lies at least one cell that is not.
\<close>

theorem free_slots_are_available_runs:
  assumes "length states = 48"
  shows "(covered (merge_contiguous_free_slots (day_cell_bounds day tz) states) x \<longleftrightarrow>
      (\<exists>i<48. states ! i = CELL_AVAILABLE \<and> in_cell (day_cell_bounds day tz ! i) x)) \<and>
    separated (merge_contiguous_free_slots (day_cell_bounds day tz) states)"
proof -
  let ?cells = "zip (day_cell_bounds day tz) states"
  have ch: "chained (map fst ?cells)" using chained_day assms by simp
  have n: "runs_into None (map fst ?cells)" by (simp add: runs_into_def)
  have "(\<exists>c. (c, CELL_AVAILABLE) \<in> set ?cells \<and> in_cell c x) \<longleftrightarrow>
      (\<exists>i<48. states ! i = CELL_AVAILABLE \<and> in_cell (day_cell_bounds day tz ! i) x)"
    using assms by (auto simp del: split_paired_Ex simp: in_set_zip)
  then show ?thesis
    unfolding merge_contiguous_free_slots_def using merge_free_covered [OF ch n] merge_free_separated [OF ch n] by simp
qed

text \<open>A day available from 8:00 to 9:00 and from 9:30 to 10:00 has these two free slots.\<close>

definition sample_states :: "cell_state list" where
  "sample_states = replicate 16 CELL_CLOSED @ [CELL_AVAILABLE, CELL_AVAILABLE, CELL_UNAVAILABLE, CELL_AVAILABLE] @ replicate 28 CELL_CLOSED"

theorem free_slots_are_available_runs_witness:
  "length sample_states = 48 \<and> merge_contiguous_free_slots (day_cell_bounds 0 utc_zone) sample_states =
     [(8 * HOUR_US, 9 * HOUR_US), (9 * HOUR_US + 30 * MINUTE_US, 10 * HOUR_US)] \<and>
   covered (merge_contiguous_free_slots (day_cell_bounds 0 utc_zone) sample_states) (8 * HOUR_US)"
proof -
  have len: "length sample_states = 48" and cell: "sample_states ! 16 = CELL_AVAILABLE"
    and bound: "day_cell_bounds 0 utc_zone ! 16 = (8 * HOUR_US, 8 * HOUR_US + 30 * MINUTE_US)"
    and slots: "merge_contiguous_free_slots (day_cell_bounds 0 utc_zone) sample_states =
     [(8 * HOUR_US, 9 * HOUR_US), (9 * HOUR_US + 30 * MINUTE_US, 10 * HOUR_US)]"
    by code_simp+
  have "in_cell (day_cell_bounds 0 utc_zone ! 16) (8 * HOUR_US)" by (simp add: bound in_cell_def MINUTE_US_def)
  with free_slots_are_available_runs [OF len, of 0 utc_zone "8 * HOUR_US"] cell len slots show ?thesis
    by (intro conjI; simp (no_asm_simp)) (auto intro: exI [of _ 16])
qed

end
