(* ===== verification/Availability.thy ===== *)
theory Availability imports Timetable One_Time_Override begin

text \<open>
  The member's room availability (\<open>availability_service.py\<close>): for each active room the open windows of the
  day, the occupancies, the classified cells, and what of them a Personal or a Ministry query is shown. The signed
  photo links come from the file service, which is the parameter \<open>photo_urls\<close>.
\<close>

section \<open>Results\<close>

record availability_query =
  aq_target_date :: date
  aq_ministry_id :: "uuid option"

record time_slot =
  ts_start :: string
  ts_end :: string

record day_availability =
  da_am :: "time_slot list"
  da_pm :: "time_slot list"

record availability_template =
  at_start :: string
  at_end :: string
  at_slot_duration_minutes :: int

record availability_cell =
  ac_start :: string
  ac_end :: string
  ac_state :: cell_state
  ac_event_indices :: "nat list"

record availability_event =
  ae_start :: string
  ae_end :: string
  ae_occupancy_kind :: occupancy_kind
  ae_is_overridable :: bool
  ae_ministry_name :: "string option"
  ae_contact_display_name :: "string option"
  ae_contact_email :: "string option"

record room_availability =
  ra_id :: uuid
  ra_code :: string
  ra_name :: string
  ra_room_number :: "string option"
  ra_capacity :: "int option"
  ra_is_active :: bool
  ra_photo_urls :: "string list"
  ra_templates :: "availability_template list"
  ra_cells :: "availability_cell list"
  ra_events :: "availability_event list"
  ra_availability :: day_availability

record availability_list =
  al_date :: date
  al_facility_timezone :: zone
  al_items :: "room_availability list"
  al_max_booking_lines :: int

definition ROOM_GALLERY_MAX_FILES :: nat where "ROOM_GALLERY_MAX_FILES = 10"

section \<open>The service\<close>

definition resolve_ministry_context :: "env \<Rightarrow> db \<Rightarrow> uuid option \<Rightarrow> exn + (bool \<times> bool)" where
  "resolve_ministry_context e s ministry_id =
     (case ministry_id of
        None \<Rightarrow> Inr (False, False)
      | Some i \<Rightarrow>
          (let ministry = find_ministry s i;
               status = (case ministry of Some m \<Rightarrow> Some (mi_status m) | None \<Rightarrow> ministry_get_status s i)
           in raise_if (status \<noteq> Some MS_ACTIVE) bad_request_plain
                (case en_user_id e of
                   None \<Rightarrow> Inl forbidden
                 | Some user_id \<Rightarrow>
                     raise_if (\<not> is_user_booking_member s i user_id) forbidden
                       (Inr (True, case ministry of None \<Rightarrow> False | Some m \<Rightarrow> mi_has_priority_booking m)))))"

definition combine_local :: "date \<Rightarrow> tod \<Rightarrow> zone \<Rightarrow> instant" where
  "combine_local day value tz = from_local tz (combine day value)"

definition applicable_templates :: "slot_template list \<Rightarrow> date \<Rightarrow> slot_template list" where
  "applicable_templates templates day = filter (template_effective day) templates"

definition subtract_blackout :: "open_interval \<Rightarrow> open_interval list \<Rightarrow> open_interval list" where
  "subtract_blackout blackout segments =
     (case blackout of (blackout_start, blackout_end) \<Rightarrow>
       concat (map (\<lambda>(seg_start, seg_end).
         if \<not> intervals_overlap seg_start seg_end blackout_start blackout_end then [(seg_start, seg_end)]
         else (if seg_start < blackout_start then [(seg_start, min seg_end blackout_start)] else []) @
              (if blackout_end < seg_end then [(max seg_start blackout_end, seg_end)] else [])) segments))"

definition template_hours :: "date \<Rightarrow> zone \<Rightarrow> slot_template \<Rightarrow> open_interval" where
  "template_hours day tz t = (combine_local day (st_start_time t) tz, combine_local day (st_end_time t) tz)"

definition blackout_hours :: "date \<Rightarrow> zone \<Rightarrow> blackout \<Rightarrow> open_interval" where
  "blackout_hours day tz b = (combine_local day (bo_start_time b) tz, combine_local day (bo_end_time b) tz)"

definition build_open_windows :: "date \<Rightarrow> slot_template list \<Rightarrow> blackout list \<Rightarrow> zone \<Rightarrow> open_interval list" where
  "build_open_windows day templates blackouts tz =
     (let merged = merge_open_windows (filter (\<lambda>(start_at, end_at). start_at < end_at) (map (template_hours day tz) templates))
      in if blackouts = [] then merged
         else concat (map (\<lambda>window. filter (\<lambda>(seg_start, seg_end). seg_start < seg_end)
                (fold (\<lambda>b segments. subtract_blackout (blackout_hours day tz b) segments) blackouts [window])) merged))"

definition occupancy_of_row :: "env \<Rightarrow> db \<Rightarrow> bool \<Rightarrow> bool \<Rightarrow> occupying \<Rightarrow> occupancy_interval" where
  "occupancy_of_row e s is_ministry_context is_priority row =
     (let named = (case oc_ministry_id row of
                     Some i \<Rightarrow> if is_ministry_context \<and> \<not> truthy (oc_ministry_name row)
                               then (case find_ministry s i of None \<Rightarrow> None
                                     | Some m \<Rightarrow> ministry_name_fallback s (en_locale_id e) (mi_translations m))
                               else oc_ministry_name row
                   | None \<Rightarrow> oc_ministry_name row);
          contact = (if is_ministry_context
                     then (case oc_ministry_id row of
                             Some i \<Rightarrow> primary_steward_contact s i
                           | None \<Rightarrow> if is_priority then (None, None) else (oc_booker_display_name row, oc_booker_email row))
                     else (None, None))
      in \<lparr>oi_booking_id = oc_booking_id row, oi_start_at = oc_start_at row, oi_end_at = oc_end_at row,
          oi_booking_start_at = oc_start_at row, oi_ministry_id = oc_ministry_id row, oi_ministry_name = named,
          oi_contact_display_name = fst contact, oi_contact_email = snd contact\<rparr>)"

definition occupying_on :: "env \<Rightarrow> db \<Rightarrow> uuid \<Rightarrow> date \<Rightarrow> zone \<Rightarrow> occupying list" where
  "occupying_on e s facility_id day tz =
     (let start_at = combine_local day 0 tz
      in list_occupying_slots s (en_sql_now e) facility_id start_at (start_at + DAY_US) (en_locale_id e))"

definition occupancy_for_room_day :: "env \<Rightarrow> db \<Rightarrow> uuid \<Rightarrow> date \<Rightarrow> zone \<Rightarrow> bool \<Rightarrow> bool \<Rightarrow> occupancy_interval list" where
  "occupancy_for_room_day e s facility_id day tz is_ministry_context is_priority =
     map (occupancy_of_row e s is_ministry_context is_priority) (occupying_on e s facility_id day tz)"

definition ampm_from_free_slots :: "open_interval list \<Rightarrow> zone \<Rightarrow> day_availability" where
  "ampm_from_free_slots free_slots tz =
     (let slot = (\<lambda>(start_at, end_at). \<lparr>ts_start = format_local_hm start_at tz, ts_end = format_local_hm end_at tz\<rparr>);
          is_am = (\<lambda>(start_at, end_at). wall_time (to_local tz start_at) div HOUR_US < 12)
      in \<lparr>da_am = map slot (filter is_am free_slots), da_pm = map slot (filter (\<lambda>w. \<not> is_am w) free_slots)\<rparr>)"

text \<open>\<open>RoomRepository.list_active\<close>\<close>

definition list_active_rooms :: "db \<Rightarrow> room_row list" where
  "list_active_rooms s = sort_key rm_sequence (filter (\<lambda>r. \<not> rm_is_deleted r \<and> rm_is_active r) (db_rooms s))"

definition room_windows :: "db \<Rightarrow> uuid \<Rightarrow> date \<Rightarrow> zone \<Rightarrow> open_interval list" where
  "room_windows s room_id day tz =
     build_open_windows day (applicable_templates (list_active_for_day s room_id (weekday day)) day)
       (list_active_for_room_day s room_id day) tz"

definition room_cell_states :: "env \<Rightarrow> db \<Rightarrow> uuid \<Rightarrow> date \<Rightarrow> zone \<Rightarrow> bool \<Rightarrow> bool \<Rightarrow> cell_state list" where
  "room_cell_states e s room_id day tz is_ministry_context is_priority =
     map (\<lambda>cell. classify_cell cell (room_windows s room_id day tz)
            (occupancy_for_room_day e s room_id day tz is_ministry_context is_priority) is_priority (en_now_utc e))
       (day_cell_bounds day tz)"

definition to_event :: "zone \<Rightarrow> projected_event \<Rightarrow> availability_event" where
  "to_event tz event =
     \<lparr>ae_start = format_local_hm (pe_start_at event) tz, ae_end = format_local_hm (pe_end_at event) tz,
      ae_occupancy_kind = pe_occupancy_kind event, ae_is_overridable = pe_is_overridable event,
      ae_ministry_name = pe_ministry_name event, ae_contact_display_name = pe_contact_display_name event,
      ae_contact_email = pe_contact_email event\<rparr>"

definition event_indices :: "projected_event list \<Rightarrow> open_interval \<Rightarrow> nat list" where
  "event_indices projected cell =
     map fst (filter (\<lambda>(index, event). intervals_overlap (fst cell) (snd cell) (pe_start_at event) (pe_end_at event))
       (enumerate 0 projected))"

definition room_result :: "(uuid \<Rightarrow> string list) \<Rightarrow> env \<Rightarrow> db \<Rightarrow> date \<Rightarrow> bool \<Rightarrow> bool \<Rightarrow> room_row \<Rightarrow> room_availability list" where
  "room_result photo_urls e s day is_ministry_context is_priority room =
     (let tz = set_facility_timezone (en_settings e);
          templates = applicable_templates (list_active_for_day s (rm_id room) (weekday day)) day;
          open_windows = room_windows s (rm_id room) day tz;
          cell_bounds = day_cell_bounds day tz;
          cell_states = room_cell_states e s (rm_id room) day tz is_ministry_context is_priority;
          projected = (if is_ministry_context
                       then project_ministry_events (occupancy_for_room_day e s (rm_id room) day tz is_ministry_context is_priority)
                              open_windows is_priority (en_now_utc e)
                       else [])
      in if \<not> should_include_room is_ministry_context open_windows cell_states then []
         else [\<lparr>ra_id = rm_id room, ra_code = rm_code room, ra_name = room_display_name (en_locale_id e) room,
                ra_room_number = rm_room_number room,
                ra_capacity = (case List.find (\<lambda>r. rm_id r = rm_id room) (db_rooms s) of None \<Rightarrow> None | Some r \<Rightarrow> rm_capacity r),
                ra_is_active = rm_is_active room,
                ra_photo_urls = take ROOM_GALLERY_MAX_FILES (photo_urls (rm_id room)),
                ra_templates = map (\<lambda>t. \<lparr>at_start = format_local_hm (combine_local day (st_start_time t) tz) tz,
                     at_end = format_local_hm (combine_local day (st_end_time t) tz) tz,
                     at_slot_duration_minutes = max 15 (if st_slot_duration_minutes t = 0 then 60 else st_slot_duration_minutes t)\<rparr>) templates,
                ra_cells = map (\<lambda>(cell, state). \<lparr>ac_start = format_local_hm (fst cell) tz, ac_end = format_local_hm (snd cell) tz,
                     ac_state = state, ac_event_indices = event_indices projected cell\<rparr>) (zip cell_bounds cell_states),
                ra_events = map (to_event tz) projected,
                ra_availability = ampm_from_free_slots (merge_contiguous_free_slots cell_bounds cell_states) tz\<rparr>])"

definition get_rooms_availability :: "(uuid \<Rightarrow> string list) \<Rightarrow> availability_query \<Rightarrow> env \<Rightarrow> db \<Rightarrow> exn + availability_list" where
  "get_rooms_availability photo_urls command e s =
     (let tz = set_facility_timezone (en_settings e); day = aq_target_date command
      in raise_if (day < wall_date (to_local tz (en_now_utc e))) (bad_request AVAILABILITY_DATE_IN_PAST)
           (bindE (resolve_ministry_context e s (aq_ministry_id command)) (\<lambda>(is_ministry_context, is_priority).
              Inr \<lparr>al_date = day, al_facility_timezone = tz,
                   al_items = concat (map (room_result photo_urls e s day is_ministry_context is_priority) (list_active_rooms s)),
                   al_max_booking_lines = set_max_booking_lines (en_settings e)\<rparr>)))"

section \<open>Windows and moments\<close>

definition room_open_at :: "db \<Rightarrow> uuid \<Rightarrow> date \<Rightarrow> zone \<Rightarrow> instant \<Rightarrow> bool" where
  "room_open_at s room_id day tz x \<longleftrightarrow>
     (\<exists>t\<in>set (applicable_templates (list_active_for_day s room_id (weekday day)) day). in_cell (template_hours day tz t) x) \<and>
     (\<forall>b\<in>set (list_active_for_room_day s room_id day). \<not> in_cell (blackout_hours day tz b) x)"

definition room_held_at :: "env \<Rightarrow> db \<Rightarrow> uuid \<Rightarrow> date \<Rightarrow> zone \<Rightarrow> instant \<Rightarrow> bool" where
  "room_held_at e s room_id day tz x \<longleftrightarrow> (\<exists>row\<in>set (occupying_on e s room_id day tz). oc_start_at row \<le> x \<and> x < oc_end_at row)"

lemma covered_concat: "covered (concat wss) x \<longleftrightarrow> (\<exists>ws\<in>set wss. covered ws x)"
  by (auto simp: covered_def)

lemma subtract_covered:
  "covered (subtract_blackout b segments) x \<longleftrightarrow> covered segments x \<and> \<not> in_cell b x"
proof -
  obtain bs be where b: "b = (bs, be)" by (cases b)
  have piece: "covered (case w of (u, v) \<Rightarrow> if \<not> intervals_overlap u v bs be then [(u, v)]
        else (if u < bs then [(u, min v bs)] else []) @ (if be < v then [(max u be, v)] else [])) x \<longleftrightarrow>
      in_cell w x \<and> \<not> in_cell (bs, be) x" for w
    by (cases w) (auto simp: intervals_overlap_def covered_def in_cell_def)
  have "covered (subtract_blackout b segments) x \<longleftrightarrow> (\<exists>w\<in>set segments. in_cell w x \<and> \<not> in_cell b x)"
    unfolding b subtract_blackout_def prod.case covered_concat set_map bex_simps piece by (rule refl)
  then show ?thesis by (simp add: covered_in_cell)
qed

lemma subtract_all_covered:
  "covered (fold (\<lambda>b segments. subtract_blackout (f b) segments) bs ws) x \<longleftrightarrow>
     covered ws x \<and> (\<forall>b\<in>set bs. \<not> in_cell (f b) x)"
  by (induction bs arbitrary: ws) (auto simp: subtract_covered)

lemma covered_filter_nonempty: "covered (filter (\<lambda>(a, b). a < b) ws) x \<longleftrightarrow> covered ws x"
  by (force simp: covered_def)

lemma build_open_windows_covered:
  "covered (build_open_windows day ts bs tz) x \<longleftrightarrow>
     (\<exists>t\<in>set ts. in_cell (template_hours day tz t) x) \<and> (\<forall>b\<in>set bs. \<not> in_cell (blackout_hours day tz b) x)"
proof -
  let ?ws = "filter (\<lambda>(a, b). a < b) (map (template_hours day tz) ts)"
  have "covered (merge_open_windows ?ws) x \<longleftrightarrow> covered ?ws x" by (rule merge_open_windows_props(1)) auto
  also have "\<dots> \<longleftrightarrow> covered (map (template_hours day tz) ts) x" by (rule covered_filter_nonempty)
  finally have m: "covered (merge_open_windows ?ws) x \<longleftrightarrow> (\<exists>t\<in>set ts. in_cell (template_hours day tz t) x)"
    unfolding covered_in_cell [of "map _ _"] by simp
  show ?thesis
  proof (cases "bs = []")
    case False
    then show ?thesis
      unfolding build_open_windows_def Let_def m [symmetric] covered_in_cell [of "merge_open_windows ?ws"]
      by (simp add: covered_concat covered_filter_nonempty subtract_all_covered covered_in_cell [of "[_]"])
  qed (simp add: build_open_windows_def m)
qed

lemma room_windows_covered: "covered (room_windows s room_id day tz) x \<longleftrightarrow> room_open_at s room_id day tz x"
  by (simp add: room_windows_def build_open_windows_covered room_open_at_def)

lemma occupancy_of_row_times [simp]:
  "oi_start_at (occupancy_of_row e s mc pri row) = oc_start_at row" "oi_end_at (occupancy_of_row e s mc pri row) = oc_end_at row"
  "oi_booking_start_at (occupancy_of_row e s mc pri row) = oc_start_at row"
  "oi_ministry_id (occupancy_of_row e s mc pri row) = oc_ministry_id row"
  by (simp_all add: occupancy_of_row_def Let_def)

lemma not_held:
  "(\<forall>item\<in>set (occupancy_for_room_day e s room_id day tz mc pri). \<not> held_at item x) \<longleftrightarrow> \<not> room_held_at e s room_id day tz x"
  by (auto simp: occupancy_for_room_day_def room_held_at_def held_at_def)

lemma occupancy_has_length:
  assumes "\<forall>b\<in>set (db_bookings s). bk_start_at b < bk_end_at b"
  shows "\<forall>item\<in>set (occupancy_for_room_day e s room_id day tz mc pri). oi_start_at item < oi_end_at item"
proof
  fix item assume "item \<in> set (occupancy_for_room_day e s room_id day tz mc pri)"
  then obtain row where row: "row \<in> set (occupying_on e s room_id day tz)" "item = occupancy_of_row e s mc pri row"
    by (auto simp: occupancy_for_room_day_def)
  from row(1) reported_occupancy obtain b where "b \<in> set (db_bookings s)" "oc_start_at row = bk_start_at b" "oc_end_at row = bk_end_at b"
    unfolding occupying_on_def Let_def by (metis occupying_rows_iff)
  with assms row(2) show "oi_start_at item < oi_end_at item" by simp
qed

lemma get_rooms_availability_Inr:
  assumes "get_rooms_availability photo_urls command e s = Inr r" "ra \<in> set (al_items r)"
  obtains mc pri room where "resolve_ministry_context e s (aq_ministry_id command) = Inr (mc, pri)"
    "room \<in> set (list_active_rooms s)" "ra \<in> set (room_result photo_urls e s (aq_target_date command) mc pri room)"
  using assms by (auto simp: get_rooms_availability_def Let_def guard_simps)

lemma room_result_cells:
  assumes "ra \<in> set (room_result photo_urls e s day mc pri room)" "i < 48"
  shows "ra_id ra = rm_id room"
    "ac_state (ra_cells ra ! i) = classify_cell (day_cell_bounds day (set_facility_timezone (en_settings e)) ! i)
       (room_windows s (rm_id room) day (set_facility_timezone (en_settings e)))
       (occupancy_for_room_day e s (rm_id room) day (set_facility_timezone (en_settings e)) mc pri) pri (en_now_utc e)"
  using assms by (auto simp: room_result_def Let_def room_cell_states_def split: if_splits)

lemma availability_cell_cases:
  assumes "get_rooms_availability photo_urls command e s = Inr r" "ra \<in> set (al_items r)" "i < 48"
    and "\<forall>b\<in>set (db_bookings s). bk_start_at b < bk_end_at b"
  defines "tz \<equiv> set_facility_timezone (en_settings e)"
  shows "(ac_state (ra_cells ra ! i) = CELL_CLOSED \<longleftrightarrow>
      (\<forall>x. in_cell (day_cell_bounds (aq_target_date command) tz ! i) x \<longrightarrow> \<not> room_open_at s (ra_id ra) (aq_target_date command) tz x)) \<and>
    (ac_state (ra_cells ra ! i) = CELL_AVAILABLE \<longleftrightarrow>
      (\<exists>x. in_cell (day_cell_bounds (aq_target_date command) tz ! i) x \<and> room_open_at s (ra_id ra) (aq_target_date command) tz x) \<and>
      (\<forall>x. in_cell (day_cell_bounds (aq_target_date command) tz ! i) x \<and> room_open_at s (ra_id ra) (aq_target_date command) tz x \<longrightarrow>
         \<not> room_held_at e s (ra_id ra) (aq_target_date command) tz x)) \<and>
    (ac_state (ra_cells ra ! i) = CELL_OVERRIDE \<longrightarrow> resolve_ministry_context e s (aq_ministry_id command) = Inr (True, True))"
proof -
  obtain mc pri room where m: "resolve_ministry_context e s (aq_ministry_id command) = Inr (mc, pri)"
    and room: "ra \<in> set (room_result photo_urls e s (aq_target_date command) mc pri room)"
    by (rule get_rooms_availability_Inr [OF assms(1,2)])
  note cell = room_result_cells [OF room assms(3), folded tz_def]
  note cp = classify_cell_pointwise [OF occupancy_has_length [OF assms(4)],
      of "day_cell_bounds (aq_target_date command) tz ! i" "room_windows s (rm_id room) (aq_target_date command) tz"
         e "rm_id room" "aq_target_date command" tz mc pri pri "en_now_utc e"]
  have "pri \<longrightarrow> mc" using m by (auto simp: resolve_ministry_context_def Let_def guard_simps split: option.splits)
  then have over: "ac_state (ra_cells ra ! i) = CELL_OVERRIDE \<longrightarrow> resolve_ministry_context e s (aq_ministry_id command) = Inr (True, True)"
    using cp m unfolding cell(2) by auto
  show ?thesis
    using cp over unfolding cell room_windows_covered not_held by (elim conjE) (intro conjI; assumption)
qed

section \<open>Properties\<close>

text \<open>
  C21. What the timetable answers for a room is what the tables say, moment by moment: cell \<open>i\<close> of an answered room is
  closed exactly when at no moment of it a template in force opens the room outside every Blackout, it is available
  exactly when some moment is open and at no open moment a Booking that counts holds the room, and an Override cell is
  shown only to a current steward of an Active Priority Ministry.
\<close>

theorem availability_cell_pointwise:
  assumes "get_rooms_availability photo_urls command e s = Inr r" and "ra \<in> set (al_items r)" and "i < 48"
    and "\<forall>b\<in>set (db_bookings s). bk_start_at b < bk_end_at b"
  shows "let day = aq_target_date command; tz = set_facility_timezone (en_settings e); cell = day_cell_bounds day tz ! i;
             state = ac_state (ra_cells ra ! i)
    in (state = CELL_CLOSED \<longleftrightarrow> (\<forall>x. in_cell cell x \<longrightarrow> \<not> room_open_at s (ra_id ra) day tz x)) \<and>
       (state = CELL_AVAILABLE \<longleftrightarrow>
          (\<exists>x. in_cell cell x \<and> room_open_at s (ra_id ra) day tz x) \<and>
          (\<forall>x. in_cell cell x \<and> room_open_at s (ra_id ra) day tz x \<longrightarrow> \<not> room_held_at e s (ra_id ra) day tz x)) \<and>
       (state = CELL_OVERRIDE \<longrightarrow> resolve_ministry_context e s (aq_ministry_id command) = Inr (True, True))"
  unfolding Let_def by (rule availability_cell_cases [OF assms])

definition slots_in_bookings :: "db \<Rightarrow> bool" where
  "slots_in_bookings s \<longleftrightarrow>
     (\<forall>b\<in>set (db_bookings s). bk_start_at b < bk_end_at b \<and>
        (\<forall>sl\<in>set (db_slots s). sl_booking_id sl = bk_id b \<longrightarrow> bk_start_at b \<le> sl_start_at sl \<and> sl_start_at sl < sl_end_at sl \<and> sl_end_at sl \<le> bk_end_at b))"

lemma held_slot_shows:
  assumes "bookers_exist s" "slots_in_bookings s" "(j, room_id, a', e') \<in> occupancy s (en_sql_now e)"
    and "a' \<le> x" "x < e'" "combine_local day 0 tz \<le> x" "x < combine_local day 0 tz + DAY_US"
  shows "room_held_at e s room_id day tz x"
proof -
  from assms(3) obtain sl b where
    sb: "sl \<in> set (db_slots s)" "b \<in> set (db_bookings s)" "bk_id b = sl_booking_id sl" "sl_facility_id sl = room_id"
      "sl_start_at sl = a'" "sl_end_at sl = e'" "sl_status sl = SS_CONFIRMED" "\<not> bk_is_deleted b" "active_occupancy_clause s (en_sql_now e) b"
    unfolding occupancy_def by auto
  then have row: "(sl, b) \<in> set (occupying_rows s (en_sql_now e) room_id (combine_local day 0 tz) (combine_local day 0 tz + DAY_US))"
    using assms(4-7) by (simp add: occupying_rows_iff)
  obtain u where "find_user s (bk_user_id b) = Some u" using assms(1) sb(2) by (auto simp: bookers_exist_def)
  with row obtain r where "r \<in> set (occupying_on e s room_id day tz)" "oc_start_at r = bk_start_at b" "oc_end_at r = bk_end_at b"
    unfolding occupying_on_def Let_def list_occupying_slots_def by force
  moreover have "bk_start_at b \<le> x" "x < bk_end_at b"
    using assms(2,4,5) sb unfolding slots_in_bookings_def by fastforce+
  ultimately show ?thesis unfolding room_held_at_def by (intro bexI [of _ r]) simp_all
qed

lemma cell_in_day:
  assumes "i < 48" "in_cell (day_cell_bounds day tz ! i) x"
  shows "combine_local day 0 tz \<le> x \<and> x < combine_local day 0 tz + DAY_US"
proof -
  have "0 \<le> int i" "int i + 1 \<le> 48" using assms(1) by simp_all
  then have "0 \<le> MINUTE_US * int i" "MINUTE_US * (int i + 1) \<le> MINUTE_US * 48" by (simp_all add: MINUTE_US_def)
  then show ?thesis
    using assms by (simp add: day_cell_nth in_cell_def combine_local_def day_start_def DAY_US_def MINUTE_US_def algebra_simps)
qed


text \<open>Without priority a cell depends on nothing but the intervals held.\<close>

lemma classify_personal:
  assumes "(\<lambda>o1. (oi_start_at o1, oi_end_at o1)) ` set os = (\<lambda>o1. (oi_start_at o1, oi_end_at o1)) ` set os'"
  shows "classify_cell c ws os False now = classify_cell c ws os' False now"
proof -
  have none: "filter (\<lambda>item. list_ex (\<lambda>(p, q). intervals_overlap p q (oi_start_at item) (oi_end_at item)) parts) xs = [] \<longleftrightarrow>
      (\<forall>(s, e)\<in>(\<lambda>o1. (oi_start_at o1, oi_end_at o1)) ` set xs. \<not> list_ex (\<lambda>(p, q). intervals_overlap p q s e) parts)" for parts xs
    by (auto simp: filter_empty_conv)
  have no: "filter (may_override False now) xs = []" for xs by (simp add: may_override_def)
  show ?thesis unfolding classify_cell_def Let_def none assms no by simp
qed

definition same_rooms :: "db \<Rightarrow> db \<Rightarrow> bool" where
  "same_rooms s s' \<longleftrightarrow> db_rooms s' = db_rooms s \<and> db_slot_templates s' = db_slot_templates s \<and> db_blackouts s' = db_blackouts s"

definition held_intervals :: "env \<Rightarrow> db \<Rightarrow> date \<Rightarrow> uuid \<Rightarrow> (instant \<times> instant) set" where
  "held_intervals e s day room_id =
     (\<lambda>row. (oc_start_at row, oc_end_at row)) ` set (occupying_on e s room_id day (set_facility_timezone (en_settings e)))"

lemma personal_room_result:
  assumes "same_rooms s s'" "held_intervals e s day (rm_id room) = held_intervals e s' day (rm_id room)"
  shows "room_result photo_urls e s day False False room = room_result photo_urls e s' day False False room"
proof -
  let ?tz = "set_facility_timezone (en_settings e)"
  have tpl: "list_active_for_day s' (rm_id room) w = list_active_for_day s (rm_id room) w" for w
    using assms(1) by (simp add: list_active_for_day_def same_rooms_def)
  have "list_active_for_room_day s' (rm_id room) day = list_active_for_room_day s (rm_id room) day"
    using assms(1) by (simp add: list_active_for_room_day_def same_rooms_def)
  then have win: "room_windows s' (rm_id room) day ?tz = room_windows s (rm_id room) day ?tz" by (simp add: room_windows_def tpl)
  have times: "(\<lambda>o1. (oi_start_at o1, oi_end_at o1)) ` set (occupancy_for_room_day e u (rm_id room) day ?tz False False) =
      held_intervals e u day (rm_id room)" for u
    by (simp add: occupancy_for_room_day_def held_intervals_def image_image)
  have "room_cell_states e s' (rm_id room) day ?tz False False = room_cell_states e s (rm_id room) day ?tz False False"
    unfolding room_cell_states_def win by (rule map_cong [OF refl], rule classify_personal) (simp only: times assms(2))
  then show ?thesis
    using assms(1) by (simp add: room_result_def Let_def win tpl same_rooms_def)
qed

text \<open>
  C23. A Personal query is blind to who holds a room: its answer is the same for any two databases with the same rooms,
  templates and Blackouts in which the same intervals are held, whoever the bookers and Ministries are; and it names no
  event, no contact and no Override cell.
\<close>

theorem personal_view_blind:
  assumes "aq_ministry_id command = None" and "same_rooms s s'"
    and "\<forall>room\<in>set (db_rooms s). held_intervals e s (aq_target_date command) (rm_id room) =
      held_intervals e s' (aq_target_date command) (rm_id room)"
  shows "get_rooms_availability photo_urls command e s = get_rooms_availability photo_urls command e s' \<and>
    (\<forall>r ra. get_rooms_availability photo_urls command e s = Inr r \<and> ra \<in> set (al_items r) \<longrightarrow>
       ra_events ra = [] \<and> (\<forall>cell\<in>set (ra_cells ra). ac_event_indices cell = [] \<and> ac_state cell \<noteq> CELL_OVERRIDE))"
proof
  have ctx: "resolve_ministry_context e u (aq_ministry_id command) = Inr (False, False)" for u
    by (simp add: resolve_ministry_context_def assms(1))
  have rooms: "list_active_rooms s' = list_active_rooms s" using assms(2) by (simp add: list_active_rooms_def same_rooms_def)
  have m: "map (room_result photo_urls e s (aq_target_date command) False False) (list_active_rooms s) =
      map (room_result photo_urls e s' (aq_target_date command) False False) (list_active_rooms s)"
    by (rule map_cong [OF refl], rule personal_room_result [OF assms(2)]) (use assms(3) in \<open>simp add: list_active_rooms_def\<close>)
  show "get_rooms_availability photo_urls command e s = get_rooms_availability photo_urls command e s'"
    unfolding get_rooms_availability_def Let_def ctx rooms by (simp add: m del: map_eq_conv)
  show "\<forall>r ra. get_rooms_availability photo_urls command e s = Inr r \<and> ra \<in> set (al_items r) \<longrightarrow>
       ra_events ra = [] \<and> (\<forall>cell\<in>set (ra_cells ra). ac_event_indices cell = [] \<and> ac_state cell \<noteq> CELL_OVERRIDE)"
  proof (intro allI impI, elim conjE)
    fix r ra assume "get_rooms_availability photo_urls command e s = Inr r" "ra \<in> set (al_items r)"
    then obtain room where ra: "ra \<in> set (room_result photo_urls e s (aq_target_date command) False False room)"
      by (rule get_rooms_availability_Inr) (simp add: ctx)
    have "classify_cell c ws os False now \<noteq> CELL_OVERRIDE" for c ws os now
      by (simp add: classify_cell_def Let_def may_override_def)
    then show "ra_events ra = [] \<and> (\<forall>cell\<in>set (ra_cells ra). ac_event_indices cell = [] \<and> ac_state cell \<noteq> CELL_OVERRIDE)"
      using ra by (auto simp: room_result_def Let_def event_indices_def room_cell_states_def in_set_zip split: if_splits)
  qed
qed

section \<open>Witnesses\<close>

text \<open>On 1 June the hall is taken from 14:00 to 16:00; cell 28 starts at 14:00, cell 32 at 16:00.\<close>

definition june_first :: availability_query where
  "june_first = \<lparr>aq_target_date = ymd2ord 2026 6 1, aq_ministry_id = None\<rparr>"

definition may_env :: env where "may_env = sample_env member_id (moment 2026 5 1 0 0)"

abbreviation june_cell :: "nat \<Rightarrow> open_interval" where
  "june_cell i \<equiv> day_cell_bounds (ymd2ord 2026 6 1) utc_zone ! i"

lemma june_first_cells:
  "room_windows sample_taken hall_id (ymd2ord 2026 6 1) utc_zone = [(moment 2026 6 1 8 0, moment 2026 6 1 22 0)]"
  "map (\<lambda>i. classify_cell (june_cell i) [(moment 2026 6 1 8 0, moment 2026 6 1 22 0)]
     (occupancy_for_room_day may_env sample_taken hall_id (ymd2ord 2026 6 1) utc_zone False False) False (en_now_utc may_env)) [15, 16, 28] =
     [CELL_CLOSED, CELL_AVAILABLE, CELL_UNAVAILABLE]"
  "ymd2ord 2026 6 1 \<ge> wall_date (to_local utc_zone (en_now_utc may_env))"
  "map rm_id (list_active_rooms sample_taken) = [hall_id, chapel_id]"
  "bookers_exist sample_taken \<and> slots_in_bookings sample_taken"
  unfolding bookers_exist_def slots_in_bookings_def by code_simp+

lemma june_settings: "set_facility_timezone (en_settings may_env) = utc_zone"
  by (simp add: may_env_def sample_env_def sample_settings_def)

lemma june_first_returns:
  obtains r ra where "get_rooms_availability (\<lambda>i. []) june_first may_env sample_taken = Inr r" "ra \<in> set (al_items r)"
    "ra_id ra = hall_id" "ac_state (ra_cells ra ! 15) = CELL_CLOSED" "ac_state (ra_cells ra ! 16) = CELL_AVAILABLE"
    "ac_state (ra_cells ra ! 28) = CELL_UNAVAILABLE"
proof -
  obtain hall rest where rooms: "list_active_rooms sample_taken = hall # rest" "rm_id hall = hall_id"
    using june_first_cells(4) by (cases "list_active_rooms sample_taken") auto
  let ?states = "room_cell_states may_env sample_taken hall_id (ymd2ord 2026 6 1) utc_zone False False"
  have "?states ! 16 = CELL_AVAILABLE" "16 < length ?states"
    using june_first_cells(2) by (simp_all add: room_cell_states_def june_first_cells(1))
  then have "room_has_usable_free_interval ?states" unfolding room_has_usable_free_interval_def list_ex_iff by (metis nth_mem)
  moreover have "room_has_offered_time (room_windows sample_taken hall_id (ymd2ord 2026 6 1) utc_zone)"
    unfolding june_first_cells(1) room_has_offered_time_def by code_simp
  ultimately have inc: "should_include_room False (room_windows sample_taken hall_id (ymd2ord 2026 6 1) utc_zone) ?states"
    by (simp add: should_include_room_def)
  obtain r where r: "get_rooms_availability (\<lambda>i. []) june_first may_env sample_taken = Inr r" and
    items: "al_items r = concat (map (room_result (\<lambda>i. []) may_env sample_taken (ymd2ord 2026 6 1) False False) (hall # rest))"
    using june_first_cells(3) by (auto simp: get_rooms_availability_def june_first_def june_settings resolve_ministry_context_def rooms(1) guard_simps Let_def)
  obtain ra where ra: "ra \<in> set (room_result (\<lambda>i. []) may_env sample_taken (ymd2ord 2026 6 1) False False hall)"
    using inc by (simp add: room_result_def Let_def rooms(2) june_settings)
  note cells = room_result_cells [OF ra, unfolded june_settings rooms(2) june_first_cells(1)]
  show thesis
    by (rule that [OF r, of ra]) (use ra items cells(1) [of 0] cells(2) june_first_cells(2) in auto)
qed

theorem availability_cell_pointwise_witness:
  "\<exists>r ra. get_rooms_availability (\<lambda>i. []) june_first may_env sample_taken = Inr r \<and> ra \<in> set (al_items r) \<and> ra_id ra = hall_id \<and>
     (\<exists>x. in_cell (june_cell 16) x \<and> room_open_at sample_taken hall_id (ymd2ord 2026 6 1) utc_zone x \<and>
        \<not> room_held_at may_env sample_taken hall_id (ymd2ord 2026 6 1) utc_zone x) \<and>
     (\<nexists>x. in_cell (june_cell 15) x \<and> room_open_at sample_taken hall_id (ymd2ord 2026 6 1) utc_zone x)"
proof -
  obtain r ra where r: "get_rooms_availability (\<lambda>i. []) june_first may_env sample_taken = Inr r" "ra \<in> set (al_items r)"
    "ra_id ra = hall_id" "ac_state (ra_cells ra ! 15) = CELL_CLOSED" "ac_state (ra_cells ra ! 16) = CELL_AVAILABLE"
    by (rule june_first_returns)
  have len: "\<forall>b\<in>set (db_bookings sample_taken). bk_start_at b < bk_end_at b"
    using june_first_cells(5) by (simp add: slots_in_bookings_def)
  have day: "aq_target_date june_first = ymd2ord 2026 6 1" by (simp add: june_first_def)
  note at = availability_cell_pointwise [OF r(1,2) _ len, unfolded Let_def june_settings day r(3)]
  from at [of 16] at [of 15] r show ?thesis by (intro exI [of _ r] exI [of _ ra]) (simp, blast)
qed


text \<open>Seen by the member, the hall looks the same when the Ministry holds it instead.\<close>

definition ministry_taken :: db where
  "ministry_taken = sample_taken\<lparr>db_bookings := map (\<lambda>b. b\<lparr>bk_ministry_id := Some priority_ministry_id, bk_user_id := steward_id\<rparr>)
     (db_bookings sample_taken)\<rparr>"

lemma same_intervals:
  "same_rooms sample_taken ministry_taken"
  "list_all (\<lambda>room. held_intervals may_env sample_taken (ymd2ord 2026 6 1) (rm_id room) =
     held_intervals may_env ministry_taken (ymd2ord 2026 6 1) (rm_id room)) (db_rooms sample_taken)"
  unfolding held_intervals_def by (simp add: same_rooms_def ministry_taken_def, code_simp)

theorem personal_view_blind_witness:
  "\<exists>r. get_rooms_availability (\<lambda>i. []) june_first may_env ministry_taken = Inr r \<and> list_all (\<lambda>ra. ra_events ra = []) (al_items r)"
proof -
  obtain r where r: "get_rooms_availability (\<lambda>i. []) june_first may_env sample_taken = Inr r" by (rule june_first_returns)
  have q: "aq_ministry_id june_first = None" "aq_target_date june_first = ymd2ord 2026 6 1" by (simp_all add: june_first_def)
  from personal_view_blind [OF q(1) same_intervals(1), of may_env "\<lambda>i. []"] same_intervals(2) r
  show ?thesis by (intro exI [of _ r]) (simp add: q(2) list_all_iff)
qed

end
