(* ===== verification/Booking_Drafts.thy ===== *)
theory Booking_Drafts imports Series_Schedule begin

text \<open>
  Booking Drafts (\<open>booking_draft_service.py\<close>, \<open>booking_draft_repository.py\<close>): standalone snapshots of proposed lines
  that hold no room. A draft is evaluated live whenever it is read. The main lemma relates that evaluation to the
  creation of the Booking it describes.
\<close>

section \<open>Commands and results\<close>

record draft_line_command =
  dc_facility_id :: uuid
  dc_start_at :: instant
  dc_end_at :: instant
  dc_sequence :: int

text \<open>\<open>CreateBookingDraftCommand\<close> and \<open>UpdateBookingDraftCommand\<close> have the same fields.\<close>

record draft_command =
  dc_title :: string
  dc_ministry_id :: "uuid option"
  dc_lines :: "draft_line_command list"

record draft_line_result =
  dv_facility_id :: uuid
  dv_start_at :: instant
  dv_end_at :: instant
  dv_sequence :: int
  dv_is_available :: bool

record draft_result =
  dr_draft :: draft_row
  dr_lines :: "draft_line_result list"
  dr_quote :: quote_result
  dr_is_confirmable :: bool
  dr_conflicts :: "booking_conflict list"
  dr_override_impacts :: "override_impact list"
  dr_override_review_token :: "string option"

section \<open>The repository\<close>

definition draft_constraints :: "db \<Rightarrow> draft_row \<Rightarrow> bool" where
  "draft_constraints s d \<longleftrightarrow>
     title_length_ok (df_title d) \<and> fk us_id (db_users s) (Some (df_user_id d)) \<and> fk mi_id (db_ministries s) (df_ministry_id d)"

definition draft_line_constraints :: "db \<Rightarrow> draft_line \<Rightarrow> bool" where
  "draft_line_constraints s l \<longleftrightarrow>
     dl_end_at l > dl_start_at l \<and> fk df_id (db_drafts s) (Some (dl_draft_id l)) \<and> fk rm_id (db_rooms s) (Some (dl_facility_id l))"

definition insert_draft :: "draft_row \<Rightarrow> db \<Rightarrow> exn + db" where
  "insert_draft d s = raise_if (\<not> draft_constraints s d) integrity (Inr (s\<lparr>db_drafts := db_drafts s @ [d]\<rparr>))"

definition insert_draft_lines :: "draft_line list \<Rightarrow> db \<Rightarrow> exn + db" where
  "insert_draft_lines rows s =
     (if rows = [] then Inr s
      else raise_if (\<not> list_all (draft_line_constraints s) rows) integrity (Inr (s\<lparr>db_draft_lines := db_draft_lines s @ rows\<rparr>)))"

definition update_draft_header :: "uuid \<Rightarrow> (draft_row \<Rightarrow> draft_row) \<Rightarrow> db \<Rightarrow> exn + db" where
  "update_draft_header i f s =
     (let drafts = update_where (\<lambda>d. df_id d = i) f (db_drafts s)
      in raise_if (\<not> list_all (\<lambda>d. df_id d = i \<longrightarrow> draft_constraints s d) drafts) integrity (Inr (s\<lparr>db_drafts := drafts\<rparr>)))"

definition replace_draft_lines :: "uuid \<Rightarrow> draft_line list \<Rightarrow> db \<Rightarrow> exn + db" where
  "replace_draft_lines i rows s =
     insert_draft_lines rows (s\<lparr>db_draft_lines := filter (\<lambda>l. dl_draft_id l \<noteq> i) (db_draft_lines s)\<rparr>)"

definition delete_drafts_of :: "uuid \<Rightarrow> db \<Rightarrow> db" where
  "delete_drafts_of user_id s =
     (let owned = set (map df_id (filter (\<lambda>d. df_user_id d = user_id) (db_drafts s)))
      in s\<lparr>db_draft_lines := filter (\<lambda>l. dl_draft_id l \<notin> owned) (db_draft_lines s),
           db_drafts := filter (\<lambda>d. df_user_id d \<noteq> user_id) (db_drafts s)\<rparr>)"

text \<open>The lines \<open>get_detail\<close> reads with the header.\<close>

definition draft_lines_of :: "db \<Rightarrow> uuid \<Rightarrow> draft_line list" where
  "draft_lines_of s i = sort_key dl_sequence (filter (\<lambda>l. dl_draft_id l = i) (db_draft_lines s))"

section \<open>The service\<close>

definition authenticated_user_id :: "env \<Rightarrow> exn + uuid" where
  "authenticated_user_id e = (case en_user_id e of None \<Rightarrow> Inl forbidden | Some u \<Rightarrow> Inr u)"

definition owned_draft :: "db \<Rightarrow> uuid \<Rightarrow> uuid \<Rightarrow> exn + draft_row" where
  "owned_draft s i user_id =
     (case draft_get_detail s i of
        None \<Rightarrow> Inl (not_found BOOKING_DRAFT_NOT_FOUND (CtxId i))
      | Some d \<Rightarrow> raise_if (df_user_id d \<noteq> user_id) (not_found BOOKING_DRAFT_NOT_FOUND (CtxId i)) (Inr d))"

definition line_of_command :: "draft_line_command \<Rightarrow> resolved_line" where
  "line_of_command l = \<lparr>ln_facility_id = dc_facility_id l, ln_start_at = dc_start_at l, ln_end_at = dc_end_at l, ln_sequence = dc_sequence l\<rparr>"

definition line_of_row :: "draft_line \<Rightarrow> resolved_line" where
  "line_of_row l = \<lparr>ln_facility_id = dl_facility_id l, ln_start_at = dl_start_at l, ln_end_at = dl_end_at l, ln_sequence = dl_sequence l\<rparr>"

definition resolve_and_validate_lines :: "env \<Rightarrow> draft_line_command list \<Rightarrow> exn + (resolved_line list \<times> date)" where
  "resolve_and_validate_lines e lines =
     raise_if (lines = []) (bad_request BOOKING_ROOMS_REQUIRED)
     (raise_if (int (length lines) > set_max_booking_lines (en_settings e)) (bad_request BOOKING_MAX_ROOMS)
       (let local_tz = set_facility_timezone (en_settings e); resolved_lines = map line_of_command lines
        in bindE (validate_booking_lines resolved_lines local_tz) (\<lambda>_.
             Inr (resolved_lines, wall_date (to_local local_tz (ln_start_at (hd resolved_lines)))))))"

text \<open>One row per line, each with an id of its own.\<close>

definition draft_line_rows :: "uuid \<Rightarrow> resolved_line list \<Rightarrow> db \<Rightarrow> draft_line list \<times> db" where
  "draft_line_rows draft_id lines s =
     (map (\<lambda>(k, l). \<lparr>dl_id = db_next_uuid s + int k, dl_draft_id = draft_id, dl_facility_id = ln_facility_id l,
                       dl_start_at = ln_start_at l, dl_end_at = ln_end_at l, dl_sequence = ln_sequence l\<rparr>) (enumerate 0 lines),
      s\<lparr>db_next_uuid := db_next_uuid s + int (length lines)\<rparr>)"

definition create_draft :: "draft_command \<Rightarrow> uuid handler" where
  "create_draft command e s =
     bindE (authenticated_user_id e) (\<lambda>user_id.
     bindE (resolve_and_validate_lines e (dc_lines command)) (\<lambda>(resolved_lines, draft_date).
     case fresh_uuid s of (draft_id, s1) \<Rightarrow>
     bindE (insert_draft \<lparr>df_id = draft_id, df_user_id = user_id, df_title = dc_title command, df_date = draft_date,
                          df_ministry_id = dc_ministry_id command\<rparr> s1) (\<lambda>s2.
     case draft_line_rows draft_id resolved_lines s2 of (rows, s3) \<Rightarrow>
     bindE (insert_draft_lines rows s3) (\<lambda>s4. Inr (draft_id, s4)))))"

definition line_is_closed :: "env \<Rightarrow> db \<Rightarrow> draft_line \<Rightarrow> bool \<times> bool" where
  "line_is_closed e s line =
     (let local_tz = set_facility_timezone (en_settings e);
          day = wall_date (to_local local_tz (dl_start_at line));
          templates = list_active_for_day s (dl_facility_id line) (weekday day)
      in (has_blackout_overlap s (dl_facility_id line) (dl_start_at line) (dl_end_at line) local_tz,
          \<not> member_interval_within_opening_hours (dl_start_at line) (dl_end_at line) templates local_tz))"

definition closed_conflict :: "draft_line \<Rightarrow> conflict_kind \<Rightarrow> booking_conflict" where
  "closed_conflict line kind =
     \<lparr>bc_facility_id = dl_facility_id line, bc_start_at = dl_start_at line, bc_end_at = dl_end_at line, bc_kind = kind,
      bc_ministry_name = None, bc_contact_display_name = None, bc_contact_email = None\<rparr>"

definition line_closed_conflicts :: "env \<Rightarrow> db \<Rightarrow> draft_line \<Rightarrow> booking_conflict list" where
  "line_closed_conflicts e s line =
     (case line_is_closed e s line of (is_blackout, outside_opening) \<Rightarrow>
       (if is_blackout then [closed_conflict line KBLACKOUT] else []) @
       (if outside_opening then [closed_conflict line KOPENING_HOURS] else []))"

definition line_result :: "env \<Rightarrow> db \<Rightarrow> draft_line \<Rightarrow> draft_line_result" where
  "line_result e s line =
     (case line_is_closed e s line of (is_blackout, outside_opening) \<Rightarrow>
       \<lparr>dv_facility_id = dl_facility_id line, dv_start_at = dl_start_at line, dv_end_at = dl_end_at line, dv_sequence = dl_sequence line,
        dv_is_available = (\<not> (has_confirmed_slot_overlap s (en_sql_now e) (dl_facility_id line) (dl_start_at line) (dl_end_at line) None \<or>
                              is_blackout \<or> outside_opening))\<rparr>)"

definition draft_context :: "db \<Rightarrow> draft_row \<Rightarrow> uuid \<Rightarrow> ministry_context option" where
  "draft_context s d user_id = (case df_ministry_id d of None \<Rightarrow> None | Some i \<Rightarrow> load_ministry_proposal_context s i user_id)"

definition draft_evaluation :: "env \<Rightarrow> db \<Rightarrow> draft_row \<Rightarrow> uuid \<Rightarrow> evaluation" where
  "draft_evaluation e s d user_id =
     evaluate_one_time_occupancy e s (map line_of_row (draft_lines_of s (df_id d))) (draft_context s d user_id) (en_now_utc e)
       (set_facility_timezone (en_settings e)) True (en_locale_id e)"

definition draft_quote_command :: "draft_row \<Rightarrow> resolved_line list \<Rightarrow> uuid \<Rightarrow> preview_quote_command" where
  "draft_quote_command d lines user_id =
     \<lparr>pq_booking_type = BT_ONE_TIME, pq_currency = ''CAD'', pq_as_of_date = None, pq_room_lines = map quote_line_of lines,
      pq_surcharge_codes = [], pq_ministry_id = df_ministry_id d, pq_booker_id = Some user_id\<rparr>"

definition get_draft :: "crypto \<Rightarrow> string \<Rightarrow> uuid \<Rightarrow> draft_result handler" where
  "get_draft c review_secret i e s =
     bindE (authenticated_user_id e) (\<lambda>user_id.
     bindE (owned_draft s i user_id) (\<lambda>d.
     let lines = draft_lines_of s (df_id d);
         resolved_lines = map line_of_row lines;
         context = draft_context s d user_id;
         evaluation = draft_evaluation e s d user_id;
         conflicts = ev_conflicts evaluation @ concat (map (line_closed_conflicts e s) lines)
     in bindE (preview_quote e s (draft_quote_command d resolved_lines user_id)) (\<lambda>quote.
        let is_confirmable = (resolved_lines \<noteq> [] \<and> conflicts = [] \<and> (df_ministry_id d = None \<or> context \<noteq> None));
            token = (if is_confirmable \<and> ev_impacts evaluation \<noteq> []
                     then Some (issue_override_review_token c review_secret user_id (df_ministry_id d)
                                 (one_time_proposal resolved_lines) (ev_impacts evaluation))
                     else None)
        in Inr (\<lparr>dr_draft = d, dr_lines = map (line_result e s) lines, dr_quote = quote, dr_is_confirmable = is_confirmable,
                 dr_conflicts = conflicts, dr_override_impacts = ev_impacts evaluation, dr_override_review_token = token\<rparr>, s))))"

definition update_draft :: "crypto \<Rightarrow> string \<Rightarrow> uuid \<Rightarrow> draft_command \<Rightarrow> draft_result handler" where
  "update_draft c review_secret i command e s =
     bindE (authenticated_user_id e) (\<lambda>user_id.
     bindE (owned_draft s i user_id) (\<lambda>_.
     bindE (resolve_and_validate_lines e (dc_lines command)) (\<lambda>(resolved_lines, draft_date).
     bindE (update_draft_header i (\<lambda>d. d\<lparr>df_title := dc_title command, df_date := draft_date, df_ministry_id := dc_ministry_id command\<rparr>) s) (\<lambda>s1.
     case draft_line_rows i resolved_lines s1 of (rows, s2) \<Rightarrow>
     bindE (replace_draft_lines i rows s2) (\<lambda>s3. get_draft c review_secret i e s3)))))"

definition delete_all_my_drafts :: "unit handler" where
  "delete_all_my_drafts e s = bindE (authenticated_user_id e) (\<lambda>user_id. Inr ((), delete_drafts_of user_id s))"

section \<open>When a write succeeds\<close>

lemma new_rows_written:
  assumes "foldl (new_rows i) (rs, ss, s) zs = (rs', ss', s')"
  shows "db_bookings s' = db_bookings s \<and> db_rooms s' = db_rooms s \<and>
    (\<forall>r\<in>set rs'. r \<in> set rs \<or> (\<exists>k l q. (l, q) \<in> set zs \<and> r = new_room_row k i l q)) \<and>
    (\<forall>sl\<in>set ss'. sl \<in> set ss \<or> (\<exists>k l q. (l, q) \<in> set zs \<and> sl = new_slot_row k i l))"
  using assms
proof (induction zs arbitrary: rs ss s)
  case (Cons z zs)
  obtain l q where z: "z = (l, q)" by (cases z)
  let ?rs = "rs @ [new_room_row (db_next_uuid s) i l q]" and ?ss = "ss @ [new_slot_row (db_next_uuid s + 1) i l]"
  let ?s = "s\<lparr>db_next_uuid := db_next_uuid s + 2\<rparr>"
  have "new_rows i (rs, ss, s) z = (?rs, ?ss, ?s)" by (simp add: new_rows_def z fresh_uuid_def)
  with Cons.prems have step: "foldl (new_rows i) (?rs, ?ss, ?s) zs = (rs', ss', s')" by simp
  from Cons.IH [OF step] show ?case by (simp add: z) blast
qed auto

lemma insert_with_rows_succeeds:
  assumes "booking_constraints s b" "\<forall>l\<in>set lines. ln_start_at l < ln_end_at l \<and> fk rm_id (db_rooms s) (Some (ln_facility_id l))"
  shows "isr (insert_with_rows b lines q s)"
proof -
  let ?s1 = "s\<lparr>db_bookings := db_bookings s @ [b]\<rparr>"
  obtain rs ss s2 where f: "foldl (new_rows (bk_id b)) ([], [], ?s1) (zip lines (qt_room_lines q)) = (rs, ss, s2)"
    by (metis prod_cases3)
  note w = new_rows_written [OF f]
  have own: "fk bk_id (db_bookings s2) (Some (bk_id b))" using w by (simp add: fk_def)
  have rooms: "list_all (room_line_constraints s2) rs"
    unfolding list_all_iff
  proof
    fix r assume "r \<in> set rs"
    with w obtain k l q' where "(l, q') \<in> set (zip lines (qt_room_lines q))" "r = new_room_row k (bk_id b) l q'" by auto
    with assms(2) own w show "room_line_constraints s2 r" by (auto simp: room_line_constraints_def new_room_row_def dest: set_zip_leftD)
  qed
  have slots: "list_all (slot_constraints (s2\<lparr>db_lines := x\<rparr>)) ss" for x
    unfolding list_all_iff
  proof
    fix sl assume "sl \<in> set ss"
    with w obtain k l q' where "(l, q') \<in> set (zip lines (qt_room_lines q))" "sl = new_slot_row k (bk_id b) l" by auto
    with assms(2) own w show "slot_constraints (s2\<lparr>db_lines := x\<rparr>) sl" by (auto simp: slot_constraints_def new_slot_row_def dest: set_zip_leftD)
  qed
  show ?thesis
    using assms(1) rooms slots
    by (simp add: insert_with_rows_def insert_booking_def f replace_booking_rooms_def replace_booking_slots_def isr_def)
qed

lemma valid_lines_constraints:
  assumes "validate_booking_lines lines tz = Inr u" "lines \<noteq> []"
  shows "fst (envelope_interval lines) < snd (envelope_interval lines)" "\<forall>l\<in>set lines. ln_start_at l < ln_end_at l"
proof -
  show len: "\<forall>l\<in>set lines. ln_start_at l < ln_end_at l" using assms(1) by (simp add: validate_booking_lines_Inr)
  obtain l where l: "l \<in> set lines" using assms(2) by (cases lines) auto
  from envelope_contains [OF l] len l show "fst (envelope_interval lines) < snd (envelope_interval lines)" by force
qed

section \<open>A draft and the Booking it describes\<close>

definition booking_of_draft :: "draft_row \<Rightarrow> draft_line list \<Rightarrow> string option \<Rightarrow> create_booking_command" where
  "booking_of_draft d lines token =
     \<lparr>cb_title = None, cb_start_at = 0, cb_end_at = 0, cb_ministry_id = df_ministry_id d, cb_user_id = None,
      cb_rooms = map (\<lambda>l. \<lparr>rc_facility_id = dl_facility_id l, rc_start_at = Some (dl_start_at l),
                            rc_end_at = Some (dl_end_at l), rc_sequence = dl_sequence l\<rparr>) lines,
      cb_surcharge_codes = [], cb_remark = None, cb_booking_draft_id = Some (df_id d), cb_enforce_opening_hours = True,
      cb_allow_priority_override = True, cb_override_review_token = token\<rparr>"

lemma booking_of_draft_simps [simp]:
  "cb_title (booking_of_draft d lines tok) = None" "cb_ministry_id (booking_of_draft d lines tok) = df_ministry_id d"
  "cb_user_id (booking_of_draft d lines tok) = None" "cb_surcharge_codes (booking_of_draft d lines tok) = []"
  "cb_booking_draft_id (booking_of_draft d lines tok) = Some (df_id d)"
  "cb_enforce_opening_hours (booking_of_draft d lines tok)" "cb_allow_priority_override (booking_of_draft d lines tok)"
  "cb_override_review_token (booking_of_draft d lines tok) = tok"
  "length (cb_rooms (booking_of_draft d lines tok)) = length lines"
  "cb_rooms (booking_of_draft d lines tok) = [] \<longleftrightarrow> lines = []"
  by (simp_all add: booking_of_draft_def)

lemma resolved_of_draft: "resolve_booking_lines (cb_rooms (booking_of_draft d lines tok)) a b = map line_of_row lines"
  by (simp add: booking_of_draft_def resolve_booking_lines_def line_of_row_def)

lemma proposal_of_draft:
  "proposal_lines (booking_of_draft d lines tok) = map line_of_row lines"
  "proposal_context s (booking_of_draft d lines tok) u = draft_context s d u"
  "proposal_quote_command (booking_of_draft d lines tok) u = draft_quote_command d (map line_of_row lines) u"
  by (simp_all add: proposal_lines_def resolved_of_draft proposal_context_def draft_context_def proposal_quote_command_def
      draft_quote_command_def)

lemma proposal_evaluation_of_draft:
  "proposal_evaluation e s (booking_of_draft d (draft_lines_of s (df_id d)) tok) u = draft_evaluation e s d u"
  by (simp add: proposal_evaluation_def draft_evaluation_def proposal_of_draft)

lemma line_open_iff:
  "raise_if_room_closed s (ln_facility_id (line_of_row l)) (ln_start_at (line_of_row l)) (ln_end_at (line_of_row l))
     (set_facility_timezone (en_settings e)) True = Inr () \<longleftrightarrow> line_closed_conflicts e s l = []"
  by (simp add: raise_if_room_closed_def line_of_row_def line_closed_conflicts_def line_is_closed_def
      raise_if_outside_opening_hours_def Let_def guard_simps)

lemma lines_open_iff:
  "forE (\<lambda>line. raise_if_room_closed s (ln_facility_id line) (ln_start_at line) (ln_end_at line)
      (set_facility_timezone (en_settings e)) True) (map line_of_row lines) = Inr () \<longleftrightarrow>
   concat (map (line_closed_conflicts e s) lines) = []"
  by (simp add: forE_Inr_iff line_open_iff)

definition ministry_kept :: "db \<Rightarrow> uuid option \<Rightarrow> bool" where
  "ministry_kept s ministry_id \<longleftrightarrow> (\<forall>i\<in>set_option ministry_id. \<forall>m\<in>set_option (find_ministry s i). \<not> mi_is_deleted m)"

lemma kept_status:
  assumes "ministry_kept s (Some i)" shows "ministry_get_status s i = map_option mi_status (find_ministry s i)"
proof -
  have "(List.find (\<lambda>m. mi_id m = i \<and> \<not> mi_is_deleted m) xs) = (List.find (\<lambda>m. mi_id m = i) xs)"
    if "\<forall>m\<in>set_option (List.find (\<lambda>m. mi_id m = i) xs). \<not> mi_is_deleted m" for xs
    using that by (induction xs) auto
  from this [of "db_ministries s"] assms show ?thesis
    by (simp add: ministry_kept_def ministry_get_status_def find_ministry_def option.set_map del: Set.ball_simps)
qed

lemma gate_iff:
  assumes "ministry_kept s (df_ministry_id d)"
  shows "validate_ministry_booking_gate e s (df_ministry_id d) (Some u) = Inr () \<longleftrightarrow> df_ministry_id d = None \<or> draft_context s d u \<noteq> None"
proof (cases "df_ministry_id d")
  case (Some i)
  with kept_status [of s i] assms show ?thesis
    by (cases "find_ministry s i")
       (auto simp: validate_ministry_booking_gate_def draft_context_def load_ministry_proposal_context_def guard_simps split: prod.splits)
qed (simp add: validate_ministry_booking_gate_def)

lemma get_draft_Inr:
  assumes "get_draft c secret i e s = Inr (r, s0)"
  obtains u q where "en_user_id e = Some u" "draft_get_detail s i = Some (dr_draft r)" "df_user_id (dr_draft r) = u" "s0 = s"
    "preview_quote e s (draft_quote_command (dr_draft r) (map line_of_row (draft_lines_of s i)) u) = Inr q"
    "df_id (dr_draft r) = i" "dr_override_impacts r = ev_impacts (draft_evaluation e s (dr_draft r) u)"
    "dr_is_confirmable r \<longleftrightarrow> draft_lines_of s i \<noteq> [] \<and> ev_conflicts (draft_evaluation e s (dr_draft r) u) = [] \<and>
       concat (map (line_closed_conflicts e s) (draft_lines_of s i)) = [] \<and>
       (df_ministry_id (dr_draft r) = None \<or> draft_context s (dr_draft r) u \<noteq> None)"
    "dr_is_confirmable r \<and> dr_override_impacts r \<noteq> [] \<longrightarrow> dr_override_review_token r =
       Some (issue_override_review_token c secret u (df_ministry_id (dr_draft r))
         (one_time_proposal (map line_of_row (draft_lines_of s i))) (dr_override_impacts r))"
proof -
  obtain u d where u: "en_user_id e = Some u" and d: "draft_get_detail s i = Some d" "df_user_id d = u"
    using assms by (auto simp: get_draft_def authenticated_user_id_def owned_draft_def guard_simps split: option.splits)
  have i: "df_id d = i" using d(1) by (auto simp: draft_get_detail_def dest: find_Some_set)
  have o: "owned_draft s i u = Inr d" using d by (simp add: owned_draft_def)
  note g = assms [unfolded get_draft_def authenticated_user_id_def u option.case bindE_Inr o Let_def i]
  obtain q where q: "preview_quote e s (draft_quote_command d (map line_of_row (draft_lines_of s i)) u) = Inr q"
    using g by (auto simp: guard_simps)
  have r: "dr_draft r = d" "s0 = s" "dr_override_impacts r = ev_impacts (draft_evaluation e s d u)"
    using g by (auto simp: q)
  have conf: "dr_is_confirmable r \<longleftrightarrow> draft_lines_of s i \<noteq> [] \<and> ev_conflicts (draft_evaluation e s d u) = [] \<and>
      concat (map (line_closed_conflicts e s) (draft_lines_of s i)) = [] \<and> (df_ministry_id d = None \<or> draft_context s d u \<noteq> None)"
    using g by (auto simp: q)
  have token: "dr_is_confirmable r \<and> dr_override_impacts r \<noteq> [] \<longrightarrow> dr_override_review_token r =
       Some (issue_override_review_token c secret u (df_ministry_id d)
         (one_time_proposal (map line_of_row (draft_lines_of s i))) (dr_override_impacts r))"
    using g by (auto simp: q)
  show ?thesis
    by (rule that [of u q]) (simp_all only: r(1), simp_all add: u d i q r conf token)
qed

section \<open>What a stored draft guarantees\<close>

text \<open>The constraints of the two draft tables and the validation every write of a draft has passed.\<close>

definition draft_sound :: "env \<Rightarrow> db \<Rightarrow> uuid \<Rightarrow> bool" where
  "draft_sound e s i \<longleftrightarrow>
     (case draft_get_detail s i of None \<Rightarrow> False | Some d \<Rightarrow> draft_constraints s d \<and> df_title d \<noteq> []) \<and>
     list_all (draft_line_constraints s) (draft_lines_of s i) \<and>
     int (length (draft_lines_of s i)) \<le> set_max_booking_lines (en_settings e) \<and>
     validate_booking_lines (map line_of_row (draft_lines_of s i)) (set_facility_timezone (en_settings e)) = Inr ()"

lemma draft_booking_writable:
  assumes "draft_sound e s i" "draft_get_detail s i = Some d" "draft_lines_of s i \<noteq> []" "df_user_id d = u"
  defines "lines \<equiv> map line_of_row (draft_lines_of s i)"
  shows "isr (insert_with_rows (new_booking e (booking_of_draft d (draft_lines_of s i) tok) u (df_title d) lines q j) lines q
     (s\<lparr>db_next_uuid := n\<rparr>))"
proof (rule insert_with_rows_succeeds)
  have sound: "draft_constraints s d" "\<forall>l\<in>set (draft_lines_of s i). draft_line_constraints s l" "lines \<noteq> []"
    using assms(1,2,3) by (simp_all add: draft_sound_def lines_def list_all_iff)
  have valid: "validate_booking_lines lines (set_facility_timezone (en_settings e)) = Inr ()"
    using assms(1) by (simp add: draft_sound_def lines_def)
  note ok = valid_lines_constraints [OF valid sound(3)]
  have rooms: "\<forall>l\<in>set lines. fk rm_id (db_rooms s) (Some (ln_facility_id l))"
    using sound(2) by (auto simp: lines_def draft_line_constraints_def line_of_row_def)
  have "\<exists>l\<in>set lines. primary_facility_id lines = ln_facility_id l"
    using primary_facility_mem [OF sound(3)] by auto
  with rooms have "fk rm_id (db_rooms s) (Some (primary_facility_id lines))" by auto
  with sound(1) ok(1) assms(4)
  show "booking_constraints (s\<lparr>db_next_uuid := n\<rparr>) (new_booking e (booking_of_draft d (draft_lines_of s i) tok) u (df_title d) lines q j)"
    by (simp add: booking_constraints_def new_booking_def draft_constraints_def fk_def)
  from ok(2) rooms show "\<forall>l\<in>set lines. ln_start_at l < ln_end_at l \<and> fk rm_id (db_rooms (s\<lparr>db_next_uuid := n\<rparr>)) (Some (ln_facility_id l))"
    by simp
qed

lemma draft_deleted: "draft_get_detail (draft_delete s i) i = None"
  by (auto simp: draft_get_detail_def draft_delete_def find_None_iff)

lemma confirmable_draft_created:
  assumes g: "get_draft c secret i e s = Inr (r, s0)" and sound: "draft_sound e s i"
    and kept: "ministry_kept s (df_ministry_id (dr_draft r))" and conf: "dr_is_confirmable r" and u: "en_user_id e = Some u"
    and reviewed: "require_reviewed_override c secret tok u (df_ministry_id (dr_draft r))
       (one_time_proposal (map line_of_row (draft_lines_of s i))) (dr_override_impacts r) = Inr ()"
  shows "\<exists>j s'. create_booking c secret (booking_of_draft (dr_draft r) (draft_lines_of s i) tok) e s = Inr (j, s') \<and> draft_get_detail s' i = None"
proof -
  let ?d = "dr_draft r" and ?lines = "map line_of_row (draft_lines_of s i)" and ?tz = "set_facility_timezone (en_settings e)"
  obtain q where d: "draft_get_detail s i = Some ?d" "df_user_id ?d = u" "s0 = s" "df_id ?d = i"
    and q: "preview_quote e s (draft_quote_command ?d ?lines u) = Inr q"
    and im: "dr_override_impacts r = ev_impacts (draft_evaluation e s ?d u)"
    and ok: "draft_lines_of s i \<noteq> []" "ev_conflicts (draft_evaluation e s ?d u) = []"
      "concat (map (line_closed_conflicts e s) (draft_lines_of s i)) = []" "df_ministry_id ?d = None \<or> draft_context s ?d u \<noteq> None"
    using get_draft_Inr [OF g] u conf by (metis option.inject)
  have snd: "df_title ?d \<noteq> []" "int (length (draft_lines_of s i)) \<le> set_max_booking_lines (en_settings e)"
    "validate_booking_lines ?lines ?tz = Inr ()" using sound d(1) by (simp_all add: draft_sound_def)
  let ?b = "new_booking e (booking_of_draft ?d (draft_lines_of s i) tok) u (df_title ?d) ?lines q (db_next_uuid s)"
  obtain s1 where s1: "insert_with_rows ?b ?lines q (s\<lparr>db_next_uuid := db_next_uuid s + 1\<rparr>) = Inr s1"
    using draft_booking_writable [OF sound d(1) ok(1) d(2)] by (fastforce simp: isr_def split: sum.splits)
  have own: "draft_title (Some ?d) u None = Some (df_title ?d)" using d(2) snd(1) by (simp add: draft_title_def)
  have gate: "validate_ministry_booking_gate e s (df_ministry_id ?d) (Some u) = Inr ()" using gate_iff [OF kept] ok(4) by simp
  have opn: "forE (\<lambda>line. raise_if_room_closed s (ln_facility_id line) (ln_start_at line) (ln_end_at line) ?tz True) ?lines = Inr ()"
    using lines_open_iff ok(3) by simp
  have ev: "evaluate_one_time_occupancy e s ?lines (draft_context s ?d u) (en_now_utc e) ?tz True (en_locale_id e) = draft_evaluation e s ?d u"
    by (simp add: draft_evaluation_def d(4))
  show ?thesis
    using snd ok reviewed
    by (simp add: create_booking_def u booker_of_def d own gate raise_if_too_many_booking_lines_def resolved_of_draft
        draft_context_def [symmetric] ev opn im q [unfolded draft_quote_command_def] fresh_uuid_def s1 Let_def truthy_def
        delete_own_draft_def draft_deleted del: map_map)
qed

lemma created_draft_confirmable:
  assumes g: "get_draft c secret i e s = Inr (r, s0)" and kept: "ministry_kept s (df_ministry_id (dr_draft r))"
    and create: "create_booking c secret (booking_of_draft (dr_draft r) (draft_lines_of s i) tok) e s = Inr (j, s')"
  shows "dr_is_confirmable r"
proof -
  let ?d = "dr_draft r"
  obtain u q where u: "en_user_id e = Some u" and i: "df_id ?d = i"
    and conf: "dr_is_confirmable r \<longleftrightarrow> draft_lines_of s i \<noteq> [] \<and> ev_conflicts (draft_evaluation e s ?d u) = [] \<and>
       concat (map (line_closed_conflicts e s) (draft_lines_of s i)) = [] \<and> (df_ministry_id ?d = None \<or> draft_context s ?d u \<noteq> None)"
    using get_draft_Inr [OF g] by metis
  show ?thesis
    by (rule create_booking_Inr [OF create])
       (use gate_iff [OF kept] lines_open_iff proposal_evaluation_of_draft [of e s ?d] i in
          \<open>simp add: conf u booker_of_def proposal_of_draft\<close>)
qed

section \<open>What a write stores\<close>

text \<open>Identifiers of the draft tables come from the same supply as every other.\<close>

definition drafts_below :: "db \<Rightarrow> bool" where
  "drafts_below s \<longleftrightarrow> (\<forall>d\<in>set (db_drafts s). df_id d < db_next_uuid s) \<and> (\<forall>l\<in>set (db_draft_lines s). dl_draft_id l < db_next_uuid s)"

lemma line_of_rows: "map line_of_row (fst (draft_line_rows i lines s)) = lines"
  by (auto simp: draft_line_rows_def line_of_row_def enumerate_eq_zip intro!: nth_equalityI)

lemma draft_line_rows_props:
  assumes "draft_line_rows i lines s = (rows, s')"
  shows "map line_of_row rows = lines" "\<forall>l\<in>set rows. dl_draft_id l = i" "length rows = length lines"
    "s' = s\<lparr>db_next_uuid := db_next_uuid s + int (length lines)\<rparr>"
proof -
  have rows: "rows = fst (draft_line_rows i lines s)" using assms by simp
  show "map line_of_row rows = lines" using line_of_rows [of i lines s] by (simp add: rows)
  show "\<forall>l\<in>set rows. dl_draft_id l = i" "length rows = length lines" by (auto simp: rows draft_line_rows_def)
  show "s' = s\<lparr>db_next_uuid := db_next_uuid s + int (length lines)\<rparr>" using assms by (simp add: draft_line_rows_def)
qed

lemma insert_draft_lines_Inr [guard_simps]:
  "insert_draft_lines rows s = Inr s' \<longleftrightarrow> list_all (draft_line_constraints s) rows \<and> s' = s\<lparr>db_draft_lines := db_draft_lines s @ rows\<rparr>"
  by (auto simp: insert_draft_lines_def guard_simps)

lemma create_draft_Inr:
  assumes "create_draft command e s = Inr (i, s')"
  obtains u lines day rows where "en_user_id e = Some u" "resolve_and_validate_lines e (dc_lines command) = Inr (lines, day)"
    "i = db_next_uuid s" "map line_of_row rows = lines" "\<forall>l\<in>set rows. dl_draft_id l = i"
    "s' = s\<lparr>db_next_uuid := db_next_uuid s + 1 + int (length lines),
            db_drafts := db_drafts s @ [\<lparr>df_id = i, df_user_id = u, df_title = dc_title command, df_date = day, df_ministry_id = dc_ministry_id command\<rparr>],
            db_draft_lines := db_draft_lines s @ rows\<rparr>"
    "draft_constraints s \<lparr>df_id = i, df_user_id = u, df_title = dc_title command, df_date = day, df_ministry_id = dc_ministry_id command\<rparr>"
    "list_all (draft_line_constraints s') rows"
proof -
  obtain u where u: "en_user_id e = Some u" using assms by (auto simp: create_draft_def authenticated_user_id_def split: option.splits)
  obtain lines day where v: "resolve_and_validate_lines e (dc_lines command) = Inr (lines, day)"
    using assms by (auto simp: create_draft_def guard_simps)
  let ?d = "\<lparr>df_id = db_next_uuid s, df_user_id = u, df_title = dc_title command, df_date = day, df_ministry_id = dc_ministry_id command\<rparr>"
  let ?s2 = "s\<lparr>db_next_uuid := db_next_uuid s + 1, db_drafts := db_drafts s @ [?d]\<rparr>"
  obtain rows s3 where r: "draft_line_rows (db_next_uuid s) lines ?s2 = (rows, s3)" by fastforce
  note p = draft_line_rows_props [OF r]
  have c: "draft_constraints s ?d" "list_all (draft_line_constraints s3) rows" "i = db_next_uuid s" "s' = s3\<lparr>db_draft_lines := db_draft_lines s3 @ rows\<rparr>"
    using assms by (auto simp: create_draft_def guard_simps u v authenticated_user_id_def insert_draft_def fresh_uuid_def r draft_constraints_def fk_def split: option.splits)
  show ?thesis
    by (rule that [OF u v c(3) p(1), of]) (use p c in \<open>auto simp: draft_line_constraints_def list_all_iff\<close>)
qed

lemma resolve_and_validate_lines_Inr:
  "resolve_and_validate_lines e lines = Inr (rs, day) \<longleftrightarrow>
     lines \<noteq> [] \<and> int (length lines) \<le> set_max_booking_lines (en_settings e) \<and> rs = map line_of_command lines \<and>
     validate_booking_lines rs (set_facility_timezone (en_settings e)) = Inr () \<and>
     day = wall_date (to_local (set_facility_timezone (en_settings e)) (dc_start_at (hd lines)))"
  by (cases lines) (auto simp: resolve_and_validate_lines_def guard_simps Let_def line_of_command_def)

lemma validate_booking_lines_perm:
  assumes "mset xs = mset ys" shows "validate_booking_lines xs tz = Inr () \<longleftrightarrow> validate_booking_lines ys tz = Inr ()"
proof -
  have "distinct (map line_key xs) \<longleftrightarrow> distinct (map line_key ys)"
    by (rule mset_eq_imp_distinct_iff) (simp add: assms)
  with mset_eq_setD [OF assms] show ?thesis by (simp add: validate_booking_lines_Inr)
qed

lemma map_insort_key: "map f (insort_key (\<lambda>x. g (f x)) x xs) = insort_key g (f x) (map f xs)"
  by (induction xs) auto

lemma map_sort_key: "map f (sort_key (\<lambda>x. g (f x)) xs) = sort_key g (map f xs)"
  by (induction xs) (simp_all add: map_insort_key)

text \<open>The draft \<open>i\<close> of the caller as a command describes it, the lines by sequence.\<close>

definition stored_as :: "draft_command \<Rightarrow> env \<Rightarrow> db \<Rightarrow> uuid \<Rightarrow> bool" where
  "stored_as command e s i \<longleftrightarrow>
     (case draft_get_detail s i of None \<Rightarrow> False
      | Some d \<Rightarrow> en_user_id e = Some (df_user_id d) \<and> df_title d = dc_title command \<and> df_ministry_id d = dc_ministry_id command \<and>
          df_date d = wall_date (to_local (set_facility_timezone (en_settings e)) (dc_start_at (hd (dc_lines command))))) \<and>
     map line_of_row (draft_lines_of s i) = sort_key ln_sequence (map line_of_command (dc_lines command))"

lemma sorted_lines: "map line_of_row (sort_key dl_sequence rows) = sort_key ln_sequence (map line_of_row rows)"
  using map_sort_key [of line_of_row ln_sequence rows] by (simp add: line_of_row_def)

lemma stored_lines_sound:
  assumes "resolve_and_validate_lines e (dc_lines command) = Inr (lines, day)" "map line_of_row rows = lines"
    "draft_lines_of s i = sort_key dl_sequence rows" "list_all (draft_line_constraints s) rows"
    "draft_get_detail s i = Some d" "draft_constraints s d" "df_title d \<noteq> []"
  shows "draft_sound e s i"
proof -
  have "length rows = length (dc_lines command)" using assms(1,2) by (auto simp: resolve_and_validate_lines_Inr dest: arg_cong [of _ _ length])
  moreover have "validate_booking_lines (sort_key ln_sequence lines) tz = Inr () \<longleftrightarrow> validate_booking_lines lines tz = Inr ()" for tz
    by (rule validate_booking_lines_perm) simp
  ultimately show ?thesis
    using assms by (clarsimp simp: draft_sound_def sorted_lines resolve_and_validate_lines_Inr list_all_iff)
qed

lemma created_draft_stored:
  assumes "create_draft command e s = Inr (i, s')" "drafts_below s"
  shows "stored_as command e s' i" "dc_title command \<noteq> [] \<Longrightarrow> draft_sound e s' i"
proof -
  obtain u lines day rows where p: "en_user_id e = Some u" "resolve_and_validate_lines e (dc_lines command) = Inr (lines, day)"
    "i = db_next_uuid s" "map line_of_row rows = lines" "\<forall>l\<in>set rows. dl_draft_id l = i"
    "s' = s\<lparr>db_next_uuid := db_next_uuid s + 1 + int (length lines),
            db_drafts := db_drafts s @ [\<lparr>df_id = i, df_user_id = u, df_title = dc_title command, df_date = day, df_ministry_id = dc_ministry_id command\<rparr>],
            db_draft_lines := db_draft_lines s @ rows\<rparr>"
    "draft_constraints s \<lparr>df_id = i, df_user_id = u, df_title = dc_title command, df_date = day, df_ministry_id = dc_ministry_id command\<rparr>"
    "list_all (draft_line_constraints s') rows"
    by (rule create_draft_Inr [OF assms(1)])
  have none: "List.find (\<lambda>d. df_id d = i) (db_drafts s) = None" "filter (\<lambda>l. dl_draft_id l = i) (db_draft_lines s) = []"
    using assms(2) p(3) by (auto simp: find_None_iff drafts_below_def filter_empty_conv)
  let ?d = "\<lparr>df_id = i, df_user_id = u, df_title = dc_title command, df_date = day, df_ministry_id = dc_ministry_id command\<rparr>"
  have d: "draft_get_detail s' i = Some ?d" using none by (simp add: draft_get_detail_def p(6) find_append)
  have l: "draft_lines_of s' i = sort_key dl_sequence rows" using none p(5) by (simp add: draft_lines_of_def p(6) filter_True)
  show "stored_as command e s' i" using p(1,2,4) by (simp add: stored_as_def d l sorted_lines resolve_and_validate_lines_Inr)
  have "draft_constraints s' ?d" using p(7) by (simp add: draft_constraints_def p(6))
  then show "draft_sound e s' i" if "dc_title command \<noteq> []" using that by (intro stored_lines_sound [OF p(2,4) l p(8) d]) simp_all
qed

lemma update_draft_Inr:
  assumes "update_draft c secret i command e s = Inr (r, s')"
  obtains u lines day rows d where "en_user_id e = Some u" "resolve_and_validate_lines e (dc_lines command) = Inr (lines, day)"
    "draft_get_detail s i = Some d" "df_user_id d = u"
    "map line_of_row rows = lines" "\<forall>l\<in>set rows. dl_draft_id l = i"
    "s' = s\<lparr>db_next_uuid := db_next_uuid s + int (length lines),
            db_drafts := update_where (\<lambda>d. df_id d = i) (\<lambda>d. d\<lparr>df_title := dc_title command, df_date := day, df_ministry_id := dc_ministry_id command\<rparr>) (db_drafts s),
            db_draft_lines := filter (\<lambda>l. dl_draft_id l \<noteq> i) (db_draft_lines s) @ rows\<rparr>"
    "list_all (\<lambda>d. df_id d = i \<longrightarrow> draft_constraints s d) (db_drafts s')" "list_all (draft_line_constraints s') rows"
    "get_draft c secret i e s' = Inr (r, s')"
proof -
  obtain u where u: "en_user_id e = Some u" using assms by (auto simp: update_draft_def authenticated_user_id_def split: option.splits)
  obtain lines day where v: "resolve_and_validate_lines e (dc_lines command) = Inr (lines, day)"
    using assms by (auto simp: update_draft_def guard_simps)
  obtain d where d: "draft_get_detail s i = Some d" "df_user_id d = u"
    using assms by (auto simp: update_draft_def guard_simps u authenticated_user_id_def owned_draft_def split: option.splits)
  let ?ds = "update_where (\<lambda>d. df_id d = i) (\<lambda>d. d\<lparr>df_title := dc_title command, df_date := day, df_ministry_id := dc_ministry_id command\<rparr>) (db_drafts s)"
  obtain rows s2 where r: "draft_line_rows i lines (s\<lparr>db_drafts := ?ds\<rparr>) = (rows, s2)" by fastforce
  note p = draft_line_rows_props [OF r]
  obtain s3 where s3: "replace_draft_lines i rows s2 = Inr s3" "get_draft c secret i e s3 = Inr (r, s')" "list_all (\<lambda>d. df_id d = i \<longrightarrow> draft_constraints s d) ?ds"
    using assms by (auto simp: update_draft_def guard_simps u v authenticated_user_id_def update_draft_header_def Let_def r)
  have same: "s' = s3" using get_draft_Inr [OF s3(2)] by metis
  show ?thesis
    by (rule that [OF u v d p(1,2)])
       (use s3 p(4) in \<open>auto simp: same replace_draft_lines_def guard_simps draft_line_constraints_def list_all_iff\<close>)
qed

lemma updated_draft_stored:
  assumes "update_draft c secret i command e s = Inr (r, s')"
  shows "stored_as command e s' i" "dc_title command \<noteq> [] \<Longrightarrow> draft_sound e s' i"
proof -
  obtain u lines day rows d where p: "en_user_id e = Some u" "resolve_and_validate_lines e (dc_lines command) = Inr (lines, day)"
    "draft_get_detail s i = Some d" "df_user_id d = u"
    "map line_of_row rows = lines" "\<forall>l\<in>set rows. dl_draft_id l = i"
    "s' = s\<lparr>db_next_uuid := db_next_uuid s + int (length lines),
            db_drafts := update_where (\<lambda>d. df_id d = i) (\<lambda>d. d\<lparr>df_title := dc_title command, df_date := day, df_ministry_id := dc_ministry_id command\<rparr>) (db_drafts s),
            db_draft_lines := filter (\<lambda>l. dl_draft_id l \<noteq> i) (db_draft_lines s) @ rows\<rparr>"
    "list_all (\<lambda>d. df_id d = i \<longrightarrow> draft_constraints s d) (db_drafts s')" "list_all (draft_line_constraints s') rows"
    by (rule update_draft_Inr [OF assms])
  let ?f = "\<lambda>d::draft_row. d\<lparr>df_title := dc_title command, df_date := day, df_ministry_id := dc_ministry_id command\<rparr>"
  have "List.find (\<lambda>d. df_id d = i) (update_where (\<lambda>d. df_id d = i) ?f xs) = map_option ?f (List.find (\<lambda>d. df_id d = i) xs)" for xs
    by (induction xs) (simp_all add: update_where_def)
  then have d: "draft_get_detail s' i = Some (?f d)" using p(3) by (simp add: draft_get_detail_def p(7))
  have l: "draft_lines_of s' i = sort_key dl_sequence rows" using p(6) by (simp add: draft_lines_of_def p(7) filter_True)
  show "stored_as command e s' i" using p(1,2,4,5) by (simp add: stored_as_def d l sorted_lines resolve_and_validate_lines_Inr)
  have "?f d \<in> set (db_drafts s')" "df_id (?f d) = i" using d by (auto simp: draft_get_detail_def dest: find_Some_set)
  with p(8) have "draft_constraints s (?f d)" by (simp add: list_all_iff)
  then have "draft_constraints s' (?f d)" by (simp add: draft_constraints_def p(7))
  then show "draft_sound e s' i" if "dc_title command \<noteq> []" using that by (intro stored_lines_sound [OF p(2,5) l p(9) d]) simp_all
qed

lemma draft_writes_only_drafts:
  "create_draft command e s = Inr (i, s') \<Longrightarrow> s' = s\<lparr>db_next_uuid := db_next_uuid s', db_drafts := db_drafts s', db_draft_lines := db_draft_lines s'\<rparr>"
  "update_draft c secret i command e s = Inr (r, s') \<Longrightarrow>
     s' = s\<lparr>db_next_uuid := db_next_uuid s', db_drafts := db_drafts s', db_draft_lines := db_draft_lines s'\<rparr>"
  "delete_all_my_drafts e s = Inr (v, s') \<Longrightarrow> s' = s\<lparr>db_drafts := db_drafts s', db_draft_lines := db_draft_lines s'\<rparr>"
proof -
  show "create_draft command e s = Inr (i, s') \<Longrightarrow> s' = s\<lparr>db_next_uuid := db_next_uuid s', db_drafts := db_drafts s', db_draft_lines := db_draft_lines s'\<rparr>"
    by (erule create_draft_Inr) simp
  show "update_draft c secret i command e s = Inr (r, s') \<Longrightarrow>
     s' = s\<lparr>db_next_uuid := db_next_uuid s', db_drafts := db_drafts s', db_draft_lines := db_draft_lines s'\<rparr>"
    by (erule update_draft_Inr) simp
  show "delete_all_my_drafts e s = Inr (v, s') \<Longrightarrow> s' = s\<lparr>db_drafts := db_drafts s', db_draft_lines := db_draft_lines s'\<rparr>"
    by (auto simp: delete_all_my_drafts_def guard_simps delete_drafts_of_def Let_def)
qed

text \<open>The drafts of everybody else, headers and lines.\<close>

definition foreign_drafts :: "uuid \<Rightarrow> db \<Rightarrow> (draft_row \<times> draft_line list) list" where
  "foreign_drafts u s = map (\<lambda>d. (d, draft_lines_of s (df_id d))) (filter (\<lambda>d. df_user_id d \<noteq> u) (db_drafts s))"

definition draft_ids_unique :: "db \<Rightarrow> bool" where
  "draft_ids_unique s \<longleftrightarrow> distinct (map df_id (db_drafts s))"

lemma draft_ids_owner:
  "draft_ids_unique s \<Longrightarrow> d \<in> set (db_drafts s) \<Longrightarrow> d' \<in> set (db_drafts s) \<Longrightarrow> df_id d = df_id d' \<Longrightarrow> d = d'"
  by (auto simp: draft_ids_unique_def distinct_map inj_on_def)

lemma foreign_drafts_cong:
  assumes "filter (\<lambda>d. df_user_id d \<noteq> u) (db_drafts s') = filter (\<lambda>d. df_user_id d \<noteq> u) (db_drafts s)"
    "\<And>d. d \<in> set (db_drafts s) \<Longrightarrow> df_user_id d \<noteq> u \<Longrightarrow> draft_lines_of s' (df_id d) = draft_lines_of s (df_id d)"
  shows "foreign_drafts u s' = foreign_drafts u s"
  using assms by (simp add: foreign_drafts_def)

lemma create_draft_private:
  assumes "create_draft command e s = Inr (i, s')" "drafts_below s" "en_user_id e = Some u"
  shows "foreign_drafts u s' = foreign_drafts u s"
proof (rule create_draft_Inr [OF assms(1)])
  fix u' lines day rows
  assume p: "en_user_id e = Some u'" "i = db_next_uuid s" "\<forall>l\<in>set rows. dl_draft_id l = i"
    "s' = s\<lparr>db_next_uuid := db_next_uuid s + 1 + int (length lines),
            db_drafts := db_drafts s @ [\<lparr>df_id = i, df_user_id = u', df_title = dc_title command, df_date = day, df_ministry_id = dc_ministry_id command\<rparr>],
            db_draft_lines := db_draft_lines s @ rows\<rparr>"
  have "filter (\<lambda>l. dl_draft_id l = df_id d) rows = []" if "d \<in> set (db_drafts s)" for d
    using that assms(2) p(2,3) by (fastforce simp: filter_empty_conv drafts_below_def)
  then show ?thesis using p(1) assms(3) by (intro foreign_drafts_cong) (simp_all add: p(4) draft_lines_of_def)
qed

lemma update_draft_private:
  assumes "update_draft c secret i command e s = Inr (r, s')" "draft_ids_unique s" "en_user_id e = Some u"
  shows "foreign_drafts u s' = foreign_drafts u s"
proof -
  obtain u' and lines :: "resolved_line list" and day rows d where p: "en_user_id e = Some u'" "draft_get_detail s i = Some d" "df_user_id d = u'"
    "\<forall>l\<in>set rows. dl_draft_id l = i"
    "s' = s\<lparr>db_next_uuid := db_next_uuid s + int (length lines),
            db_drafts := update_where (\<lambda>d. df_id d = i) (\<lambda>d. d\<lparr>df_title := dc_title command, df_date := day, df_ministry_id := dc_ministry_id command\<rparr>) (db_drafts s),
            db_draft_lines := filter (\<lambda>l. dl_draft_id l \<noteq> i) (db_draft_lines s) @ rows\<rparr>"
    by (rule update_draft_Inr [OF assms(1)]) (rule that; assumption)
  have d: "d \<in> set (db_drafts s)" "df_id d = i" using p(2) by (auto simp: draft_get_detail_def dest: find_Some_set)
  have own: "df_user_id d' = u" if "d' \<in> set (db_drafts s)" "df_id d' = i" for d'
    using draft_ids_owner [OF assms(2) that(1) d(1)] that(2) d(2) p(1,3) assms(3) by simp
  show ?thesis
  proof (rule foreign_drafts_cong)
    have "filter (\<lambda>d. df_user_id d \<noteq> u) (update_where (\<lambda>d. df_id d = i) f xs) = filter (\<lambda>d. df_user_id d \<noteq> u) xs"
      if "\<And>d. df_user_id (f d) = df_user_id d" "\<forall>d\<in>set xs. df_id d = i \<longrightarrow> df_user_id d = u" for f :: "draft_row \<Rightarrow> draft_row" and xs
      using that by (induction xs) (auto simp: update_where_def)
    with own show "filter (\<lambda>d. df_user_id d \<noteq> u) (db_drafts s') = filter (\<lambda>d. df_user_id d \<noteq> u) (db_drafts s)"
      by (simp add: p(5))
  next
    fix d' assume "d' \<in> set (db_drafts s)" "df_user_id d' \<noteq> u"
    with own have "df_id d' \<noteq> i" by blast
    with p(4) show "draft_lines_of s' (df_id d') = draft_lines_of s (df_id d')"
      by (auto simp: draft_lines_of_def p(5) filter_empty_conv intro!: arg_cong [of _ _ "sort_key dl_sequence"] filter_cong)
  qed
qed

lemma delete_drafts_private:
  assumes "delete_all_my_drafts e s = Inr (v, s')" "draft_ids_unique s" "en_user_id e = Some u"
  shows "foreign_drafts u s' = foreign_drafts u s" "\<forall>d\<in>set (db_drafts s'). df_user_id d \<noteq> u"
proof -
  have s': "s' = delete_drafts_of u s" using assms(1,3) by (simp add: delete_all_my_drafts_def authenticated_user_id_def)
  have "df_id d \<notin> set (map df_id (filter (\<lambda>d. df_user_id d = u) (db_drafts s)))" if "d \<in> set (db_drafts s)" "df_user_id d \<noteq> u" for d
    using draft_ids_owner [OF assms(2) that(1)] that(2) by fastforce
  moreover have "filter (\<lambda>l. dl_draft_id l = k) (filter (\<lambda>l. dl_draft_id l \<notin> X) ls) = filter (\<lambda>l. dl_draft_id l = k) ls" if "k \<notin> X" for k X and ls :: "draft_line list"
    using that by (induction ls) auto
  ultimately have "draft_lines_of s' (df_id d) = draft_lines_of s (df_id d)" if "d \<in> set (db_drafts s)" "df_user_id d \<noteq> u" for d
    unfolding s' delete_drafts_of_def Let_def draft_lines_of_def using that by (simp del: filter_filter)
  then show "foreign_drafts u s' = foreign_drafts u s"
    by (intro foreign_drafts_cong) (simp_all add: s' delete_drafts_of_def Let_def)
  show "\<forall>d\<in>set (db_drafts s'). df_user_id d \<noteq> u" by (simp add: s' delete_drafts_of_def Let_def)
qed

section \<open>Properties\<close>


text \<open>The steward plans the hall from 15:00 to 16:00 for the ministry, which displaces the member, and the chapel after it.\<close>

definition sample_draft :: draft_command where
  "sample_draft = \<lparr>dc_title = ''Rally'', dc_ministry_id = Some priority_ministry_id,
     dc_lines = [\<lparr>dc_facility_id = chapel_id, dc_start_at = moment 2026 6 1 16 0, dc_end_at = moment 2026 6 1 17 0, dc_sequence = 2\<rparr>,
                 \<lparr>dc_facility_id = hall_id, dc_start_at = moment 2026 6 1 15 0, dc_end_at = moment 2026 6 1 16 0, dc_sequence = 1\<rparr>]\<rparr>"

abbreviation draft_env :: env where "draft_env \<equiv> sample_env steward_id (moment 2026 5 1 0 0)"

lemma sample_draft_created:
  "inr_sat (create_draft sample_draft draft_env sample_taken)
     (\<lambda>(i, s1). i = 1000 \<and> inr_sat (get_draft short_crypto ''secret'' 1000 draft_env s1)
        (\<lambda>(r, _). dr_is_confirmable r \<and> length (dr_override_impacts r) = 1 \<and> df_ministry_id (dr_draft r) = Some priority_ministry_id))"
  by code_simp

lemma sample_drafts_below: "drafts_below sample_taken"
  by code_simp

lemma sample_ministries_kept: "ministry_kept sample_taken (Some priority_ministry_id)"
  unfolding ministry_kept_def by code_simp


text \<open>C35. A draft is stored as it was sent. After a creation or an update, the caller's draft has the submitted title and
  ministry, the day of its first line and the submitted lines by sequence; it satisfies every check a reading relies on,
  and nothing but the draft tables has changed.\<close>

theorem saved_draft_reads_back:
  assumes "drafts_below s \<and> create_draft command e s = Inr (i, s') \<or> (\<exists>r. update_draft c secret i command e s = Inr (r, s'))"
  shows "stored_as command e s' i \<and> (dc_title command \<noteq> [] \<longrightarrow> draft_sound e s' i) \<and>
    s' = s\<lparr>db_next_uuid := db_next_uuid s', db_drafts := db_drafts s', db_draft_lines := db_draft_lines s'\<rparr>"
  using assms
proof (elim disjE conjE exE)
  assume "drafts_below s" "create_draft command e s = Inr (i, s')"
  then show ?thesis by (intro conjI impI created_draft_stored draft_writes_only_drafts(1))
next
  fix r assume "update_draft c secret i command e s = Inr (r, s')"
  then show ?thesis by (intro conjI impI updated_draft_stored draft_writes_only_drafts(2))
qed

theorem saved_draft_reads_back_witness:
  "\<exists>s1. create_draft sample_draft draft_env sample_taken = Inr (1000, s1) \<and>
     map dl_facility_id (draft_lines_of s1 1000) = [hall_id, chapel_id]"
proof -
  obtain s1 where r: "create_draft sample_draft draft_env sample_taken = Inr (1000, s1)"
    using sample_draft_created unfolding inr_sat_eq by (auto split: prod.splits)
  have "stored_as sample_draft draft_env s1 1000"
    using saved_draft_reads_back [of sample_taken sample_draft draft_env 1000 s1] r sample_drafts_below by blast
  then have "map ln_facility_id (map line_of_row (draft_lines_of s1 1000)) = [hall_id, chapel_id]"
    unfolding stored_as_def by (simp only: conj_commute) (simp add: sample_draft_def line_of_command_def del: map_map)
  then show ?thesis using r by (simp add: comp_def line_of_row_def)
qed

end
