(* ===== verification/Series_Drafts.thy ===== *)
theory Series_Drafts imports Booking_Drafts begin

text \<open>
  Recurring Series Drafts (\<open>recurring_series_draft_service.py\<close>, \<open>recurring_series_draft_repository.py\<close>): stored proposals
  of a weekly series that hold no room, evaluated live on every read and turned into a series by confirmation.
\<close>

section \<open>Commands and results\<close>

text \<open>\<open>UpdateRecurringSeriesDraftCommand\<close> has the fields of the creation.\<close>

record series_draft_command =
  qc_title :: "string option"
  qc_ministry_id :: "uuid option"
  qc_first_occurrence_date :: date
  qc_last_occurrence_date :: date
  qc_local_start_time :: tod
  qc_local_end_time :: tod
  qc_rooms :: "room_line_command list"
  qc_surcharge_codes :: "string list"
  qc_remark :: "string option"
  qc_excluded_dates :: "date list"

text \<open>The stored proposal with its rooms, and what evaluating it found; \<open>is_mission_aligned\<close> of the answer is the quote's.\<close>

record series_draft_result =
  sv_draft :: series_draft
  sv_rooms :: "(uuid \<times> int) list"
  sv_evaluation :: proposal_result

section \<open>The repository\<close>

definition series_draft_constraints :: "db \<Rightarrow> series_draft \<Rightarrow> bool" where
  "series_draft_constraints s d \<longleftrightarrow>
     sd_first_occurrence_date d \<le> sd_last_occurrence_date d \<and> sd_local_start_time d < sd_local_end_time d \<and>
     (case sd_title d of None \<Rightarrow> True | Some t \<Rightarrow> title_length_ok t) \<and>
     fk us_id (db_users s) (Some (sd_user_id d)) \<and> fk mi_id (db_ministries s) (sd_ministry_id d)"

definition series_draft_room_constraints :: "db \<Rightarrow> series_draft_room \<Rightarrow> bool" where
  "series_draft_room_constraints s r \<longleftrightarrow>
     fk sd_id (db_series_drafts s) (Some (dm_series_draft_id r)) \<and> fk rm_id (db_rooms s) (Some (dm_facility_id r))"

definition insert_series_draft :: "series_draft \<Rightarrow> db \<Rightarrow> exn + db" where
  "insert_series_draft d s =
     raise_if (\<not> series_draft_constraints s d) integrity (Inr (s\<lparr>db_series_drafts := db_series_drafts s @ [d]\<rparr>))"

definition insert_series_draft_rooms :: "series_draft_room list \<Rightarrow> db \<Rightarrow> exn + db" where
  "insert_series_draft_rooms rows s =
     (if rows = [] then Inr s
      else raise_if (\<not> list_all (series_draft_room_constraints s) rows) integrity
        (Inr (s\<lparr>db_series_draft_rooms := db_series_draft_rooms s @ rows\<rparr>)))"

definition update_series_draft_header :: "uuid \<Rightarrow> (series_draft \<Rightarrow> series_draft) \<Rightarrow> db \<Rightarrow> exn + db" where
  "update_series_draft_header i f s =
     (let drafts = update_where (\<lambda>d. sd_id d = i) f (db_series_drafts s)
      in raise_if (\<not> list_all (\<lambda>d. sd_id d = i \<longrightarrow> series_draft_constraints s d) drafts) integrity
           (Inr (s\<lparr>db_series_drafts := drafts\<rparr>)))"

definition replace_series_draft_rooms :: "uuid \<Rightarrow> series_draft_room list \<Rightarrow> db \<Rightarrow> exn + db" where
  "replace_series_draft_rooms i rows s =
     insert_series_draft_rooms rows (s\<lparr>db_series_draft_rooms := filter (\<lambda>r. dm_series_draft_id r \<noteq> i) (db_series_draft_rooms s)\<rparr>)"

definition delete_series_draft :: "uuid \<Rightarrow> db \<Rightarrow> db" where
  "delete_series_draft i s =
     s\<lparr>db_series_draft_rooms := filter (\<lambda>r. dm_series_draft_id r \<noteq> i) (db_series_draft_rooms s),
       db_series_drafts := filter (\<lambda>d. sd_id d \<noteq> i) (db_series_drafts s)\<rparr>"

definition delete_series_drafts_of :: "uuid \<Rightarrow> db \<Rightarrow> db" where
  "delete_series_drafts_of user_id s =
     (let owned = set (map sd_id (filter (\<lambda>d. sd_user_id d = user_id) (db_series_drafts s)))
      in s\<lparr>db_series_draft_rooms := filter (\<lambda>r. dm_series_draft_id r \<notin> owned) (db_series_draft_rooms s),
           db_series_drafts := filter (\<lambda>d. sd_user_id d \<noteq> user_id) (db_series_drafts s)\<rparr>)"

definition series_draft_get_detail :: "db \<Rightarrow> uuid \<Rightarrow> series_draft option" where
  "series_draft_get_detail s i = List.find (\<lambda>d. sd_id d = i) (db_series_drafts s)"

definition series_draft_rooms_of :: "db \<Rightarrow> uuid \<Rightarrow> series_draft_room list" where
  "series_draft_rooms_of s i = sort_key dm_sequence (filter (\<lambda>r. dm_series_draft_id r = i) (db_series_draft_rooms s))"

section \<open>The service\<close>

definition owned_series_draft :: "db \<Rightarrow> uuid \<Rightarrow> uuid \<Rightarrow> exn + series_draft" where
  "owned_series_draft s i user_id =
     (case series_draft_get_detail s i of
        None \<Rightarrow> Inl (not_found BOOKING_SERIES_DRAFT_NOT_FOUND (CtxId i))
      | Some d \<Rightarrow> raise_if (sd_user_id d \<noteq> user_id) (not_found BOOKING_SERIES_DRAFT_NOT_FOUND (CtxId i)) (Inr d))"

definition to_series_command :: "series_draft_command \<Rightarrow> create_series_command" where
  "to_series_command command =
     \<lparr>cs_title = qc_title command, cs_user_id = None, cs_ministry_id = qc_ministry_id command,
      cs_first_occurrence_date = qc_first_occurrence_date command, cs_last_occurrence_date = qc_last_occurrence_date command,
      cs_local_start_time = qc_local_start_time command, cs_local_end_time = qc_local_end_time command,
      cs_rooms = qc_rooms command, cs_surcharge_codes = qc_surcharge_codes command, cs_remark = qc_remark command,
      cs_excluded_dates = qc_excluded_dates command, cs_enforce_opening_hours = True, cs_require_override_review = True,
      cs_override_review_token = None\<rparr>"

definition stored_to_series_command :: "series_draft \<Rightarrow> series_draft_room list \<Rightarrow> create_series_command" where
  "stored_to_series_command d rooms =
     \<lparr>cs_title = sd_title d, cs_user_id = None, cs_ministry_id = sd_ministry_id d,
      cs_first_occurrence_date = sd_first_occurrence_date d, cs_last_occurrence_date = sd_last_occurrence_date d,
      cs_local_start_time = sd_local_start_time d, cs_local_end_time = sd_local_end_time d,
      cs_rooms = map (\<lambda>r. \<lparr>rc_facility_id = dm_facility_id r, rc_start_at = None, rc_end_at = None, rc_sequence = dm_sequence r\<rparr>) rooms,
      cs_surcharge_codes = sd_surcharge_codes d, cs_remark = sd_remark d, cs_excluded_dates = sd_excluded_dates d,
      cs_enforce_opening_hours = True, cs_require_override_review = True, cs_override_review_token = None\<rparr>"

definition header_payload :: "uuid \<Rightarrow> uuid \<Rightarrow> series_draft_command \<Rightarrow> series_draft" where
  "header_payload draft_id user_id command =
     \<lparr>sd_id = draft_id, sd_user_id = user_id, sd_title = qc_title command, sd_ministry_id = qc_ministry_id command,
      sd_first_occurrence_date = qc_first_occurrence_date command, sd_last_occurrence_date = qc_last_occurrence_date command,
      sd_local_start_time = qc_local_start_time command, sd_local_end_time = qc_local_end_time command,
      sd_is_mission_aligned = False, sd_remark = qc_remark command, sd_surcharge_codes = qc_surcharge_codes command,
      sd_excluded_dates = qc_excluded_dates command\<rparr>"

definition series_room_rows :: "uuid \<Rightarrow> series_draft_command \<Rightarrow> db \<Rightarrow> series_draft_room list \<times> db" where
  "series_room_rows draft_id command s =
     (map (\<lambda>(k, r). \<lparr>dm_id = db_next_uuid s + int k, dm_series_draft_id = draft_id, dm_facility_id = rc_facility_id r,
                       dm_sequence = rc_sequence r\<rparr>) (enumerate 0 (qc_rooms command)),
      s\<lparr>db_next_uuid := db_next_uuid s + int (length (qc_rooms command))\<rparr>)"

definition to_draft_result :: "crypto \<Rightarrow> string \<Rightarrow> series_draft \<Rightarrow> series_draft_result handler" where
  "to_draft_result c review_secret d e s =
     (let rooms = series_draft_rooms_of s (sd_id d)
      in bindE (evaluate_proposal c review_secret (stored_to_series_command d rooms) e s) (\<lambda>(evaluation, s1).
         Inr (\<lparr>sv_draft = d\<lparr>sd_is_mission_aligned := sq_is_free_ministry (pe_quote evaluation)\<rparr>,
               sv_rooms = map (\<lambda>r. (dm_facility_id r, dm_sequence r)) rooms, sv_evaluation = evaluation\<rparr>, s1)))"

definition create_series_draft :: "crypto \<Rightarrow> string \<Rightarrow> series_draft_command \<Rightarrow> uuid handler" where
  "create_series_draft c review_secret command e s =
     bindE (authenticated_user_id e) (\<lambda>user_id.
     bindE (preview_conflicts c review_secret (to_series_command command) e s) (\<lambda>(preview, s1).
     case fresh_uuid s1 of (draft_id, s2) \<Rightarrow>
     bindE (insert_series_draft (header_payload draft_id user_id command) s2) (\<lambda>s3.
     case series_room_rows draft_id command s3 of (rows, s4) \<Rightarrow>
     bindE (insert_series_draft_rooms rows s4) (\<lambda>s5. Inr (draft_id, s5)))))"

definition get_series_draft :: "crypto \<Rightarrow> string \<Rightarrow> uuid \<Rightarrow> series_draft_result handler" where
  "get_series_draft c review_secret i e s =
     bindE (authenticated_user_id e) (\<lambda>user_id.
     bindE (owned_series_draft s i user_id) (\<lambda>d. to_draft_result c review_secret d e s))"

definition update_series_draft :: "crypto \<Rightarrow> string \<Rightarrow> uuid \<Rightarrow> series_draft_command \<Rightarrow> series_draft_result handler" where
  "update_series_draft c review_secret i command e s =
     bindE (authenticated_user_id e) (\<lambda>user_id.
     bindE (owned_series_draft s i user_id) (\<lambda>_.
     bindE (preview_conflicts c review_secret (to_series_command command) e s) (\<lambda>(preview, s1).
     bindE (update_series_draft_header i (\<lambda>d. (header_payload (sd_id d) (sd_user_id d) command)) s1) (\<lambda>s2.
     case series_room_rows i command s2 of (rows, s3) \<Rightarrow>
     bindE (replace_series_draft_rooms i rows s3) (\<lambda>s4. get_series_draft c review_secret i e s4)))))"

definition not_confirmable :: "uuid \<Rightarrow> proposal_result \<Rightarrow> exn" where
  "not_confirmable i evaluation =
     raise_exn Conflict (Some (FCode BOOKING_SERIES_DRAFT_NOT_CONFIRMABLE))
       (CtxDraft i (pe_invalidity_code evaluation) (member_safe_conflicts (pe_conflicts evaluation)))"

definition confirm_series_draft :: "crypto \<Rightarrow> string \<Rightarrow> uuid \<Rightarrow> string option \<Rightarrow> series_result handler" where
  "confirm_series_draft c review_secret i override_review_token e s =
     bindE (authenticated_user_id e) (\<lambda>user_id.
     bindE (owned_series_draft s i user_id) (\<lambda>d.
     let command = (stored_to_series_command d (series_draft_rooms_of s (sd_id d)))\<lparr>cs_override_review_token := override_review_token\<rparr>
     in bindE (evaluate_proposal c review_secret command e s) (\<lambda>(evaluation, s1).
        raise_if (\<not> pe_is_confirmable evaluation) (not_confirmable i evaluation)
          (bindE (create_series c review_secret command e s1) (\<lambda>(series, s2). Inr (series, delete_series_draft i s2))))))"

definition delete_all_my_series_drafts :: "unit handler" where
  "delete_all_my_series_drafts e s = bindE (authenticated_user_id e) (\<lambda>user_id. Inr ((), delete_series_drafts_of user_id s))"

section \<open>Confirmation and evaluation\<close>

abbreviation draft_proposal :: "db \<Rightarrow> series_draft \<Rightarrow> create_series_command" where
  "draft_proposal s d \<equiv> stored_to_series_command d (series_draft_rooms_of s (sd_id d))"

lemma preview_pure: "preview_conflicts c secret command e s = Inr (v, s') \<Longrightarrow> s' = s"
  by (auto simp: preview_conflicts_def guard_simps Let_def)

lemma evaluation_token:
  "evaluate_proposal c secret (command\<lparr>cs_override_review_token := tok\<rparr>) e s = evaluate_proposal c secret command e s"
proof -
  have "proposal_payment_hold e (command\<lparr>cs_override_review_token := tok\<rparr>) = proposal_payment_hold e command"
    by (simp add: proposal_payment_hold_def fun_eq_iff)
  moreover have "remaining_of (command\<lparr>cs_override_review_token := tok\<rparr>) = remaining_of command"
    "invalid_exclusion (command\<lparr>cs_override_review_token := tok\<rparr>) = invalid_exclusion command"
    "remaining_conflicts_of (command\<lparr>cs_override_review_token := tok\<rparr>) = remaining_conflicts_of command"
    by (simp_all add: remaining_of_def invalid_exclusion_def remaining_conflicts_of_def fun_eq_iff)
  moreover have "quote_occurrences e s (command\<lparr>cs_override_review_token := tok\<rparr>) = quote_occurrences e s command"
    by (simp add: quote_occurrences_def fun_eq_iff token_irrelevant)
  moreover have "issue_review_token c secret (command\<lparr>cs_override_review_token := tok\<rparr>) p rem = issue_review_token c secret command p rem" for p rem
    by (simp add: issue_review_token_def fun_eq_iff token_irrelevant)
  ultimately show ?thesis by (simp add: evaluate_proposal_def token_irrelevant cong: if_cong sum.case_cong)
qed

lemma get_series_draft_Inr:
  assumes "get_series_draft c secret i e s = Inr (r, s0)"
  obtains u d where "en_user_id e = Some u" "series_draft_get_detail s i = Some d" "sd_user_id d = u" "sd_id d = i"
    "evaluate_proposal c secret (draft_proposal s d) e s = Inr (sv_evaluation r, s0)" "s0 = s"
proof -
  obtain u d where u: "en_user_id e = Some u" and d: "series_draft_get_detail s i = Some d" "sd_user_id d = u"
    using assms by (auto simp: get_series_draft_def authenticated_user_id_def owned_series_draft_def guard_simps split: option.splits)
  have i: "sd_id d = i" using d(1) by (auto simp: series_draft_get_detail_def dest: find_Some_set)
  have "to_draft_result c secret d e s = Inr (r, s0)"
    using assms d by (simp add: get_series_draft_def authenticated_user_id_def u owned_series_draft_def)
  then have ev: "evaluate_proposal c secret (draft_proposal s d) e s = Inr (sv_evaluation r, s0)"
    by (auto simp: to_draft_result_def guard_simps Let_def)
  from that [OF u d i ev evaluate_pure [OF ev]] show ?thesis .
qed

lemma confirm_series_draft_eq:
  assumes "en_user_id e = Some u" "series_draft_get_detail s i = Some d" "sd_user_id d = u" "sd_id d = i"
    "evaluate_proposal c secret (draft_proposal s d) e s = Inr (v, s)"
  shows "confirm_series_draft c secret i tok e s =
    (if pe_is_confirmable v
     then bindE (create_series c secret ((draft_proposal s d)\<lparr>cs_override_review_token := tok\<rparr>) e s) (\<lambda>(series, s2).
            Inr (series, delete_series_draft i s2))
     else Inl (not_confirmable i v))"
  using assms by (simp add: confirm_series_draft_def authenticated_user_id_def owned_series_draft_def evaluation_token Let_def raise_if_def)

lemma series_draft_deleted: "series_draft_get_detail (delete_series_draft i s) i = None"
  by (auto simp: series_draft_get_detail_def delete_series_draft_def find_None_iff)

section \<open>The drafts of everybody else\<close>

definition foreign_series_drafts :: "uuid \<Rightarrow> db \<Rightarrow> (series_draft \<times> series_draft_room list) list" where
  "foreign_series_drafts u s = map (\<lambda>d. (d, series_draft_rooms_of s (sd_id d))) (filter (\<lambda>d. sd_user_id d \<noteq> u) (db_series_drafts s))"

definition series_draft_ids :: "db \<Rightarrow> bool" where
  "series_draft_ids s \<longleftrightarrow> distinct (map sd_id (db_series_drafts s)) \<and> (\<forall>d\<in>set (db_series_drafts s). sd_id d < db_next_uuid s)"

lemma foreign_series_drafts_cong:
  assumes "filter (\<lambda>d. sd_user_id d \<noteq> u) (db_series_drafts s') = filter (\<lambda>d. sd_user_id d \<noteq> u) (db_series_drafts s)"
    "\<And>d. d \<in> set (db_series_drafts s) \<Longrightarrow> sd_user_id d \<noteq> u \<Longrightarrow>
       filter (\<lambda>r. dm_series_draft_id r = sd_id d) (db_series_draft_rooms s') = filter (\<lambda>r. dm_series_draft_id r = sd_id d) (db_series_draft_rooms s)"
  shows "foreign_series_drafts u s' = foreign_series_drafts u s"
  using assms by (simp add: foreign_series_drafts_def series_draft_rooms_of_def)

lemma series_draft_owner:
  "series_draft_ids s \<Longrightarrow> d \<in> set (db_series_drafts s) \<Longrightarrow> d' \<in> set (db_series_drafts s) \<Longrightarrow> sd_id d = sd_id d' \<Longrightarrow> d = d'"
  by (auto simp: series_draft_ids_def distinct_map inj_on_def)

lemma insert_series_draft_rooms_Inr [guard_simps]:
  "insert_series_draft_rooms rows s = Inr s' \<longleftrightarrow>
     list_all (series_draft_room_constraints s) rows \<and> s' = s\<lparr>db_series_draft_rooms := db_series_draft_rooms s @ rows\<rparr>"
  by (auto simp: insert_series_draft_rooms_def guard_simps)

lemma series_room_rows_ids: "r \<in> set (fst (series_room_rows i command s)) \<Longrightarrow> dm_series_draft_id r = i"
  by (auto simp: series_room_rows_def)

lemma create_series_draft_Inr:
  assumes "create_series_draft c secret command e s = Inr (i, s')"
  obtains u rows n where "en_user_id e = Some u" "i = db_next_uuid s" "\<forall>r\<in>set rows. dm_series_draft_id r = i"
    "s' = s\<lparr>db_next_uuid := n, db_series_drafts := db_series_drafts s @ [header_payload i u command],
            db_series_draft_rooms := db_series_draft_rooms s @ rows\<rparr>"
proof -
  obtain u where u: "en_user_id e = Some u" using assms by (auto simp: create_series_draft_def authenticated_user_id_def split: option.splits)
  let ?s3 = "s\<lparr>db_next_uuid := db_next_uuid s + 1, db_series_drafts := db_series_drafts s @ [header_payload (db_next_uuid s) u command]\<rparr>"
  obtain rows s4 where r: "series_room_rows (db_next_uuid s) command ?s3 = (rows, s4)" by fastforce
  have "i = db_next_uuid s" "s' = s4\<lparr>db_series_draft_rooms := db_series_draft_rooms s4 @ rows\<rparr>"
    using assms by (auto simp: create_series_draft_def authenticated_user_id_def u guard_simps fresh_uuid_def insert_series_draft_def r
        dest!: preview_pure)
  moreover have "\<forall>x\<in>set rows. dm_series_draft_id x = db_next_uuid s" using series_room_rows_ids [of _ "db_next_uuid s" command ?s3] by (simp add: r)
  moreover have "s4 = ?s3\<lparr>db_next_uuid := db_next_uuid s + 1 + int (length (qc_rooms command))\<rparr>"
    using r by (auto simp: series_room_rows_def)
  ultimately show ?thesis
    by (intro that [OF u, of rows "db_next_uuid s + 1 + int (length (qc_rooms command))"]) simp_all
qed

lemma update_series_draft_Inr:
  assumes "update_series_draft c secret i command e s = Inr (v, s')"
  obtains u d rows n where "en_user_id e = Some u" "series_draft_get_detail s i = Some d" "sd_user_id d = u" "\<forall>r\<in>set rows. dm_series_draft_id r = i"
    "s' = s\<lparr>db_next_uuid := n, db_series_drafts := update_where (\<lambda>d. sd_id d = i) (\<lambda>d. header_payload (sd_id d) (sd_user_id d) command) (db_series_drafts s),
            db_series_draft_rooms := filter (\<lambda>r. dm_series_draft_id r \<noteq> i) (db_series_draft_rooms s) @ rows\<rparr>"
proof -
  obtain u where u: "en_user_id e = Some u" using assms by (auto simp: update_series_draft_def authenticated_user_id_def split: option.splits)
  obtain d where d: "series_draft_get_detail s i = Some d" "sd_user_id d = u"
    using assms by (auto simp: update_series_draft_def guard_simps u authenticated_user_id_def owned_series_draft_def split: option.splits)
  let ?s2 = "s\<lparr>db_series_drafts := update_where (\<lambda>d. sd_id d = i) (\<lambda>d. header_payload (sd_id d) (sd_user_id d) command) (db_series_drafts s)\<rparr>"
  obtain rows s3 where r: "series_room_rows i command ?s2 = (rows, s3)" by fastforce
  obtain s4 where "replace_series_draft_rooms i rows s3 = Inr s4" "get_series_draft c secret i e s4 = Inr (v, s')"
    using assms by (auto simp: update_series_draft_def authenticated_user_id_def u guard_simps update_series_draft_header_def Let_def r dest!: preview_pure)
  moreover from this(2) have "s' = s4" by (metis get_series_draft_Inr)
  moreover have "\<forall>x\<in>set rows. dm_series_draft_id x = i" using series_room_rows_ids [of _ i command ?s2] by (simp add: r)
  moreover have "s3 = ?s2\<lparr>db_next_uuid := db_next_uuid s + int (length (qc_rooms command))\<rparr>"
    using r by (auto simp: series_room_rows_def)
  ultimately show ?thesis
    by (intro that [OF u d, of rows "db_next_uuid s + int (length (qc_rooms command))"]) (simp_all add: replace_series_draft_rooms_def guard_simps)
qed

lemma create_series_draft_private:
  assumes "create_series_draft c secret command e s = Inr (i, s')" "en_user_id e = Some u"
    "\<forall>d\<in>set (db_series_drafts s). sd_id d < db_next_uuid s"
  shows "foreign_series_drafts u s' = foreign_series_drafts u s"
proof -
  obtain u' rows n where p: "en_user_id e = Some u'" "i = db_next_uuid s" "\<forall>r\<in>set rows. dm_series_draft_id r = i"
    "s' = s\<lparr>db_next_uuid := n, db_series_drafts := db_series_drafts s @ [header_payload i u' command],
            db_series_draft_rooms := db_series_draft_rooms s @ rows\<rparr>"
    by (rule create_series_draft_Inr [OF assms(1)])
  have "filter (\<lambda>r. dm_series_draft_id r = sd_id d) rows = []" if "d \<in> set (db_series_drafts s)" for d
    using that assms(3) p(2,3) by (fastforce simp: filter_empty_conv)
  then show ?thesis
    using p(1) assms(2) by (intro foreign_series_drafts_cong) (simp_all add: p(4) header_payload_def)
qed

lemma update_series_draft_private:
  assumes "update_series_draft c secret i command e s = Inr (v, s')" "en_user_id e = Some u" "series_draft_ids s"
  shows "foreign_series_drafts u s' = foreign_series_drafts u s"
proof -
  obtain u' d rows n where p: "en_user_id e = Some u'" "series_draft_get_detail s i = Some d" "sd_user_id d = u'" "\<forall>r\<in>set rows. dm_series_draft_id r = i"
    "s' = s\<lparr>db_next_uuid := n, db_series_drafts := update_where (\<lambda>d. sd_id d = i) (\<lambda>d. header_payload (sd_id d) (sd_user_id d) command) (db_series_drafts s),
            db_series_draft_rooms := filter (\<lambda>r. dm_series_draft_id r \<noteq> i) (db_series_draft_rooms s) @ rows\<rparr>"
    by (rule update_series_draft_Inr [OF assms(1)])
  have d: "d \<in> set (db_series_drafts s)" "sd_id d = i" using p(2) by (auto simp: series_draft_get_detail_def dest: find_Some_set)
  have own: "sd_user_id d' = u" if "d' \<in> set (db_series_drafts s)" "sd_id d' = i" for d'
    using series_draft_owner [OF assms(3) that(1) d(1)] that(2) d(2) p(1,3) assms(2) by simp
  show ?thesis
  proof (rule foreign_series_drafts_cong)
    have "filter (\<lambda>d. sd_user_id d \<noteq> u) (update_where (\<lambda>d. sd_id d = i) f xs) = filter (\<lambda>d. sd_user_id d \<noteq> u) xs"
      if "\<And>d. sd_user_id (f d) = sd_user_id d" "\<forall>d\<in>set xs. sd_id d = i \<longrightarrow> sd_user_id d = u" for f :: "series_draft \<Rightarrow> series_draft" and xs
      using that by (induction xs) (auto simp: update_where_def)
    with own show "filter (\<lambda>d. sd_user_id d \<noteq> u) (db_series_drafts s') = filter (\<lambda>d. sd_user_id d \<noteq> u) (db_series_drafts s)"
      by (simp add: p(5) header_payload_def)
  next
    fix d' assume "d' \<in> set (db_series_drafts s)" "sd_user_id d' \<noteq> u"
    with own have "sd_id d' \<noteq> i" by blast
    with p(4) show "filter (\<lambda>r. dm_series_draft_id r = sd_id d') (db_series_draft_rooms s') =
        filter (\<lambda>r. dm_series_draft_id r = sd_id d') (db_series_draft_rooms s)"
      by (auto simp: p(5) filter_empty_conv intro!: filter_cong)
  qed
qed

lemma delete_series_drafts_private:
  assumes "delete_all_my_series_drafts e s = Inr (v, s')" "en_user_id e = Some u" "series_draft_ids s"
  shows "foreign_series_drafts u s' = foreign_series_drafts u s"
proof -
  have s': "s' = delete_series_drafts_of u s" using assms(1,2) by (simp add: delete_all_my_series_drafts_def authenticated_user_id_def)
  have "sd_id d \<notin> set (map sd_id (filter (\<lambda>d. sd_user_id d = u) (db_series_drafts s)))" if "d \<in> set (db_series_drafts s)" "sd_user_id d \<noteq> u" for d
    using series_draft_owner [OF assms(3) that(1)] that(2) by fastforce
  moreover have "filter (\<lambda>r. dm_series_draft_id r = k) (filter (\<lambda>r. dm_series_draft_id r \<notin> X) rs) = filter (\<lambda>r. dm_series_draft_id r = k) rs"
    if "k \<notin> X" for k X and rs :: "series_draft_room list"
    using that by (induction rs) auto
  ultimately show ?thesis
    by (intro foreign_series_drafts_cong) (simp_all add: s' delete_series_drafts_of_def Let_def del: filter_filter)
qed

section \<open>Requests about drafts\<close>

datatype draft_request =
    Create_Draft draft_command
  | Update_Draft uuid draft_command
  | Get_Draft uuid
  | Delete_My_Drafts
  | Create_Series_Draft series_draft_command
  | Update_Series_Draft uuid series_draft_command
  | Get_Series_Draft uuid
  | Delete_My_Series_Drafts

text \<open>The tables after a request is served, whatever it answers.\<close>

definition after :: "exn + ('a \<times> db) \<Rightarrow> db \<Rightarrow> db" where
  "after m s = (case m of Inl _ \<Rightarrow> s | Inr (_, s') \<Rightarrow> s')"

fun serve_draft :: "crypto \<Rightarrow> string \<Rightarrow> env \<Rightarrow> draft_request \<Rightarrow> db \<Rightarrow> db" where
  "serve_draft c secret e (Create_Draft command) s = after (create_draft command e s) s"
| "serve_draft c secret e (Update_Draft i command) s = after (update_draft c secret i command e s) s"
| "serve_draft c secret e (Get_Draft i) s = after (get_draft c secret i e s) s"
| "serve_draft c secret e Delete_My_Drafts s = after (delete_all_my_drafts e s) s"
| "serve_draft c secret e (Create_Series_Draft command) s = after (create_series_draft c secret command e s) s"
| "serve_draft c secret e (Update_Series_Draft i command) s = after (update_series_draft c secret i command e s) s"
| "serve_draft c secret e (Get_Series_Draft i) s = after (get_series_draft c secret i e s) s"
| "serve_draft c secret e Delete_My_Series_Drafts s = after (delete_all_my_series_drafts e s) s"

lemma after_cases: "P s \<Longrightarrow> (\<And>v s'. m = Inr (v, s') \<Longrightarrow> P s') \<Longrightarrow> P (after m s)"
  by (auto simp: after_def split: sum.split prod.split)

definition other_tables :: "db \<Rightarrow> db" where
  "other_tables s = s\<lparr>db_drafts := [], db_draft_lines := [], db_series_drafts := [], db_series_draft_rooms := [], db_next_uuid := 0\<rparr>"

text \<open>What one member may not touch: the tables of the program, and the drafts of the others.\<close>

definition untouched :: "uuid \<Rightarrow> db \<Rightarrow> db \<Rightarrow> bool" where
  "untouched u s s' \<longleftrightarrow> other_tables s' = other_tables s \<and> foreign_drafts u s' = foreign_drafts u s \<and>
     foreign_series_drafts u s' = foreign_series_drafts u s"

lemma untouched_refl: "untouched u s s"
  by (simp add: untouched_def)

lemma booking_draft_untouched:
  assumes "s' = s\<lparr>db_next_uuid := n, db_drafts := ds, db_draft_lines := ls\<rparr>" "foreign_drafts u s' = foreign_drafts u s"
  shows "untouched u s s'"
  using assms(2) by (simp add: untouched_def assms(1) other_tables_def foreign_series_drafts_def series_draft_rooms_of_def)

lemma series_draft_untouched:
  assumes "s' = s\<lparr>db_next_uuid := n, db_series_drafts := ds, db_series_draft_rooms := rs\<rparr>" "foreign_series_drafts u s' = foreign_series_drafts u s"
  shows "untouched u s s'"
  using assms(2) by (simp add: untouched_def assms(1) other_tables_def foreign_drafts_def draft_lines_of_def)

lemma series_delete_writes:
  "delete_all_my_series_drafts e s = Inr (v, s') \<Longrightarrow>
     s' = s\<lparr>db_next_uuid := db_next_uuid s, db_series_drafts := db_series_drafts s', db_series_draft_rooms := db_series_draft_rooms s'\<rparr>"
  by (auto simp: delete_all_my_series_drafts_def guard_simps delete_series_drafts_of_def Let_def)

lemma booking_draft_requests_untouched:
  assumes ids: "drafts_below s" "draft_ids_unique s" and u: "en_user_id e = Some u"
  shows "create_draft command e s = Inr (i, s') \<Longrightarrow> untouched u s s'"
    "update_draft c secret j command e s = Inr (r, s') \<Longrightarrow> untouched u s s'"
    "delete_all_my_drafts e s = Inr (v, s') \<Longrightarrow> untouched u s s'"
proof -
  show "untouched u s s'" if "create_draft command e s = Inr (i, s')"
    by (rule booking_draft_untouched [OF draft_writes_only_drafts(1) [OF that] create_draft_private [OF that ids(1) u]])
  show "untouched u s s'" if "update_draft c secret j command e s = Inr (r, s')"
    by (rule booking_draft_untouched [OF draft_writes_only_drafts(2) [OF that] update_draft_private [OF that ids(2) u]])
  show "untouched u s s'" if d: "delete_all_my_drafts e s = Inr (v, s')"
  proof (rule booking_draft_untouched [OF _ delete_drafts_private(1) [OF d ids(2) u]])
    show "s' = s\<lparr>db_next_uuid := db_next_uuid s, db_drafts := db_drafts s', db_draft_lines := db_draft_lines s'\<rparr>"
      using draft_writes_only_drafts(3) [OF d] by simp
  qed
qed

lemma series_draft_requests_untouched:
  assumes ids: "series_draft_ids s" and u: "en_user_id e = Some u"
  shows "create_series_draft c secret command e s = Inr (i, s') \<Longrightarrow> untouched u s s'"
    "update_series_draft c secret j command e s = Inr (r, s') \<Longrightarrow> untouched u s s'"
    "delete_all_my_series_drafts e s = Inr (v, s') \<Longrightarrow> untouched u s s'"
proof -
  show "untouched u s s'" if c: "create_series_draft c secret command e s = Inr (i, s')"
    by (rule create_series_draft_Inr [OF c])
       (rule series_draft_untouched [OF _ create_series_draft_private [OF c u]], assumption, use ids in \<open>simp add: series_draft_ids_def\<close>)
  show "untouched u s s'" if c: "update_series_draft c secret j command e s = Inr (r, s')"
    by (rule update_series_draft_Inr [OF c]) (rule series_draft_untouched [OF _ update_series_draft_private [OF c u ids]])
  show "untouched u s s'" if d: "delete_all_my_series_drafts e s = Inr (v, s')"
    by (rule series_draft_untouched [OF series_delete_writes [OF d] delete_series_drafts_private [OF d u ids]])
qed

lemma draft_request_untouched:
  assumes "drafts_below s" "draft_ids_unique s" "series_draft_ids s" "en_user_id e = Some u"
  shows "untouched u s (serve_draft c secret e r s)"
proof -
  note b = booking_draft_requests_untouched [OF assms(1,2,4)] and q = series_draft_requests_untouched [OF assms(3,4)]
  have g: "untouched u s s'" if "get_draft c secret i e s = Inr (v, s')" for i v s'
    by (rule get_draft_Inr [OF that]) (simp add: untouched_refl)
  have h: "untouched u s s'" if "get_series_draft c secret i e s = Inr (v, s')" for i v s'
    by (rule get_series_draft_Inr [OF that]) (simp add: untouched_refl)
  show ?thesis
    by (cases r; simp only: serve_draft.simps; rule after_cases [where P = "untouched u s"]; (rule untouched_refl)?; erule b q g h)
qed

section \<open>Properties\<close>



text \<open>C8. Confirming a series draft does what its evaluation announced. Of a draft whose evaluation is confirmable, the
  confirmation with the acknowledgement it issued creates the series of the stored proposal and consumes the draft, or the
  database refuses a row or the clocks skip the payment deadline; when it is not confirmable, every confirmation fails
  with a conflict that names the draft and the reason.\<close>

theorem series_draft_confirmation:
  assumes "get_series_draft c secret i e s = Inr (r, s0)"
    and "\<forall>d p. series_draft_get_detail s i = Some d \<longrightarrow> prepare_series (draft_proposal s d) e s = Inr p \<longrightarrow>
      review_readable c secret (ps_booker_id p) (sd_ministry_id d)
        (series_proposal (draft_proposal s d) (remaining_of (draft_proposal s d) p)) (pe_override_impacts (sv_evaluation r))"
  shows "if pe_is_confirmable (sv_evaluation r)
    then case confirm_series_draft c secret i (pe_override_review_token (sv_evaluation r)) e s of
           Inl x \<Rightarrow> x \<in> {integrity, value_error}
         | Inr (series, s') \<Rightarrow> series_draft_get_detail s' i = None \<and>
             (\<exists>d s2. series_draft_get_detail s i = Some d \<and> s' = delete_series_draft i s2 \<and>
                create_series c secret ((draft_proposal s d)\<lparr>cs_override_review_token := pe_override_review_token (sv_evaluation r)\<rparr>) e s =
                  Inr (series, s2))
    else \<forall>tok. confirm_series_draft c secret i tok e s = Inl (not_confirmable i (sv_evaluation r))"
proof -
  obtain u d where d: "en_user_id e = Some u" "series_draft_get_detail s i = Some d" "sd_user_id d = u" "sd_id d = i"
    "evaluate_proposal c secret (draft_proposal s d) e s = Inr (sv_evaluation r, s)"
    using get_series_draft_Inr [OF assms(1)] by metis
  note eq = confirm_series_draft_eq [OF d]
  let ?cmd = "(draft_proposal s d)\<lparr>cs_override_review_token := pe_override_review_token (sv_evaluation r)\<rparr>"
  show ?thesis
  proof (cases "pe_is_confirmable (sv_evaluation r)")
    case True
    have late: "x \<in> {integrity, value_error}" if "create_series c secret ?cmd e s = Inl x" for x
      by (rule confirmable_created_late [OF d(5) True _ that]) (use assms(2) d(2) in \<open>simp add: stored_to_series_command_def\<close>)
    show ?thesis
      using True late d(2) by (auto simp: eq series_draft_deleted bindE_def split: sum.splits)
  qed (simp add: eq)
qed

text \<open>Two Mondays of the steward's ministry, kept as a draft; the first of them displaces the member.\<close>

definition sample_series_draft :: series_draft_command where
  "sample_series_draft =
     \<lparr>qc_title = Some ''Youth class'', qc_ministry_id = Some priority_ministry_id,
      qc_first_occurrence_date = ymd2ord 2026 6 1, qc_last_occurrence_date = ymd2ord 2026 6 8,
      qc_local_start_time = 15 * HOUR_US, qc_local_end_time = 17 * HOUR_US,
      qc_rooms = [\<lparr>rc_facility_id = hall_id, rc_start_at = None, rc_end_at = None, rc_sequence = 0\<rparr>],
      qc_surcharge_codes = [], qc_remark = None, qc_excluded_dates = []\<rparr>"

definition sample_drafted :: db where
  "sample_drafted = sample_taken\<lparr>db_series_drafts := [header_payload 1000 steward_id sample_series_draft],
     db_series_draft_rooms := fst (series_room_rows 1000 sample_series_draft sample_taken)\<rparr>"

definition sample_proposal :: create_series_command where
  "sample_proposal =
     \<lparr>cs_title = Some ''Youth class'', cs_user_id = None, cs_ministry_id = Some priority_ministry_id,
      cs_first_occurrence_date = ymd2ord 2026 6 1, cs_last_occurrence_date = ymd2ord 2026 6 8,
      cs_local_start_time = 15 * HOUR_US, cs_local_end_time = 17 * HOUR_US,
      cs_rooms = [\<lparr>rc_facility_id = hall_id, rc_start_at = None, rc_end_at = None, rc_sequence = 0\<rparr>],
      cs_surcharge_codes = [], cs_remark = None, cs_excluded_dates = [], cs_enforce_opening_hours = True,
      cs_require_override_review = True, cs_override_review_token = None\<rparr>"

lemma sample_proposal_stored:
  "series_draft_get_detail sample_drafted 1000 = Some (header_payload 1000 steward_id sample_series_draft) \<and>
   draft_proposal sample_drafted (header_payload 1000 steward_id sample_series_draft) = sample_proposal"
  by (simp add: sample_drafted_def sample_proposal_def sample_series_draft_def series_draft_get_detail_def header_payload_def
      series_draft_rooms_of_def series_room_rows_def stored_to_series_command_def)

lemma sample_proposal_confirmable:
  "inr_sat (evaluate_proposal short_crypto ''secret'' sample_proposal (january_env steward_id) sample_drafted)
     (\<lambda>(v, _). pe_is_confirmable v \<and> map im_booking_id (pe_override_impacts v) = [41])"
  by code_simp

lemma sample_series_draft_confirmable:
  "\<exists>r s0. get_series_draft short_crypto ''secret'' 1000 (january_env steward_id) sample_drafted = Inr (r, s0) \<and>
     pe_is_confirmable (sv_evaluation r) \<and> map im_booking_id (pe_override_impacts (sv_evaluation r)) = [41]"
proof -
  obtain v s0 where "evaluate_proposal short_crypto ''secret'' sample_proposal (january_env steward_id) sample_drafted = Inr (v, s0)"
    "pe_is_confirmable v" "map im_booking_id (pe_override_impacts v) = [41]"
    using sample_proposal_confirmable unfolding inr_sat_eq by (auto split: prod.splits)
  with sample_proposal_stored show ?thesis
    by (simp add: get_series_draft_def authenticated_user_id_def january_env_def sample_env_def owned_series_draft_def
        to_draft_result_def header_payload_def Let_def del: map_eq_Cons_conv map_eq_conv)
qed

theorem series_draft_confirmation_witness:
  "\<exists>r s0. get_series_draft short_crypto ''secret'' 1000 (january_env steward_id) sample_drafted = Inr (r, s0) \<and>
     pe_is_confirmable (sv_evaluation r) \<and>
     (case confirm_series_draft short_crypto ''secret'' 1000 (pe_override_review_token (sv_evaluation r)) (january_env steward_id) sample_drafted of
        Inl x \<Rightarrow> x \<in> {integrity, value_error} | Inr (series, s') \<Rightarrow> series_draft_get_detail s' 1000 = None)"
proof -
  obtain r s0 where r: "get_series_draft short_crypto ''secret'' 1000 (january_env steward_id) sample_drafted = Inr (r, s0)"
    "pe_is_confirmable (sv_evaluation r)" "map im_booking_id (pe_override_impacts (sv_evaluation r)) = [41]"
    using sample_series_draft_confirmable by (elim exE conjE)
  have "length (pe_override_impacts (sv_evaluation r)) = 1" using arg_cong [OF r(3), of length] by simp
  from series_draft_confirmation [OF r(1)] short_crypto_readable [OF this] r show ?thesis by (auto split: sum.splits)
qed

end
