(* ===== verification/Admin_Register.thy ===== *)
theory Admin_Register imports Booking_Store begin

text \<open>
  What the administration repositories share: a table whose rows have an id, a unique column that deleted rows keep
  occupying, and a flag for soft deletion; and how the services translate the errors of the database.
\<close>

section \<open>Errors\<close>

text \<open>\<open>is_unique_violation\<close> tells a broken unique constraint from the other integrity errors.\<close>

definition unique_violation :: exn where "unique_violation = raise_exn Integrity None (CtxText ''unique'')"

definition internal_error :: exn where "internal_error = raise_exn Internal None CtxNone"

definition is_api_exception :: "exn \<Rightarrow> bool" where
  "is_api_exception x \<longleftrightarrow> ex_kind x \<notin> {ValueErr, Integrity, AttributeErr}"

text \<open>\<open>except ApiBaseException: raise\<close>; a unique violation becomes the given error, anything else a plain 500.\<close>

definition on_unique :: "exn \<Rightarrow> exn + 'a \<Rightarrow> exn + 'a" where
  "on_unique conflict m =
     (case m of
        Inl x \<Rightarrow> Inl (if is_api_exception x then x else if x = unique_violation then conflict else internal_error)
      | Inr y \<Rightarrow> Inr y)"

definition or_internal :: "exn + 'a \<Rightarrow> exn + 'a" where
  "or_internal m = (case m of Inl x \<Rightarrow> Inl (if is_api_exception x then x else internal_error) | Inr y \<Rightarrow> Inr y)"

lemma on_unique_Inr [guard_simps]: "on_unique c m = Inr y \<longleftrightarrow> m = Inr y"
  by (simp add: on_unique_def split: sum.splits)

lemma or_internal_Inr [guard_simps]: "or_internal m = Inr y \<longleftrightarrow> m = Inr y"
  by (simp add: or_internal_def split: sum.splits)

lemma unique_violation_hidden: "on_unique c (Inl unique_violation) = Inl c"
  by (simp add: on_unique_def is_api_exception_def unique_violation_def)

section \<open>Rows with an id and a deletion flag\<close>

definition live_row :: "('r \<Rightarrow> uuid) \<Rightarrow> ('r \<Rightarrow> bool) \<Rightarrow> uuid \<Rightarrow> 'r \<Rightarrow> bool" where
  "live_row id_of deleted i r \<longleftrightarrow> id_of r = i \<and> \<not> deleted r"

definition insert_unique :: "('r \<Rightarrow> 'k) \<Rightarrow> 'r \<Rightarrow> 'r list \<Rightarrow> exn + 'r list" where
  "insert_unique code r rows = raise_if (list_ex (\<lambda>x. code x = code r) rows) unique_violation (Inr (rows @ [r]))"

text \<open>An update of the row \<open>i\<close> while it is not deleted: the rows affected and the table.\<close>

definition update_live :: "('r \<Rightarrow> uuid) \<Rightarrow> ('r \<Rightarrow> bool) \<Rightarrow> uuid \<Rightarrow> ('r \<Rightarrow> 'r) \<Rightarrow> 'r list \<Rightarrow> nat \<times> 'r list" where
  "update_live id_of deleted i f rows =
     (length (filter (live_row id_of deleted i) rows), update_where (live_row id_of deleted i) f rows)"

definition update_live_unique ::
  "('r \<Rightarrow> uuid) \<Rightarrow> ('r \<Rightarrow> bool) \<Rightarrow> ('r \<Rightarrow> 'k) \<Rightarrow> uuid \<Rightarrow> ('r \<Rightarrow> 'r) \<Rightarrow> 'r list \<Rightarrow> exn + (nat \<times> 'r list)" where
  "update_live_unique id_of deleted code i f rows =
     (case update_live id_of deleted i f rows of (n, rows') \<Rightarrow>
        raise_if (\<not> distinct (map code rows')) unique_violation (Inr (n, rows')))"

text \<open>Deleting and restoring set the flag, whether it is set already or not.\<close>

definition set_deleted :: "('r \<Rightarrow> uuid) \<Rightarrow> ('r \<Rightarrow> 'r) \<Rightarrow> uuid \<Rightarrow> 'r list \<Rightarrow> 'r list" where
  "set_deleted id_of mark i rows = update_where (\<lambda>r. id_of r = i) mark rows"

definition find_row :: "('r \<Rightarrow> uuid) \<Rightarrow> uuid \<Rightarrow> 'r list \<Rightarrow> 'r option" where
  "find_row id_of i rows = List.find (\<lambda>r. id_of r = i) rows"

lemma update_where_twice: "update_where p g (update_where p f xs) = update_where p (g \<circ> f) xs" if "\<And>x. p x \<Longrightarrow> p (f x)"
  using that by (simp add: update_where_def comp_def)

lemma update_where_id: "\<forall>x\<in>set xs. p x \<longrightarrow> f x = x \<Longrightarrow> update_where p f xs = xs"
  by (induction xs) (auto simp: update_where_def)

lemma map_update_keeps: "map g (update_where p f xs) = map g xs" if "\<And>x. p x \<Longrightarrow> g (f x) = g x"
  using that by (auto simp: update_where_def)

lemma image_update_keeps: "g ` set (update_where p f xs) = g ` set xs" if "\<And>x. p x \<Longrightarrow> g (f x) = g x"
  using map_update_keeps [of p g f xs] that by (metis list.set_map)

lemma find_row_some: "find_row id_of i rows = Some r \<Longrightarrow> r \<in> set rows \<and> id_of r = i"
  by (auto simp: find_row_def dest: find_Some_set)

text \<open>
  The contract of such a table: the mark of a deletion leaves the id and the unique column alone, and taking it off gives
  the row back.
\<close>

locale register =
  fixes id_of :: "'r \<Rightarrow> uuid" and deleted :: "'r \<Rightarrow> bool" and code :: "'r \<Rightarrow> 'k" and mark :: "bool \<Rightarrow> 'r \<Rightarrow> 'r"
  assumes id_mark [simp]: "id_of (mark b r) = id_of r"
    and deleted_mark [simp]: "deleted (mark b r) = b"
    and code_mark [simp]: "code (mark b r) = code r"
    and unmark: "\<not> deleted r \<Longrightarrow> mark False (mark True r) = r"
begin

lemma codes_set_deleted: "map code (set_deleted id_of (mark b) i rows) = map code rows"
  by (simp add: set_deleted_def map_update_keeps)

lemma ids_set_deleted: "map id_of (set_deleted id_of (mark b) i rows) = map id_of rows"
  by (simp add: set_deleted_def map_update_keeps)

lemma delete_restore:
  assumes "\<forall>r\<in>set rows. id_of r = i \<longrightarrow> \<not> deleted r"
  shows "set_deleted id_of (mark False) i (set_deleted id_of (mark True) i rows) = rows"
  using assms by (simp add: set_deleted_def update_where_twice update_where_id unmark)

lemma deleted_gone: "\<not> list_ex (live_row id_of deleted i) (set_deleted id_of (mark True) i rows)"
proof -
  have "\<not> live_row id_of deleted i x" if "x \<in> set (set_deleted id_of (mark True) i rows)" for x
    using that unfolding set_deleted_def update_where_def live_row_def set_map by (elim imageE) (simp split: if_splits)
  then show ?thesis by (simp add: list_ex_iff)
qed

lemma insert_unique_distinct: "insert_unique code r rows = Inr rows' \<Longrightarrow> distinct (map code rows) \<Longrightarrow> distinct (map code rows')"
  by (force simp: insert_unique_def guard_simps list_ex_iff)

lemma update_unique_distinct: "update_live_unique id_of deleted code i f rows = Inr (n, rows') \<Longrightarrow> distinct (map code rows')"
  by (auto simp: update_live_unique_def update_live_def guard_simps)

lemma insert_taken: "x \<in> set rows \<Longrightarrow> code x = code r \<Longrightarrow> insert_unique code r rows = Inl unique_violation"
  by (simp add: insert_unique_def list_ex_iff raise_if_def bexI [of _ x])

end

end
