(* ===== verification/Ministries.thy ===== *)
theory Ministries imports Admin_Register Recurring_Conflicts Text_Rules begin

text \<open>
  Ministries and their stewards (\<open>ministry_service.py\<close>, \<open>ministry_schedule.py\<close>, \<open>target_audience_validation.py\<close>,
  the writes of \<open>ministry_repository.py\<close>): creation and editing, members, schedules, target audiences, soft and hard
  deletion. The approval workflow is \<open>Ministry_Approval\<close>.
\<close>

unbundle bit_operations_syntax

section \<open>Errors\<close>

abbreviation org_bad_request :: "org_error_code \<Rightarrow> err_context \<Rightarrow> exn" where
  "org_bad_request c x \<equiv> raise_exn BadRequest (Some (OCode c)) x"

definition ministry_not_found :: "uuid \<Rightarrow> exn" where
  "ministry_not_found i = raise_exn NotFound (Some (OCode MINISTRY_NOT_FOUND)) (CtxId i)"

section \<open>Commands\<close>

record schedule_command =
  gc_days_of_week :: "int list"
  gc_start_time :: "tod option"
  gc_end_time :: "tod option"
  gc_effective_from :: "date option"
  gc_effective_to :: "date option"
  gc_sequence :: "dec option"

record create_ministry_command =
  nc_owner_position_id :: "uuid option"
  nc_ministry_type_id :: "uuid option"
  nc_target_audience_ids :: "uuid list"
  nc_schedules :: "schedule_command list"
  nc_has_priority_booking :: bool
  nc_is_active :: bool
  nc_sequence :: "dec option"
  nc_translations :: "translation list"

record update_ministry_command =
  uc_owner_position_id :: "uuid option"
  uc_ministry_type_id :: "uuid option"
  uc_target_audience_ids :: "uuid list option"
  uc_schedules :: "schedule_command list option"
  uc_has_priority_booking :: bool
  uc_is_active :: bool
  uc_sequence :: "dec option"
  uc_translations :: "translation list option"

record member_entry =
  me_user_id :: uuid
  me_role :: member_role
  me_remark :: "string option"
  me_contact_email :: "string option"

section \<open>Schedules and target audiences\<close>

definition validate_schedule :: "schedule_command \<Rightarrow> exn + unit" where
  "validate_schedule g =
     raise_if (gc_days_of_week g = [] \<and> gc_effective_from g = None) bad_request_plain
     (raise_if ((gc_start_time g = None) \<noteq> (gc_end_time g = None)) bad_request_plain
     (raise_if (case (gc_start_time g, gc_end_time g) of (Some a, Some b) \<Rightarrow> b \<le> a | _ \<Rightarrow> False) bad_request_plain
     (raise_if (case (gc_effective_from g, gc_effective_to g) of (Some a, Some b) \<Rightarrow> b < a | _ \<Rightarrow> False) bad_request_plain
        (Inr ()))))"

definition validate_ministry_schedules :: "schedule_command list \<Rightarrow> exn + unit" where
  "validate_ministry_schedules schedules = forE validate_schedule schedules"

definition encode_schedule_days_mask :: "int list \<Rightarrow> exn + int option" where
  "encode_schedule_days_mask days =
     (if days = [] then Inr None else case days_to_mask days of None \<Rightarrow> Inl value_error | Some m \<Rightarrow> Inr (Some m))"

definition schedule_payload :: "uuid \<Rightarrow> nat \<times> schedule_command \<Rightarrow> exn + ministry_schedule" where
  "schedule_payload ministry_id z =
     (case z of (k, g) \<Rightarrow> bindE (encode_schedule_days_mask (gc_days_of_week g)) (\<lambda>mask.
        Inr \<lparr>mh_ministry_id = ministry_id, mh_days_of_week_mask = mask, mh_start_time = gc_start_time g, mh_end_time = gc_end_time g,
             mh_effective_from = gc_effective_from g, mh_effective_to = gc_effective_to g,
             mh_sequence = (case gc_sequence g of None \<Rightarrow> of_nat k | Some q \<Rightarrow> q)\<rparr>))"

definition build_schedule_payloads :: "uuid \<Rightarrow> schedule_command list \<Rightarrow> exn + ministry_schedule list" where
  "build_schedule_payloads ministry_id schedules = mapE (schedule_payload ministry_id) (enumerate 0 schedules)"

definition fetch_active_audiences :: "db \<Rightarrow> uuid list \<Rightarrow> catalog_row list" where
  "fetch_active_audiences s ids =
     (if ids = [] then [] else filter (\<lambda>a. ct_id a \<in> set ids \<and> ct_is_active a) (og_audiences (db_org s)))"

text \<open>\<open>active_by_id\<close> keeps the last row of an id; the codes follow the submitted ids, repetitions included.\<close>

definition validate_target_audience_ids :: "uuid list \<Rightarrow> catalog_row list \<Rightarrow> exn + unit" where
  "validate_target_audience_ids ids active =
     (if ids = [] then Inr ()
      else raise_if (card (set (map ct_id active)) \<noteq> card (set ids)) (org_bad_request MINISTRY_INVALID_TARGET_AUDIENCES CtxNone)
        (let codes = map (\<lambda>i. case List.find (\<lambda>a. ct_id a = i) (rev active) of None \<Rightarrow> [] | Some a \<Rightarrow> ct_code a) ids
         in raise_if (''all_ages'' \<in> set codes \<and> length codes \<noteq> 1)
              (org_bad_request MINISTRY_INVALID_TARGET_AUDIENCES CtxNone) (Inr ())))"

definition validate_target_audiences :: "db \<Rightarrow> uuid list \<Rightarrow> exn + unit" where
  "validate_target_audiences s ids =
     (if ids = [] then Inr () else validate_target_audience_ids ids (fetch_active_audiences s ids))"

definition validate_ministry_type_id :: "db \<Rightarrow> uuid option \<Rightarrow> exn + uuid option" where
  "validate_ministry_type_id s ministry_type_id =
     (case ministry_type_id of None \<Rightarrow> Inr None
      | Some i \<Rightarrow> raise_if (\<not> list_ex (\<lambda>t. ct_id t = i \<and> ct_is_active t) (og_ministry_types (db_org s))) bad_request_plain (Inr (Some i)))"

section \<open>The repository\<close>

text \<open>Foreign keys of a ministry row.\<close>

definition ministry_constraints :: "db \<Rightarrow> ministry \<Rightarrow> bool" where
  "ministry_constraints s m \<longleftrightarrow>
     fk po_id (og_positions (db_org s)) (mi_owner_position_id m) \<and> fk ct_id (og_ministry_types (db_org s)) (mi_ministry_type_id m) \<and>
     fk us_id (db_users s) (mi_submitted_by_id m) \<and> fk us_id (db_users s) (mi_approved_by_id m) \<and>
     fk us_id (db_users s) (mi_rejected_by_id m)"

definition insert_ministry :: "ministry \<Rightarrow> db \<Rightarrow> exn + db" where
  "insert_ministry m s = raise_if (\<not> ministry_constraints s m) integrity (Inr (s\<lparr>db_ministries := db_ministries s @ [m]\<rparr>))"

text \<open>The number of affected rows, and the tables.\<close>

definition live_ministry :: "uuid \<Rightarrow> ministry \<Rightarrow> bool" where
  "live_ministry i m \<longleftrightarrow> mi_id m = i \<and> \<not> mi_is_deleted m"

definition update_ministry_rows :: "uuid \<Rightarrow> (ministry \<Rightarrow> ministry) \<Rightarrow> db \<Rightarrow> exn + (nat \<times> db)" where
  "update_ministry_rows i f s =
     (let ministries = update_where (live_ministry i) f (db_ministries s)
      in raise_if (\<not> list_all (\<lambda>m. live_ministry i m \<longrightarrow> ministry_constraints s m) ministries) integrity
           (Inr (length (filter (live_ministry i) (db_ministries s)), s\<lparr>db_ministries := ministries\<rparr>)))"

definition upsert_translation :: "translation \<Rightarrow> translation list \<Rightarrow> translation list" where
  "upsert_translation t trs =
     (if list_ex (\<lambda>x. tr_locale_id x = tr_locale_id t) trs
      then update_where (\<lambda>x. tr_locale_id x = tr_locale_id t) (\<lambda>_. t) trs else trs @ [t])"

text \<open>\<open>ON CONFLICT DO UPDATE\<close> refuses to touch a row twice in one statement.\<close>

definition upsert_ministry_translations :: "uuid \<Rightarrow> translation list \<Rightarrow> db \<Rightarrow> exn + db" where
  "upsert_ministry_translations i rows s =
     raise_if (\<not> distinct (map tr_locale_id rows)) integrity
       (Inr (s\<lparr>db_ministries := update_where (\<lambda>m. mi_id m = i)
                 (\<lambda>m. m\<lparr>mi_translations := fold upsert_translation rows (mi_translations m)\<rparr>) (db_ministries s)\<rparr>))"

definition fetch_active_locale_ids :: "db \<Rightarrow> uuid list \<Rightarrow> uuid set" where
  "fetch_active_locale_ids s ids =
     set (map lo_id (filter (\<lambda>l. lo_id l \<in> set ids \<and> lo_is_active l \<and> \<not> lo_is_deleted l) (og_locales (db_org s))))"

definition schedule_constraints :: "ministry_schedule \<Rightarrow> bool" where
  "schedule_constraints h \<longleftrightarrow>
     (case mh_days_of_week_mask h of None \<Rightarrow> True | Some m \<Rightarrow> m AND VALID_DAY_MASK \<noteq> 0 \<and> m AND NOT VALID_DAY_MASK = 0) \<and>
     (case (mh_start_time h, mh_end_time h) of (Some a, Some b) \<Rightarrow> a < b | _ \<Rightarrow> True) \<and>
     (case (mh_effective_from h, mh_effective_to h) of (Some a, Some b) \<Rightarrow> a \<le> b | _ \<Rightarrow> True)"

definition upsert_ministry_schedules :: "uuid \<Rightarrow> ministry_schedule list \<Rightarrow> db \<Rightarrow> exn + db" where
  "upsert_ministry_schedules i rows s =
     raise_if (\<not> list_all schedule_constraints rows) integrity
       (Inr (s\<lparr>db_org := (db_org s)\<lparr>og_schedules := filter (\<lambda>h. mh_ministry_id h \<noteq> i) (og_schedules (db_org s)) @ rows\<rparr>\<rparr>))"

definition upsert_ministry_audiences :: "uuid \<Rightarrow> uuid list \<Rightarrow> db \<Rightarrow> exn + db" where
  "upsert_ministry_audiences i ids s =
     raise_if (\<not> distinct ids \<or> \<not> list_all (\<lambda>a. fk ct_id (og_audiences (db_org s)) (Some a)) ids) integrity
       (Inr (s\<lparr>db_org := (db_org s)\<lparr>og_ministry_audiences :=
                 filter (\<lambda>p. fst p \<noteq> i) (og_ministry_audiences (db_org s)) @ map (Pair i) ids\<rparr>\<rparr>))"

definition member_row :: "uuid \<Rightarrow> member_entry \<Rightarrow> ministry_member" where
  "member_row i x = \<lparr>mm_ministry_id = i, mm_user_id = me_user_id x, mm_role = me_role x, mm_remark = me_remark x,
     mm_contact_email = me_contact_email x\<rparr>"

definition replace_member_rows :: "uuid \<Rightarrow> ministry_member list \<Rightarrow> db \<Rightarrow> exn + db" where
  "replace_member_rows i rows s =
     raise_if (rows \<noteq> [] \<and> (\<not> distinct (map mm_user_id rows) \<or> \<not> list_all (\<lambda>r. fk us_id (db_users s) (Some (mm_user_id r))) rows \<or>
                 \<not> fk mi_id (db_ministries s) (Some i))) integrity
       (Inr (s\<lparr>db_members := filter (\<lambda>r. mm_ministry_id r \<noteq> i) (db_members s) @ rows\<rparr>))"

definition ministry_delete_soft :: "uuid \<Rightarrow> db \<Rightarrow> db" where
  "ministry_delete_soft i s =
     s\<lparr>db_ministries := update_where (\<lambda>m. mi_id m = i) (\<lambda>m. m\<lparr>mi_is_deleted := True\<rparr>) (db_ministries s)\<rparr>"

definition ministry_restore :: "uuid \<Rightarrow> db \<Rightarrow> db" where
  "ministry_restore i s =
     s\<lparr>db_ministries := update_where (\<lambda>m. mi_id m = i) (\<lambda>m. m\<lparr>mi_is_deleted := False\<rparr>) (db_ministries s)\<rparr>"

text \<open>Members and approvals are deleted by hand, schedules and audiences by cascade; bookings, series and drafts keep their
  rows and lose the reference (\<open>ON DELETE SET NULL\<close>).\<close>

definition unlink :: "uuid \<Rightarrow> uuid option \<Rightarrow> uuid option" where
  "unlink i x = (if x = Some i then None else x)"

definition ministry_delete_hard :: "uuid \<Rightarrow> db \<Rightarrow> db" where
  "ministry_delete_hard i s =
     s\<lparr>db_members := filter (\<lambda>r. mm_ministry_id r \<noteq> i) (db_members s),
       db_org := (db_org s)\<lparr>og_approvals := filter (\<lambda>a. ma_ministry_id a \<noteq> i) (og_approvals (db_org s)),
                            og_schedules := filter (\<lambda>h. mh_ministry_id h \<noteq> i) (og_schedules (db_org s)),
                            og_ministry_audiences := filter (\<lambda>p. fst p \<noteq> i) (og_ministry_audiences (db_org s))\<rparr>,
       db_ministries := filter (\<lambda>m. mi_id m \<noteq> i) (db_ministries s),
       db_bookings := map (\<lambda>b. b\<lparr>bk_ministry_id := unlink i (bk_ministry_id b)\<rparr>) (db_bookings s),
       db_series := map (\<lambda>x. x\<lparr>se_ministry_id := unlink i (se_ministry_id x)\<rparr>) (db_series s),
       db_drafts := map (\<lambda>d. d\<lparr>df_ministry_id := unlink i (df_ministry_id d)\<rparr>) (db_drafts s),
       db_series_drafts := map (\<lambda>d. d\<lparr>sd_ministry_id := unlink i (sd_ministry_id d)\<rparr>) (db_series_drafts s)\<rparr>"

section \<open>The service\<close>

definition validate_and_upsert_translations :: "uuid \<Rightarrow> translation list \<Rightarrow> db \<Rightarrow> exn + db" where
  "validate_and_upsert_translations i rows s =
     (if rows = [] then Inr s
      else let locale_ids = map tr_locale_id rows
           in raise_if (card (fetch_active_locale_ids s locale_ids) \<noteq> card (set locale_ids)) bad_request_plain
                (upsert_ministry_translations i rows s))"

text \<open>\<open>extract(epoch from now())\<close>, the default of the sort order.\<close>

definition default_sequence :: "env \<Rightarrow> dec" where
  "default_sequence e = of_int (en_sql_now e - combine (ymd2ord 1970 1 1) 0) / 1000000"

definition new_ministry :: "env \<Rightarrow> create_ministry_command \<Rightarrow> uuid option \<Rightarrow> uuid \<Rightarrow> ministry" where
  "new_ministry e command ministry_type_id i =
     \<lparr>mi_id = i, mi_owner_position_id = nc_owner_position_id command, mi_ministry_type_id = ministry_type_id, mi_status = MS_DRAFT,
      mi_has_priority_booking = nc_has_priority_booking command, mi_is_active = nc_is_active command,
      mi_sequence = (case nc_sequence command of None \<Rightarrow> default_sequence e | Some q \<Rightarrow> q),
      mi_submitted_at = None, mi_submitted_by_id = None, mi_approved_at = None, mi_approved_by_id = None, mi_rejected_at = None,
      mi_rejected_by_id = None, mi_rejection_reason = None, mi_translations = [], mi_is_deleted = False\<rparr>"

definition create_ministry :: "create_ministry_command \<Rightarrow> uuid handler" where
  "create_ministry command e s =
     (case fresh_uuid s of (i, s0) \<Rightarrow>
      raise_if (nc_translations command = []) bad_request_plain
      (bindE (validate_ministry_type_id s (nc_ministry_type_id command)) (\<lambda>ministry_type_id.
       bindE (validate_target_audiences s (nc_target_audience_ids command)) (\<lambda>_.
       bindE (validate_ministry_schedules (nc_schedules command)) (\<lambda>_.
       or_internal
        (bindE (insert_ministry (new_ministry e command ministry_type_id i) s0) (\<lambda>s1.
         bindE (validate_and_upsert_translations i (nc_translations command) s1) (\<lambda>s2.
         bindE (build_schedule_payloads i (nc_schedules command)) (\<lambda>rows.
         bindE (upsert_ministry_schedules i rows s2) (\<lambda>s3.
         bindE (upsert_ministry_audiences i (nc_target_audience_ids command) s3) (\<lambda>s4. Inr (i, s4))))))))))))"

definition upsert_schedules :: "uuid \<Rightarrow> schedule_command list option \<Rightarrow> db \<Rightarrow> exn + db" where
  "upsert_schedules i schedules s =
     (case schedules of None \<Rightarrow> Inr s
      | Some gs \<Rightarrow> bindE (validate_ministry_schedules gs) (\<lambda>_. bindE (build_schedule_payloads i gs) (\<lambda>rows. upsert_ministry_schedules i rows s)))"

definition upsert_target_audiences :: "uuid \<Rightarrow> uuid list option \<Rightarrow> db \<Rightarrow> exn + db" where
  "upsert_target_audiences i ids s =
     (case ids of None \<Rightarrow> Inr s
      | Some xs \<Rightarrow> bindE (validate_target_audiences s xs) (\<lambda>_. upsert_ministry_audiences i xs s))"

definition edit_ministry :: "update_ministry_command \<Rightarrow> uuid option \<Rightarrow> ministry \<Rightarrow> ministry" where
  "edit_ministry command ministry_type_id m =
     m\<lparr>mi_has_priority_booking := uc_has_priority_booking command, mi_is_active := uc_is_active command,
       mi_owner_position_id := (case uc_owner_position_id command of None \<Rightarrow> mi_owner_position_id m | Some p \<Rightarrow> Some p),
       mi_ministry_type_id := (case uc_ministry_type_id command of None \<Rightarrow> mi_ministry_type_id m | Some _ \<Rightarrow> ministry_type_id),
       mi_sequence := (case uc_sequence command of None \<Rightarrow> mi_sequence m | Some q \<Rightarrow> q)\<rparr>"

definition update_ministry :: "uuid \<Rightarrow> update_ministry_command \<Rightarrow> unit handler" where
  "update_ministry i command e s =
     raise_if (find_ministry s i = None) (ministry_not_found i)
     (bindE (validate_ministry_type_id s (uc_ministry_type_id command)) (\<lambda>ministry_type_id.
      bindE (update_ministry_rows i (edit_ministry command ministry_type_id) s) (\<lambda>(affected, s1).
      raise_if (affected = 0) (ministry_not_found i)
      (bindE (validate_and_upsert_translations i (case uc_translations command of None \<Rightarrow> [] | Some trs \<Rightarrow> trs) s1) (\<lambda>s2.
       bindE (upsert_schedules i (uc_schedules command) s2) (\<lambda>s3.
       bindE (upsert_target_audiences i (uc_target_audience_ids command) s3) (\<lambda>s4. Inr ((), s4))))))))"

definition delete_ministry :: "uuid \<Rightarrow> bool \<Rightarrow> unit handler" where
  "delete_ministry i permanent e s =
     raise_if (find_ministry s i = None) (ministry_not_found i)
       (Inr ((), if permanent then ministry_delete_hard i s else ministry_delete_soft i s))"

definition restore_ministries :: "uuid list \<Rightarrow> unit handler" where
  "restore_ministries ids e s = raise_if (ids = []) bad_request_plain (Inr ((), fold ministry_restore ids s))"

text \<open>\<open>validate_primary_and_secondary\<close> reads the roles alone.\<close>

definition validate_primary_and_secondary :: "member_role list \<Rightarrow> exn + unit" where
  "validate_primary_and_secondary roles =
     raise_if (length (filter (\<lambda>r. r = MR_PRIMARY) roles) \<noteq> 1) (org_bad_request MINISTRY_PRIMARY_REQUIRED CtxNone)
     (raise_if (length (filter (\<lambda>r. r = MR_SECONDARY) roles) < 1) (org_bad_request MINISTRY_SECONDARY_REQUIRED CtxNone) (Inr ()))"

definition list_members :: "uuid \<Rightarrow> env \<Rightarrow> db \<Rightarrow> exn + member_result list" where
  "list_members i e s = raise_if (find_ministry s i = None) (ministry_not_found i) (Inr (ministry_list_members s i))"

definition replace_members :: "uuid \<Rightarrow> member_entry list \<Rightarrow> unit handler" where
  "replace_members i members e s =
     raise_if (find_ministry s i = None) (ministry_not_found i)
     (bindE (validate_primary_and_secondary (map me_role members)) (\<lambda>_.
      bindE (replace_member_rows i (map (member_row i) members) s) (\<lambda>s1. Inr ((), s1))))"

definition validate_members_for_submit :: "uuid \<Rightarrow> env \<Rightarrow> db \<Rightarrow> exn + unit" where
  "validate_members_for_submit i e s =
     bindE (list_members i e s) (\<lambda>members. validate_primary_and_secondary (map mr_role members))"

end
