(* ===== verification/Ministry_Approval.thy ===== *)
theory Ministry_Approval imports Ministries begin

text \<open>
  The application workflow of a ministry (\<open>ministry_approval_service.py\<close>): a draft is submitted, decided by the
  incumbent of its owner position or by staff, and a rejected application may be corrected and resubmitted. Every
  submission opens an approval request, every decision closes it. Mails about it are best effort and write no table.
\<close>

section \<open>Reads\<close>

text \<open>The latest open assignment of a position.\<close>

definition current_assignments :: "db \<Rightarrow> uuid \<Rightarrow> position_assignment list" where
  "current_assignments s position_id =
     sort_key (\<lambda>a. - pa_start_at a) (filter (\<lambda>a. pa_position_id a = position_id \<and> pa_end_at a = None) (og_assignments (db_org s)))"

definition get_current_incumbent_user_id :: "db \<Rightarrow> uuid \<Rightarrow> uuid option" where
  "get_current_incumbent_user_id s position_id =
     (case current_assignments s position_id of [] \<Rightarrow> None | a # _ \<Rightarrow> Some (pa_user_id a))"

definition is_incumbent_of_ministry :: "db \<Rightarrow> ministry \<Rightarrow> uuid \<Rightarrow> bool" where
  "is_incumbent_of_ministry s m user_id =
     (case mi_owner_position_id m of None \<Rightarrow> False | Some p \<Rightarrow> get_current_incumbent_user_id s p = Some user_id)"

section \<open>Who may act\<close>

abbreviation org_forbidden :: "org_error_code \<Rightarrow> exn" where
  "org_forbidden c \<equiv> raise_exn Forbidden (Some (OCode c)) CtxNone"

definition require_authenticated_user :: "env \<Rightarrow> exn + uuid" where
  "require_authenticated_user e = (case en_user_id e of None \<Rightarrow> Inl (org_forbidden MINISTRY_ACCESS_FORBIDDEN) | Some u \<Rightarrow> Inr u)"

definition require_incumbent :: "env \<Rightarrow> db \<Rightarrow> ministry \<Rightarrow> exn + uuid" where
  "require_incumbent e s m =
     bindE (require_authenticated_user e) (\<lambda>user_id.
       raise_if (\<not> is_incumbent_of_ministry s m user_id) (org_forbidden MINISTRY_APPROVAL_FORBIDDEN) (Inr user_id))"

definition require_ministry_access :: "env \<Rightarrow> db \<Rightarrow> ministry \<Rightarrow> exn + uuid" where
  "require_ministry_access e s m =
     bindE (require_authenticated_user e) (\<lambda>user_id.
       if is_incumbent_of_ministry s m user_id then Inr user_id
       else if mi_submitted_by_id m = Some user_id then Inr user_id
       else if is_user_booking_member s (mi_id m) user_id then Inr user_id
       else Inl (org_forbidden MINISTRY_ACCESS_FORBIDDEN))"

definition require_applicant_or_steward :: "env \<Rightarrow> db \<Rightarrow> ministry \<Rightarrow> exn + uuid" where
  "require_applicant_or_steward e s m =
     bindE (require_authenticated_user e) (\<lambda>user_id.
       if mi_submitted_by_id m = Some user_id then Inr user_id
       else if is_user_booking_member s (mi_id m) user_id then Inr user_id
       else Inl (org_forbidden MINISTRY_ACCESS_FORBIDDEN))"

definition require_owner_position_incumbent :: "db \<Rightarrow> uuid \<Rightarrow> exn + unit" where
  "require_owner_position_incumbent s position_id =
     raise_if (get_current_incumbent_user_id s position_id = None) (org_bad_request POSITION_NO_INCUMBENT (CtxId position_id)) (Inr ())"

definition require_ministry :: "db \<Rightarrow> uuid \<Rightarrow> exn + ministry" where
  "require_ministry s i = (case find_ministry s i of None \<Rightarrow> Inl (ministry_not_found i) | Some m \<Rightarrow> Inr m)"

section \<open>The register of approvals\<close>

definition insert_approval :: "ministry_approval \<Rightarrow> db \<Rightarrow> exn + db" where
  "insert_approval a s =
     raise_if (\<not> (fk mi_id (db_ministries s) (Some (ma_ministry_id a)) \<and> fk po_id (og_positions (db_org s)) (ma_owner_position_id a) \<and>
                  fk us_id (db_users s) (ma_requested_by_id a))) integrity
       (Inr (s\<lparr>db_org := (db_org s)\<lparr>og_approvals := og_approvals (db_org s) @ [a]\<rparr>\<rparr>))"

definition awaiting :: "uuid \<Rightarrow> ministry_approval \<Rightarrow> bool" where
  "awaiting i a \<longleftrightarrow> ma_ministry_id a = i \<and> ma_status a = AP_PENDING"

definition update_approval :: "uuid \<Rightarrow> approval_status \<Rightarrow> uuid option \<Rightarrow> instant \<Rightarrow> string option \<Rightarrow> db \<Rightarrow> db" where
  "update_approval i status resolved_by_id decided_at remark s =
     s\<lparr>db_org := (db_org s)\<lparr>og_approvals := update_where (awaiting i)
         (\<lambda>a. a\<lparr>ma_status := status, ma_resolved_by_id := resolved_by_id, ma_decided_at := Some decided_at, ma_comment := remark\<rparr>)
         (og_approvals (db_org s))\<rparr>\<rparr>"

section \<open>The workflow\<close>

definition mark_submitted :: "env \<Rightarrow> ministry \<Rightarrow> ministry" where
  "mark_submitted e m = m\<lparr>mi_status := MS_PENDING_APPROVAL, mi_submitted_at := Some (en_now_utc e), mi_submitted_by_id := en_user_id e,
     mi_rejected_at := None, mi_rejected_by_id := None, mi_rejection_reason := None\<rparr>"

definition mark_approved :: "env \<Rightarrow> ministry \<Rightarrow> ministry" where
  "mark_approved e m = m\<lparr>mi_status := MS_ACTIVE, mi_is_active := True, mi_approved_at := Some (en_now_utc e), mi_approved_by_id := en_user_id e\<rparr>"

definition mark_rejected :: "env \<Rightarrow> string \<Rightarrow> ministry \<Rightarrow> ministry" where
  "mark_rejected e reason m = m\<lparr>mi_status := MS_REJECTED, mi_rejected_at := Some (en_now_utc e), mi_rejected_by_id := en_user_id e,
     mi_rejection_reason := Some reason\<rparr>"

definition new_approval :: "env \<Rightarrow> uuid \<Rightarrow> uuid \<Rightarrow> uuid \<Rightarrow> ministry_approval" where
  "new_approval e k i owner = \<lparr>ma_id = k, ma_ministry_id = i, ma_owner_position_id = Some owner, ma_status = AP_PENDING,
     ma_requested_by_id = en_user_id e, ma_resolved_by_id = None, ma_decided_at = None, ma_comment = None\<rparr>"

definition submit_ministry :: "uuid \<Rightarrow> unit handler" where
  "submit_ministry i e s =
     bindE (require_ministry s i) (\<lambda>m.
     raise_if (mi_status m \<notin> {MS_DRAFT, MS_REJECTED}) (org_bad_request MINISTRY_INVALID_STATUS_FOR_SUBMIT (CtxId i))
     (case mi_owner_position_id m of
        None \<Rightarrow> Inl (org_bad_request MINISTRY_OWNER_POSITION_REQUIRED (CtxId i))
      | Some owner \<Rightarrow>
          bindE (require_owner_position_incumbent s owner) (\<lambda>_.
          bindE (validate_members_for_submit i e s) (\<lambda>_.
          bindE (update_ministry_rows i (mark_submitted e) s) (\<lambda>(_, s1).
          case fresh_uuid s1 of (k, s2) \<Rightarrow>
          bindE (insert_approval (new_approval e k i owner) s2) (\<lambda>s3. Inr ((), s3)))))))"

definition approve_ministry :: "uuid \<Rightarrow> string option \<Rightarrow> unit handler" where
  "approve_ministry i remark e s =
     bindE (require_ministry s i) (\<lambda>m.
     raise_if (mi_status m \<noteq> MS_PENDING_APPROVAL) (org_bad_request MINISTRY_NOT_PENDING_APPROVAL (CtxId i))
       (bindE (update_ministry_rows i (mark_approved e) s) (\<lambda>(_, s1).
        Inr ((), update_approval i AP_APPROVED (en_user_id e) (en_now_utc e) remark s1))))"

definition reject_ministry :: "uuid \<Rightarrow> string \<Rightarrow> string option \<Rightarrow> unit handler" where
  "reject_ministry i reason remark e s =
     bindE (require_ministry s i) (\<lambda>m.
     raise_if (mi_status m \<noteq> MS_PENDING_APPROVAL) (org_bad_request MINISTRY_NOT_PENDING_APPROVAL (CtxId i))
       (bindE (update_ministry_rows i (mark_rejected e reason) s) (\<lambda>(_, s1).
        Inr ((), update_approval i AP_REJECTED (en_user_id e) (en_now_utc e) (py_or remark (Some reason)) s1))))"

definition approve_ministry_as_incumbent :: "uuid \<Rightarrow> string option \<Rightarrow> unit handler" where
  "approve_ministry_as_incumbent i remark e s =
     bindE (require_ministry s i) (\<lambda>m. bindE (require_incumbent e s m) (\<lambda>_. approve_ministry i remark e s))"

definition reject_ministry_as_incumbent :: "uuid \<Rightarrow> string \<Rightarrow> string option \<Rightarrow> unit handler" where
  "reject_ministry_as_incumbent i reason remark e s =
     bindE (require_ministry s i) (\<lambda>m. bindE (require_incumbent e s m) (\<lambda>_. reject_ministry i reason remark e s))"

record rejected_update_command =
  ru_ministry_type_id :: "uuid option"
  ru_target_audience_ids :: "uuid list option"
  ru_has_priority_booking :: bool
  ru_translations :: "translation list option"
  ru_members :: "member_entry list option"

text \<open>The owner position stays; \<open>is_active\<close> is reset to its default.\<close>

definition rejected_to_update :: "rejected_update_command \<Rightarrow> update_ministry_command" where
  "rejected_to_update command =
     \<lparr>uc_owner_position_id = None, uc_ministry_type_id = ru_ministry_type_id command, uc_target_audience_ids = ru_target_audience_ids command,
      uc_schedules = None, uc_has_priority_booking = ru_has_priority_booking command, uc_is_active = True, uc_sequence = None,
      uc_translations = ru_translations command\<rparr>"

definition update_rejected_application :: "uuid \<Rightarrow> rejected_update_command \<Rightarrow> unit handler" where
  "update_rejected_application i command e s =
     bindE (require_ministry s i) (\<lambda>m.
     raise_if (mi_status m \<noteq> MS_REJECTED) (org_bad_request MINISTRY_INVALID_STATUS_FOR_UPDATE (CtxId i))
     (bindE (require_applicant_or_steward e s m) (\<lambda>_.
      bindE (update_ministry i (rejected_to_update command) e s) (\<lambda>(_, s1).
      case ru_members command of None \<Rightarrow> Inr ((), s1) | Some members \<Rightarrow> replace_members i members e s1))))"

definition resubmit_ministry :: "uuid \<Rightarrow> unit handler" where
  "resubmit_ministry i e s =
     bindE (require_ministry s i) (\<lambda>m.
     raise_if (mi_status m \<noteq> MS_REJECTED) (org_bad_request MINISTRY_INVALID_STATUS_FOR_SUBMIT (CtxId i))
     (bindE (require_applicant_or_steward e s m) (\<lambda>_. submit_ministry i e s)))"

record application_command =
  ac_owner_position_id :: uuid
  ac_ministry_type_id :: "uuid option"
  ac_target_audience_ids :: "uuid list"
  ac_has_priority_booking :: bool
  ac_translations :: "translation list"
  ac_members :: "member_entry list"

definition application_to_create :: "application_command \<Rightarrow> create_ministry_command" where
  "application_to_create command =
     \<lparr>nc_owner_position_id = Some (ac_owner_position_id command), nc_ministry_type_id = ac_ministry_type_id command,
      nc_target_audience_ids = ac_target_audience_ids command, nc_schedules = [], nc_has_priority_booking = ac_has_priority_booking command,
      nc_is_active = True, nc_sequence = None, nc_translations = ac_translations command\<rparr>"

definition create_application :: "application_command \<Rightarrow> uuid handler" where
  "create_application command e s =
     bindE (require_owner_position_incumbent s (ac_owner_position_id command)) (\<lambda>_.
     bindE (create_ministry (application_to_create command) e s) (\<lambda>(i, s1).
     bindE (if ac_members command = [] then Inr ((), s1) else replace_members i (ac_members command) e s1) (\<lambda>(_, s2).
     bindE (submit_ministry i e s2) (\<lambda>(_, s3). Inr (i, s3)))))"

definition get_approval_detail :: "uuid \<Rightarrow> env \<Rightarrow> db \<Rightarrow> exn + ministry" where
  "get_approval_detail i e s =
     bindE (require_ministry s i) (\<lambda>m. bindE (require_ministry_access e s m) (\<lambda>_. Inr m))"

text \<open>Latest submission first, applications without one last.\<close>

definition by_submission :: "ministry list \<Rightarrow> ministry list" where
  "by_submission ms =
     sort_key (\<lambda>m. - the (mi_submitted_at m)) (filter (\<lambda>m. mi_submitted_at m \<noteq> None) ms) @ filter (\<lambda>m. mi_submitted_at m = None) ms"

definition list_pending_for_incumbent :: "env \<Rightarrow> db \<Rightarrow> exn + uuid list" where
  "list_pending_for_incumbent e s =
     bindE (require_authenticated_user e) (\<lambda>user_id.
       Inr (map mi_id (by_submission (filter (\<lambda>m. \<not> mi_is_deleted m \<and> mi_status m = MS_PENDING_APPROVAL \<and> is_incumbent_of_ministry s m user_id)
              (db_ministries s)))))"

end
