(* ===== verification/Ministry_Register.thy ===== *)
theory Ministry_Register imports Ministry_Approval Series_Drafts begin

text \<open>
  What the workflow guarantees: the register of approvals agrees with the status of every ministry, and no ministry leaves
  its draft without stewards. The guarantee needs requests to name ministries that are not deleted, because the workflow
  reads deleted ministries and the update it makes skips them.
\<close>

section \<open>The register\<close>

definition roles_of :: "ministry_member list \<Rightarrow> uuid \<Rightarrow> member_role list" where
  "roles_of members i = map mm_role (filter (\<lambda>r. mm_ministry_id r = i) members)"

definition staffed :: "ministry_member list \<Rightarrow> uuid \<Rightarrow> bool" where
  "staffed members i \<longleftrightarrow> validate_primary_and_secondary (roles_of members i) = Inr ()"

definition application_ok :: "ministry_member list \<Rightarrow> ministry_approval list \<Rightarrow> ministry \<Rightarrow> bool" where
  "application_ok members approvals m \<longleftrightarrow>
     length (filter (awaiting (mi_id m)) approvals) = (if mi_status m = MS_PENDING_APPROVAL then 1 else 0) \<and>
     (mi_status m \<noteq> MS_DRAFT \<longrightarrow> staffed members (mi_id m) \<and> mi_submitted_at m \<noteq> None) \<and>
     (mi_status m = MS_ACTIVE \<longrightarrow> mi_approved_at m \<noteq> None) \<and>
     (mi_status m = MS_REJECTED \<longrightarrow> mi_rejected_at m \<noteq> None \<and> mi_rejection_reason m \<noteq> None)"

abbreviation approvals_of :: "db \<Rightarrow> ministry_approval list" where "approvals_of s \<equiv> og_approvals (db_org s)"

definition register_ok :: "db \<Rightarrow> bool" where
  "register_ok s \<longleftrightarrow>
     distinct (map mi_id (db_ministries s)) \<and>
     (\<forall>m\<in>set (db_ministries s). mi_id m < db_next_uuid s \<and> application_ok (db_members s) (approvals_of s) m) \<and>
     (\<forall>a\<in>set (approvals_of s). ma_ministry_id a \<in> mi_id ` set (db_ministries s)) \<and>
     (\<forall>r\<in>set (db_members s). mm_ministry_id r \<in> mi_id ` set (db_ministries s))"

text \<open>Only these fields of a ministry matter to it.\<close>

definition application_key ::
  "ministry \<Rightarrow> uuid \<times> ministry_status \<times> instant option \<times> instant option \<times> instant option \<times> string option" where
  "application_key m = (mi_id m, mi_status m, mi_submitted_at m, mi_approved_at m, mi_rejected_at m, mi_rejection_reason m)"

lemma application_ok_key: "application_key m = application_key m' \<Longrightarrow> application_ok ms as m \<longleftrightarrow> application_ok ms as m'"
  by (simp add: application_key_def application_ok_def)

lemma mi_id_of_keys: "map application_key xs = map application_key ys \<Longrightarrow> map mi_id xs = map mi_id ys"
proof -
  assume "map application_key xs = map application_key ys"
  then have "map fst (map application_key xs) = map fst (map application_key ys)" by simp
  then show ?thesis by (simp add: comp_def application_key_def)
qed

lemma keys_witness: "map f xs = map f ys \<Longrightarrow> x \<in> set xs \<Longrightarrow> \<exists>y\<in>set ys. f x = f y"
  by (metis (no_types, lifting) imageE image_eqI list.set_map)

lemma register_cong:
  assumes "register_ok s" and keys: "map application_key (db_ministries s') = map application_key (db_ministries s)"
    and "db_members s' = db_members s" "approvals_of s' = approvals_of s" "db_next_uuid s \<le> db_next_uuid s'"
  shows "register_ok s'"
proof -
  have ids: "map mi_id (db_ministries s') = map mi_id (db_ministries s)" by (rule mi_id_of_keys [OF keys])
  then have img: "mi_id ` set (db_ministries s') = mi_id ` set (db_ministries s)" by (metis list.set_map)
  have "mi_id m < db_next_uuid s' \<and> application_ok (db_members s') (approvals_of s') m" if m: "m \<in> set (db_ministries s')" for m
  proof -
    obtain m' where "m' \<in> set (db_ministries s)" "application_key m = application_key m'" using keys_witness [OF keys m] by blast
    with assms(1,3,4,5) show ?thesis using application_ok_key [of m m'] by (auto simp: register_ok_def application_key_def)
  qed
  with assms(1,3,4) show ?thesis by (simp add: register_ok_def ids img del: map_eq_conv)
qed

lemma update_keeps_keys: "(\<And>m. application_key (f m) = application_key m) \<Longrightarrow> map application_key (update_where p f ms) = map application_key ms"
  by (simp add: update_where_def)

lemma roles_listed: "map mr_role (ministry_list_members s i) = roles_of (db_members s) i"
  by (auto simp: ministry_list_members_def roles_of_def split: option.splits)

lemma submit_needs_staff: "validate_members_for_submit i e s = Inr () \<Longrightarrow> staffed (db_members s) i"
  by (simp add: validate_members_for_submit_def list_members_def guard_simps roles_listed staffed_def)

section \<open>The operations of the service\<close>

lemma checked_translations_Inr:
  assumes "validate_and_upsert_translations i rows s = Inr s'"
  obtains ms where "s' = s\<lparr>db_ministries := ms\<rparr>" "map application_key ms = map application_key (db_ministries s)"
proof (cases "rows = []")
  case True
  with assms that [of "db_ministries s"] show ?thesis by (simp add: validate_and_upsert_translations_def)
next
  case False
  let ?f = "\<lambda>m. m\<lparr>mi_translations := fold upsert_translation rows (mi_translations m)\<rparr>"
  have "s' = s\<lparr>db_ministries := update_where (\<lambda>m. mi_id m = i) ?f (db_ministries s)\<rparr>"
    using assms False by (auto simp: validate_and_upsert_translations_def guard_simps Let_def upsert_ministry_translations_def)
  then show ?thesis by (rule that) (simp add: update_keeps_keys application_key_def)
qed

lemma org_writes_Inr:
  "upsert_ministry_schedules i rows s = Inr s' \<Longrightarrow> \<exists>x. s' = s\<lparr>db_org := (db_org s)\<lparr>og_schedules := x\<rparr>\<rparr>"
  "upsert_ministry_audiences i ids s = Inr s' \<Longrightarrow> \<exists>x. s' = s\<lparr>db_org := (db_org s)\<lparr>og_ministry_audiences := x\<rparr>\<rparr>"
  by (auto simp: upsert_ministry_schedules_def upsert_ministry_audiences_def guard_simps)

text \<open>A write that leaves the register alone.\<close>

definition same_register :: "db \<Rightarrow> db \<Rightarrow> bool" where
  "same_register s s' \<longleftrightarrow> map application_key (db_ministries s') = map application_key (db_ministries s) \<and>
     db_members s' = db_members s \<and> approvals_of s' = approvals_of s \<and> db_next_uuid s \<le> db_next_uuid s'"

lemma same_register_refl: "same_register s s"
  by (simp add: same_register_def)

lemma same_register_trans: "same_register s t \<Longrightarrow> same_register t u \<Longrightarrow> same_register s u"
  by (simp add: same_register_def)

lemma same_register_ok: "same_register s s' \<Longrightarrow> register_ok s \<Longrightarrow> register_ok s'"
  unfolding same_register_def by (elim conjE) (rule register_cong)

lemma checked_translations_same: "validate_and_upsert_translations i rows s = Inr s' \<Longrightarrow> same_register s s'"
  by (erule checked_translations_Inr) (simp add: same_register_def)

lemma org_writes_same:
  "upsert_ministry_schedules i rows s = Inr s' \<Longrightarrow> same_register s s'"
  "upsert_ministry_audiences i ids s = Inr s' \<Longrightarrow> same_register s s'"
  by (auto simp: same_register_def dest!: org_writes_Inr)

lemma option_writes_same:
  "upsert_schedules i gs s = Inr s' \<Longrightarrow> same_register s s'"
  "upsert_target_audiences i ids s = Inr s' \<Longrightarrow> same_register s s'"
  by (auto simp: upsert_schedules_def upsert_target_audiences_def guard_simps same_register_refl org_writes_same split: option.splits)

lemma update_ministry_rows_Inr:
  "update_ministry_rows i f s = Inr (n, s') \<longleftrightarrow>
     list_all (\<lambda>m. live_ministry i m \<longrightarrow> ministry_constraints s m) (update_where (live_ministry i) f (db_ministries s)) \<and>
     n = length (filter (live_ministry i) (db_ministries s)) \<and>
     s' = s\<lparr>db_ministries := update_where (live_ministry i) f (db_ministries s)\<rparr>"
  by (auto simp: update_ministry_rows_def Let_def guard_simps)

lemma update_ministry_same:
  assumes "update_ministry i command e s = Inr (u, s')" shows "same_register s s'"
proof -
  obtain t s1 s2 s3 where *: "s1 = s\<lparr>db_ministries := update_where (live_ministry i) (edit_ministry command t) (db_ministries s)\<rparr>"
    "validate_and_upsert_translations i (case uc_translations command of None \<Rightarrow> [] | Some trs \<Rightarrow> trs) s1 = Inr s2"
    "upsert_schedules i (uc_schedules command) s2 = Inr s3" "upsert_target_audiences i (uc_target_audience_ids command) s3 = Inr s'"
    using assms by (auto simp: update_ministry_def guard_simps update_ministry_rows_Inr split: prod.splits)
  have "same_register s s1" by (simp add: *(1) same_register_def update_keeps_keys application_key_def edit_ministry_def)
  from same_register_trans [OF same_register_trans [OF same_register_trans [OF this checked_translations_same [OF *(2)]]
        option_writes_same(1) [OF *(3)]] option_writes_same(2) [OF *(4)]]
  show ?thesis .
qed

lemma flags_same: "same_register s (ministry_delete_soft i s)" "same_register s (ministry_restore i s)"
  by (simp_all add: same_register_def ministry_delete_soft_def ministry_restore_def update_keeps_keys application_key_def)

lemma restores_same: "same_register s (fold ministry_restore ids s)"
  by (induction ids arbitrary: s) (auto intro: same_register_refl same_register_trans flags_same)

lemma elsewhere:
  assumes "j \<noteq> i"
  shows "filter (awaiting j) (filter (\<lambda>a. ma_ministry_id a \<noteq> i) as) = filter (awaiting j) as"
    and "roles_of (filter (\<lambda>r. mm_ministry_id r \<noteq> i) ms) j = roles_of ms j"
  using assms by (auto simp: awaiting_def roles_of_def intro!: arg_cong [of _ _ "map mm_role"] filter_cong)

lemma delete_hard_register: "register_ok s \<Longrightarrow> register_ok (ministry_delete_hard i s)"
  unfolding register_ok_def ministry_delete_hard_def application_ok_def staffed_def
  by (auto simp: elsewhere distinct_map simp del: filter_filter intro: inj_on_subset)

lemma new_ministry_register:
  assumes ok: "register_ok s" and m: "mi_status m = MS_DRAFT" "mi_id m = db_next_uuid s"
    and s': "db_ministries s' = db_ministries s @ [m]" "db_members s' = db_members s" "approvals_of s' = approvals_of s"
      "db_next_uuid s' = db_next_uuid s + 1"
  shows "register_ok s'"
proof -
  have "ma_ministry_id a \<noteq> mi_id m" if "a \<in> set (approvals_of s)" for a
    using ok m(2) that unfolding register_ok_def by (metis imageE order_less_irrefl)
  then have "filter (awaiting (mi_id m)) (approvals_of s) = []" by (auto simp: filter_empty_conv awaiting_def)
  with m(1) have "application_ok (db_members s) (approvals_of s) m" by (simp add: application_ok_def)
  with ok m show ?thesis by (auto simp: register_ok_def s' less_Suc_eq)
qed

lemma create_ministry_register:
  assumes "create_ministry command e s = Inr (i, s')" "register_ok s" shows "register_ok s'"
proof -
  obtain t s1 s2 rows s3 where *: "insert_ministry (new_ministry e command t (db_next_uuid s)) (s\<lparr>db_next_uuid := db_next_uuid s + 1\<rparr>) = Inr s1"
    "validate_and_upsert_translations i (nc_translations command) s1 = Inr s2" "upsert_ministry_schedules i rows s2 = Inr s3"
    "upsert_ministry_audiences i (nc_target_audience_ids command) s3 = Inr s'"
    using assms(1) by (auto simp: create_ministry_def guard_simps fresh_uuid_def)
  have "register_ok s1"
    by (rule new_ministry_register [OF assms(2), of "new_ministry e command t (db_next_uuid s)"])
      (use *(1) in \<open>auto simp: insert_ministry_def guard_simps new_ministry_def\<close>)
  moreover have "same_register s1 s'"
    using same_register_trans [OF same_register_trans [OF checked_translations_same [OF *(2)] org_writes_same(1) [OF *(3)]]
      org_writes_same(2) [OF *(4)]] .
  ultimately show ?thesis using same_register_ok by blast
qed

lemma replace_members_register:
  assumes "replace_members i members e s = Inr (u, s')" "register_ok s" shows "register_ok s'"
proof -
  let ?rows = "map (member_row i) members"
  have *: "validate_primary_and_secondary (map me_role members) = Inr ()" "find_ministry s i \<noteq> None"
    "s' = s\<lparr>db_members := filter (\<lambda>r. mm_ministry_id r \<noteq> i) (db_members s) @ ?rows\<rparr>"
    using assms(1) by (auto simp: replace_members_def replace_member_rows_def guard_simps)
  have listed: "i \<in> mi_id ` set (db_ministries s)" using *(2) by (auto simp: find_ministry_def dest: find_Some_set)
  have "map mm_role (filter (\<lambda>r. mm_ministry_id r = i) ?rows) = map me_role members"
    by (induction members) (simp_all add: member_row_def)
  then have mine: "staffed (db_members s') i" using *(1) by (simp add: staffed_def roles_of_def *(3) filter_empty_conv)
  have others: "roles_of (db_members s') j = roles_of (db_members s) j" if "j \<noteq> i" for j
    using that by (auto simp: roles_of_def *(3) member_row_def filter_empty_conv intro!: arg_cong [of _ _ "map mm_role"] filter_cong)
  have "application_ok (db_members s') (approvals_of s') m" if "application_ok (db_members s) (approvals_of s) m" for m
    using that mine others [of "mi_id m"] by (cases "mi_id m = i") (auto simp: application_ok_def staffed_def *(3))
  with assms(2) listed show ?thesis by (auto simp: register_ok_def *(3) member_row_def)
qed

section \<open>The workflow\<close>

lemma find_ministry_in: "find_ministry s i = Some m \<Longrightarrow> m \<in> set (db_ministries s) \<and> mi_id m = i"
  by (auto simp: find_ministry_def dest: find_Some_set)

text \<open>The workflow moves one ministry that is not deleted, and its own approvals.\<close>

lemma register_advance:
  assumes ok: "register_ok s" and m0: "m0 \<in> set (db_ministries s)" "live_ministry i m0"
    and keeps: "\<And>m. mi_id (f m) = mi_id m" and new: "application_ok (db_members s) (approvals_of s') (f m0)"
    and others: "\<And>j. j \<noteq> i \<Longrightarrow> filter (awaiting j) (approvals_of s') = filter (awaiting j) (approvals_of s)"
    and fks: "\<forall>a\<in>set (approvals_of s'). ma_ministry_id a \<in> mi_id ` set (db_ministries s)"
    and s': "db_ministries s' = update_where (live_ministry i) f (db_ministries s)" "db_members s' = db_members s"
      "db_next_uuid s \<le> db_next_uuid s'"
  shows "register_ok s'"
proof -
  have ids: "map mi_id (db_ministries s') = map mi_id (db_ministries s)" by (simp add: s' map_update_keeps keeps)
  then have img: "mi_id ` set (db_ministries s') = mi_id ` set (db_ministries s)" by (metis list.set_map)
  have same: "m = m0" if "m \<in> set (db_ministries s)" "mi_id m = i" for m
    using ok m0 that by (auto simp: register_ok_def live_ministry_def distinct_map dest: inj_onD)
  have "mi_id m' < db_next_uuid s' \<and> application_ok (db_members s') (approvals_of s') m'" if m': "m' \<in> set (db_ministries s')" for m'
  proof -
    obtain m where m: "m \<in> set (db_ministries s)" "m' = (if live_ministry i m then f m else m)"
      using m' by (auto simp: s' update_where_def)
    show ?thesis
    proof (cases "mi_id m = i")
      case True
      with ok m same m0 new s' keeps show ?thesis by (auto simp: register_ok_def)
    next
      case False
      with ok m s' others [OF False] show ?thesis by (auto simp: register_ok_def live_ministry_def application_ok_def)
    qed
  qed
  with ok fks show ?thesis by (simp add: register_ok_def ids img s'(2) del: map_eq_conv)
qed

lemma live_kept: "find_ministry s i = Some m \<Longrightarrow> ministry_kept s (Some i) \<Longrightarrow> live_ministry i m"
  using find_ministry_in by (simp add: ministry_kept_def live_ministry_def)

lemma submit_Inr:
  assumes "submit_ministry i e s = Inr (u, s')"
  obtains m owner where "find_ministry s i = Some m" "mi_status m \<in> {MS_DRAFT, MS_REJECTED}" "mi_owner_position_id m = Some owner"
    "staffed (db_members s) i"
    "s' = s\<lparr>db_ministries := update_where (live_ministry i) (mark_submitted e) (db_ministries s), db_next_uuid := db_next_uuid s + 1,
            db_org := (db_org s)\<lparr>og_approvals := approvals_of s @ [new_approval e (db_next_uuid s) i owner]\<rparr>\<rparr>"
  using assms
  by (auto simp: submit_ministry_def require_ministry_def guard_simps update_ministry_rows_Inr fresh_uuid_def insert_approval_def
      dest!: submit_needs_staff split: option.splits)

lemma submit_register:
  assumes sub: "submit_ministry i e s = Inr (u, s')" and ok: "register_ok s" and live: "ministry_kept s (Some i)"
  shows "register_ok s'"
proof -
  obtain m owner where *: "find_ministry s i = Some m" "mi_status m \<in> {MS_DRAFT, MS_REJECTED}" "staffed (db_members s) i"
    "s' = s\<lparr>db_ministries := update_where (live_ministry i) (mark_submitted e) (db_ministries s), db_next_uuid := db_next_uuid s + 1,
            db_org := (db_org s)\<lparr>og_approvals := approvals_of s @ [new_approval e (db_next_uuid s) i owner]\<rparr>\<rparr>"
    using submit_Inr [OF sub] by metis
  note m = find_ministry_in [OF *(1)]
  have "filter (awaiting i) (approvals_of s) = []" using ok m *(2) by (auto simp: register_ok_def application_ok_def)
  then have "application_ok (db_members s) (approvals_of s') (mark_submitted e m)"
    using m *(3) by (simp add: *(4) application_ok_def mark_submitted_def new_approval_def awaiting_def)
  then show ?thesis
    by (intro register_advance [where f = "mark_submitted e" and s' = s', OF ok conjunct1 [OF m] live_kept [OF *(1) live]])
      (use ok m in \<open>auto simp: *(4) mark_submitted_def new_approval_def awaiting_def register_ok_def\<close>)
qed

text \<open>A decision closes the request of an application that has one.\<close>

lemma no_longer_pending: "status \<noteq> AP_PENDING \<Longrightarrow>
    filter (awaiting j) (approvals_of (update_approval i status by d c s)) = (if j = i then [] else filter (awaiting j) (approvals_of s))"
proof -
  assume st: "status \<noteq> AP_PENDING"
  have "filter (awaiting j) (update_where (awaiting i) (\<lambda>a. a\<lparr>ma_status := status, ma_resolved_by_id := by, ma_decided_at := Some d,
      ma_comment := c\<rparr>) xs) = (if j = i then [] else filter (awaiting j) xs)" for xs
    unfolding awaiting_def by (induction xs) (use st in \<open>auto simp: update_where_def\<close>)
  then show ?thesis by (simp add: update_approval_def)
qed

lemma update_approval_frame [simp]:
  "db_ministries (update_approval i status by d c s) = db_ministries s" "db_members (update_approval i status by d c s) = db_members s"
  "db_next_uuid (update_approval i status by d c s) = db_next_uuid s"
  "ma_ministry_id ` set (approvals_of (update_approval i status by d c s)) = ma_ministry_id ` set (approvals_of s)"
  by (simp_all add: update_approval_def image_update_keeps)

lemma decision_register:
  assumes ok: "register_ok s" and m: "find_ministry s i = Some m" "mi_status m = MS_PENDING_APPROVAL" and live: "ministry_kept s (Some i)"
    and f: "\<And>m. mi_id (f m) = mi_id m" "application_ok (db_members s) [] (f m)" and st: "status \<noteq> AP_PENDING"
    and s': "s' = update_approval i status by d c (s\<lparr>db_ministries := update_where (live_ministry i) f (db_ministries s)\<rparr>)"
  shows "register_ok s'"
proof -
  note min = find_ministry_in [OF m(1)]
  have "application_ok (db_members s) (approvals_of s') (f m)"
    using f min by (simp add: application_ok_def s' no_longer_pending [OF st])
  moreover have "ma_ministry_id ` set (approvals_of s') \<subseteq> mi_id ` set (db_ministries s)"
    using ok by (simp add: s' register_ok_def image_subset_iff)
  then have "\<forall>a\<in>set (approvals_of s'). ma_ministry_id a \<in> mi_id ` set (db_ministries s)" by (simp add: image_subset_iff)
  moreover have "filter (awaiting j) (approvals_of s') = filter (awaiting j) (approvals_of s)" if "j \<noteq> i" for j
    using that by (simp add: s' no_longer_pending [OF st])
  ultimately show ?thesis
    using register_advance [where f = f and s' = s', OF ok conjunct1 [OF min] live_kept [OF m(1) live] f(1)] by (simp add: s')
qed

lemma approve_register:
  assumes "approve_ministry i remark e s = Inr (u, s')" and ok: "register_ok s" and live: "ministry_kept s (Some i)"
  shows "register_ok s'"
proof -
  obtain m where m: "find_ministry s i = Some m" "mi_status m = MS_PENDING_APPROVAL"
    "s' = update_approval i AP_APPROVED (en_user_id e) (en_now_utc e) remark
            (s\<lparr>db_ministries := update_where (live_ministry i) (mark_approved e) (db_ministries s)\<rparr>)"
    using assms(1) by (auto simp: approve_ministry_def require_ministry_def guard_simps update_ministry_rows_Inr split: option.splits)
  show ?thesis
    by (rule decision_register [OF ok m(1,2) live _ _ _ m(3)])
      (use ok m(2) find_ministry_in [OF m(1)] in \<open>auto simp: mark_approved_def register_ok_def application_ok_def\<close>)
qed

lemma reject_register:
  assumes "reject_ministry i reason remark e s = Inr (u, s')" and ok: "register_ok s" and live: "ministry_kept s (Some i)"
  shows "register_ok s'"
proof -
  obtain m where m: "find_ministry s i = Some m" "mi_status m = MS_PENDING_APPROVAL"
    "s' = update_approval i AP_REJECTED (en_user_id e) (en_now_utc e) (py_or remark (Some reason))
            (s\<lparr>db_ministries := update_where (live_ministry i) (mark_rejected e reason) (db_ministries s)\<rparr>)"
    using assms(1) by (auto simp: reject_ministry_def require_ministry_def guard_simps update_ministry_rows_Inr split: option.splits)
  show ?thesis
    by (rule decision_register [OF ok m(1,2) live _ _ _ m(3)])
      (use ok m(2) find_ministry_in [OF m(1)] in \<open>auto simp: mark_rejected_def register_ok_def application_ok_def\<close>)
qed

text \<open>A new ministry is not deleted, so its application goes through.\<close>

lemma created_kept:
  assumes create: "create_ministry command e s = Inr (i, s')" and ok: "register_ok s"
  shows "ministry_kept s' (Some i)"
proof -
  obtain t s1 s2 rows s3 where *: "insert_ministry (new_ministry e command t i) (s\<lparr>db_next_uuid := db_next_uuid s + 1\<rparr>) = Inr s1"
    "validate_and_upsert_translations i (nc_translations command) s1 = Inr s2" "upsert_ministry_schedules i rows s2 = Inr s3"
    "upsert_ministry_audiences i (nc_target_audience_ids command) s3 = Inr s'" "i = db_next_uuid s"
    using create by (auto simp: create_ministry_def guard_simps fresh_uuid_def)
  have s1: "db_ministries s1 = db_ministries s @ [new_ministry e command t i]" using *(1) by (auto simp: insert_ministry_def guard_simps)
  have "db_ministries s' = db_ministries s2" using *(3,4) by (auto dest!: org_writes_Inr)
  moreover have "\<exists>p f. db_ministries s2 = update_where p f (db_ministries s1) \<and> (\<forall>m. mi_id (f m) = mi_id m \<and> mi_is_deleted (f m) = mi_is_deleted m)"
  proof (cases "nc_translations command = []")
    case True
    with *(2) show ?thesis
      by (intro exI [of _ "\<lambda>_. True"] exI [of _ "\<lambda>m. m"]) (simp add: validate_and_upsert_translations_def update_where_def)
  next
    case False
    let ?f = "\<lambda>m. m\<lparr>mi_translations := fold upsert_translation (nc_translations command) (mi_translations m)\<rparr>"
    show ?thesis
      by (intro exI [of _ "\<lambda>m. mi_id m = i"] exI [of _ ?f])
        (use *(2) False in \<open>auto simp: validate_and_upsert_translations_def guard_simps Let_def upsert_ministry_translations_def\<close>)
  qed
  ultimately obtain p f where s': "db_ministries s' = update_where p f (db_ministries s1)"
    and f: "\<And>m. mi_id (f m) = mi_id m \<and> mi_is_deleted (f m) = mi_is_deleted m" by metis
  have "\<not> mi_is_deleted m" if m: "m \<in> set (db_ministries s')" "mi_id m = i" for m
  proof -
    obtain m' where "m' \<in> set (db_ministries s1)" "m = (if p m' then f m' else m')" using m(1) by (auto simp: s' update_where_def)
    with m(2) ok *(5) f show ?thesis by (auto simp: s1 new_ministry_def register_ok_def split: if_splits)
  qed
  then show ?thesis by (auto simp: ministry_kept_def dest: find_ministry_in)
qed

lemma replace_members_ministries: "replace_members i members e s = Inr (u, s') \<Longrightarrow> db_ministries s' = db_ministries s"
  by (auto simp: replace_members_def replace_member_rows_def guard_simps)

lemma kept_cong: "db_ministries s' = db_ministries s \<Longrightarrow> ministry_kept s' x \<longleftrightarrow> ministry_kept s x"
  by (simp add: ministry_kept_def find_ministry_def)

lemma create_application_register:
  assumes "create_application command e s = Inr (i, s')" and ok: "register_ok s" shows "register_ok s'"
proof -
  obtain s1 s2 where *: "create_ministry (application_to_create command) e s = Inr (i, s1)"
    "(if ac_members command = [] then Inr ((), s1) else replace_members i (ac_members command) e s1) = Inr ((), s2)"
    "submit_ministry i e s2 = Inr ((), s')"
    using assms(1) by (auto simp: create_application_def guard_simps)
  have "register_ok s1" by (rule create_ministry_register [OF *(1) ok])
  then have "register_ok s2" using *(2) replace_members_register by (auto split: if_splits)
  moreover have "ministry_kept s2 (Some i)"
    using created_kept [OF *(1) ok] *(2) kept_cong [OF replace_members_ministries] by (auto split: if_splits)
  ultimately show ?thesis using submit_register [OF *(3)] by blast
qed

lemma fix_register:
  assumes "update_rejected_application i command e s = Inr (u, s')" and ok: "register_ok s" shows "register_ok s'"
proof -
  obtain s1 where *: "update_ministry i (rejected_to_update command) e s = Inr ((), s1)"
    "(case ru_members command of None \<Rightarrow> Inr ((), s1) | Some members \<Rightarrow> replace_members i members e s1) = Inr (u, s')"
    using assms(1) by (auto simp: update_rejected_application_def guard_simps)
  have "register_ok s1" by (rule same_register_ok [OF update_ministry_same [OF *(1)] ok])
  with *(2) show ?thesis using replace_members_register by (auto split: option.splits)
qed

section \<open>Requests about ministries\<close>

datatype ministry_request =
    Create_Ministry create_ministry_command
  | Update_Ministry uuid update_ministry_command
  | Delete_Ministry uuid bool
  | Restore_Ministries "uuid list"
  | Replace_Members uuid "member_entry list"
  | Submit_Ministry uuid
  | Approve_Ministry uuid "string option"
  | Reject_Ministry uuid string "string option"
  | Approve_As_Incumbent uuid "string option"
  | Reject_As_Incumbent uuid string "string option"
  | Apply application_command
  | Fix_Application uuid rejected_update_command
  | Resubmit uuid

fun serve_ministry :: "env \<Rightarrow> ministry_request \<Rightarrow> db \<Rightarrow> db" where
  "serve_ministry e (Create_Ministry command) s = after (create_ministry command e s) s"
| "serve_ministry e (Update_Ministry i command) s = after (update_ministry i command e s) s"
| "serve_ministry e (Delete_Ministry i permanent) s = after (delete_ministry i permanent e s) s"
| "serve_ministry e (Restore_Ministries ids) s = after (restore_ministries ids e s) s"
| "serve_ministry e (Replace_Members i members) s = after (replace_members i members e s) s"
| "serve_ministry e (Submit_Ministry i) s = after (submit_ministry i e s) s"
| "serve_ministry e (Approve_Ministry i remark) s = after (approve_ministry i remark e s) s"
| "serve_ministry e (Reject_Ministry i reason remark) s = after (reject_ministry i reason remark e s) s"
| "serve_ministry e (Approve_As_Incumbent i remark) s = after (approve_ministry_as_incumbent i remark e s) s"
| "serve_ministry e (Reject_As_Incumbent i reason remark) s = after (reject_ministry_as_incumbent i reason remark e s) s"
| "serve_ministry e (Apply command) s = after (create_application command e s) s"
| "serve_ministry e (Fix_Application i command) s = after (update_rejected_application i command e s) s"
| "serve_ministry e (Resubmit i) s = after (resubmit_ministry i e s) s"

text \<open>The ministry a request moves through the workflow.\<close>

fun moved_ministry :: "ministry_request \<Rightarrow> uuid option" where
  "moved_ministry (Submit_Ministry i) = Some i"
| "moved_ministry (Approve_Ministry i _) = Some i"
| "moved_ministry (Reject_Ministry i _ _) = Some i"
| "moved_ministry (Approve_As_Incumbent i _) = Some i"
| "moved_ministry (Reject_As_Incumbent i _ _) = Some i"
| "moved_ministry (Resubmit i) = Some i"
| "moved_ministry _ = None"

lemma incumbent_routes:
  "approve_ministry_as_incumbent i remark e s = Inr (u, s') \<Longrightarrow> approve_ministry i remark e s = Inr (u, s')"
  "reject_ministry_as_incumbent i reason remark e s = Inr (u, s') \<Longrightarrow> reject_ministry i reason remark e s = Inr (u, s')"
  "resubmit_ministry i e s = Inr (u, s') \<Longrightarrow> submit_ministry i e s = Inr (u, s')"
  by (auto simp: approve_ministry_as_incumbent_def reject_ministry_as_incumbent_def resubmit_ministry_def guard_simps)

lemma edit_register:
  "update_ministry i edit e s = Inr (u, s') \<Longrightarrow> register_ok s \<Longrightarrow> register_ok s'"
  "restore_ministries ids e s = Inr (u, s') \<Longrightarrow> register_ok s \<Longrightarrow> register_ok s'"
  "delete_ministry i permanent e s = Inr (u, s') \<Longrightarrow> register_ok s \<Longrightarrow> register_ok s'"
  by (auto simp: restore_ministries_def delete_ministry_def guard_simps
      intro: same_register_ok [OF update_ministry_same] same_register_ok [OF restores_same] same_register_ok [OF flags_same(1)]
      delete_hard_register)

lemmas request_keeps = create_ministry_register edit_register replace_members_register create_application_register fix_register
  submit_register approve_register reject_register incumbent_routes(1) [THEN approve_register]
  incumbent_routes(2) [THEN reject_register] incumbent_routes(3) [THEN submit_register]

lemma serve_register:
  assumes ok: "register_ok s" and live: "ministry_kept s (moved_ministry r)"
  shows "register_ok (serve_ministry e r s)"
  by (insert live, cases r; simp only: serve_ministry.simps moved_ministry.simps; rule after_cases [of register_ok, OF ok];
      erule request_keeps; (rule ok | assumption))

inductive served_ministries :: "db \<Rightarrow> bool" where
  none_yet: "served_ministries s" if "db_ministries s = []" "db_members s = []" "approvals_of s = []"
| served: "served_ministries (serve_ministry e r s)" if "served_ministries s" "ministry_kept s (moved_ministry r)"

lemma served_register: "served_ministries s \<Longrightarrow> register_ok s"
proof (induction rule: served_ministries.induct)
  case (none_yet s)
  then show ?case by (simp add: register_ok_def)
qed (rule serve_register)

section \<open>Who decides\<close>

text \<open>The routes of a member's own application; the others are the staff's.\<close>

fun member_route :: "ministry_request \<Rightarrow> bool" where
  "member_route (Apply _) \<longleftrightarrow> True"
| "member_route (Fix_Application _ _) \<longleftrightarrow> True"
| "member_route (Resubmit _) \<longleftrightarrow> True"
| "member_route (Approve_As_Incumbent _ _) \<longleftrightarrow> True"
| "member_route (Reject_As_Incumbent _ _ _) \<longleftrightarrow> True"
| "member_route _ \<longleftrightarrow> False"

definition key_of :: "db \<Rightarrow> uuid \<Rightarrow> (uuid \<times> ministry_status \<times> instant option \<times> instant option \<times> instant option \<times> string option) option" where
  "key_of s i = map_option application_key (find_ministry s i)"

lemma keys_found:
  "map application_key xs = map application_key ys \<Longrightarrow>
   map_option application_key (List.find (\<lambda>m. mi_id m = i) xs) = map_option application_key (List.find (\<lambda>m. mi_id m = i) ys)"
proof (induction xs arbitrary: ys)
  case (Cons x xs)
  then obtain y ys' where y: "ys = y # ys'" "application_key x = application_key y" "map application_key xs = map application_key ys'"
    by (cases ys) auto
  from y(2) have "mi_id x = mi_id y" by (simp add: application_key_def)
  with y(1,2) Cons.IH [OF y(3)] show ?case by simp
qed simp

lemma same_register_key: "same_register s s' \<Longrightarrow> key_of s' i = key_of s i"
  unfolding same_register_def key_of_def find_ministry_def by (elim conjE) (rule keys_found)

lemma find_moved:
  assumes "\<And>m. mi_id (f m) = mi_id m"
  shows "List.find (\<lambda>m. mi_id m = i) (update_where (live_ministry j) f ms) =
    map_option (\<lambda>m. if live_ministry j m then f m else m) (List.find (\<lambda>m. mi_id m = i) ms)"
  by (induction ms) (use assms in \<open>auto simp: update_where_def\<close>)

lemma found_status: "find_ministry s i = Some m \<Longrightarrow> key_of s' i = key_of s i \<Longrightarrow> find_ministry s' i = Some m' \<Longrightarrow> mi_status m' = mi_status m"
  by (simp add: key_of_def application_key_def)

lemma create_key:
  assumes "create_ministry command e s = Inr (j, s')" "register_ok s" "find_ministry s i = Some m"
  shows "key_of s' i = key_of s i \<and> j \<noteq> i"
proof -
  obtain t s1 s2 rows s3 where *: "insert_ministry (new_ministry e command t j) (s\<lparr>db_next_uuid := db_next_uuid s + 1\<rparr>) = Inr s1"
    "validate_and_upsert_translations j (nc_translations command) s1 = Inr s2" "upsert_ministry_schedules j rows s2 = Inr s3"
    "upsert_ministry_audiences j (nc_target_audience_ids command) s3 = Inr s'" "j = db_next_uuid s"
    using assms(1) by (auto simp: create_ministry_def guard_simps fresh_uuid_def)
  have "same_register s1 s'"
    using same_register_trans [OF same_register_trans [OF checked_translations_same [OF *(2)] org_writes_same(1) [OF *(3)]]
      org_writes_same(2) [OF *(4)]] .
  then have "key_of s' i = key_of s1 i" by (rule same_register_key)
  moreover have "find_ministry s1 i = Some m"
    using *(1) assms(3) by (auto simp: insert_ministry_def guard_simps find_ministry_def find_append)
  moreover have "j \<noteq> i" using assms(2) *(5) find_ministry_in [OF assms(3)] by (auto simp: register_ok_def)
  ultimately show ?thesis using assms(3) by (simp add: key_of_def)
qed

lemma submit_find:
  assumes "submit_ministry j e s = Inr (u, s')" "find_ministry s i = Some m" "find_ministry s' i = Some m'"
  shows "m' = (if live_ministry j m then mark_submitted e m else m)"
  by (rule submit_Inr [OF assms(1)]) (use assms(2,3) in \<open>simp add: find_ministry_def find_moved mark_submitted_def\<close>)

lemma replace_members_key: "replace_members j members e s = Inr (u, s') \<Longrightarrow> find_ministry s' i = find_ministry s i"
  using replace_members_ministries by (simp add: find_ministry_def)

lemma apply_status:
  assumes "create_application command e s = Inr (j, s')" "register_ok s" "find_ministry s i = Some m" "find_ministry s' i = Some m'"
  shows "mi_status m' = mi_status m"
proof -
  obtain s1 s2 where *: "create_ministry (application_to_create command) e s = Inr (j, s1)"
    "(if ac_members command = [] then Inr ((), s1) else replace_members j (ac_members command) e s1) = Inr ((), s2)"
    "submit_ministry j e s2 = Inr ((), s')"
    using assms(1) by (auto simp: create_application_def guard_simps)
  note key = create_key [OF *(1) assms(2,3)]
  have same: "find_ministry s2 i = find_ministry s1 i" using *(2) replace_members_key by (auto split: if_splits)
  obtain m1 where m1: "find_ministry s1 i = Some m1" "mi_status m1 = mi_status m"
    using key assms(3) by (auto simp: key_of_def application_key_def)
  have "\<not> live_ministry j m1" using find_ministry_in [OF m1(1)] key by (auto simp: live_ministry_def)
  with submit_find [OF *(3) _ assms(4)] same m1 show ?thesis by auto
qed

lemma fix_status:
  assumes "update_rejected_application j command e s = Inr (u, s')" "find_ministry s i = Some m" "find_ministry s' i = Some m'"
  shows "mi_status m' = mi_status m"
proof -
  obtain s1 where *: "update_ministry j (rejected_to_update command) e s = Inr ((), s1)"
    "(case ru_members command of None \<Rightarrow> Inr ((), s1) | Some members \<Rightarrow> replace_members j members e s1) = Inr (u, s')"
    using assms(1) by (auto simp: update_rejected_application_def guard_simps)
  have "find_ministry s' i = find_ministry s1 i" using *(2) replace_members_key by (auto split: option.splits)
  with found_status [OF assms(2) same_register_key [OF update_ministry_same [OF *(1)]], of m'] assms(3) show ?thesis by simp
qed

lemma decided_ministry:
  assumes "approve_ministry_as_incumbent j remark e s = Inr (u, s') \<or> reject_ministry_as_incumbent j reason remark e s = Inr (u, s')"
    and "find_ministry s i = Some m" "find_ministry s' i = Some m'" "m' \<noteq> m"
  shows "\<exists>u. en_user_id e = Some u \<and> is_incumbent_of_ministry s m u \<and> mi_status m = MS_PENDING_APPROVAL"
proof -
  obtain mj f st d c v where mj: "find_ministry s j = Some mj" "require_incumbent e s mj = Inr v" "mi_status mj = MS_PENDING_APPROVAL"
    and s': "s' = update_approval j st (en_user_id e) d c (s\<lparr>db_ministries := update_where (live_ministry j) f (db_ministries s)\<rparr>)"
    and f: "\<And>m. mi_id (f m) = mi_id m"
    using assms(1)
    by (elim disjE) (auto simp: approve_ministry_as_incumbent_def reject_ministry_as_incumbent_def approve_ministry_def reject_ministry_def
        require_ministry_def guard_simps update_ministry_rows_Inr mark_approved_def mark_rejected_def split: option.splits)
  have "live_ministry j m" using assms(2-4) by (simp add: find_ministry_def s' find_moved f split: if_splits)
  then have "j = i" using find_ministry_in [OF assms(2)] by (simp add: live_ministry_def)
  with mj assms(2) show ?thesis
    by (auto simp: require_incumbent_def require_authenticated_user_def guard_simps split: option.splits)
qed

text \<open>C10. Through the routes of members an application is decided by the current incumbent of its owner position alone, and
  only while it is pending: whoever applies, corrects or resubmits cannot make a ministry active or rejected.\<close>

theorem incumbent_decides:
  assumes "register_ok s" "member_route r" "find_ministry s i = Some m" "find_ministry (serve_ministry e r s) i = Some m'"
    and "mi_status m' \<in> {MS_ACTIVE, MS_REJECTED}" "mi_status m' \<noteq> mi_status m"
  shows "\<exists>u. en_user_id e = Some u \<and> is_incumbent_of_ministry s m u \<and> mi_status m = MS_PENDING_APPROVAL"
proof -
  have changed: "m' \<noteq> m" using assms(6) by auto
  show ?thesis
  proof (cases r)
    case (Apply command)
    with assms apply_status [OF _ assms(1,3)] show ?thesis by (auto simp: after_def split: sum.splits prod.splits)
  next
    case (Fix_Application j command)
    with assms fix_status [OF _ assms(3)] show ?thesis by (auto simp: after_def split: sum.splits prod.splits)
  next
    case (Resubmit j)
    with assms submit_find [OF incumbent_routes(3) assms(3)] show ?thesis
      by (fastforce simp: after_def mark_submitted_def split: sum.splits prod.splits if_splits)
  next
    case (Approve_As_Incumbent j remark)
    with assms decided_ministry [OF disjI1 assms(3) _ changed] show ?thesis by (auto simp: after_def split: sum.splits prod.splits)
  next
    case (Reject_As_Incumbent j reason remark)
    with assms decided_ministry [OF disjI2 assms(3) _ changed] show ?thesis by (auto simp: after_def split: sum.splits prod.splits)
  qed (use assms(2) in simp_all)
qed

section \<open>An application from first draft to activation\<close>

definition before_ministries :: db where
  "before_ministries = sample_db\<lparr>db_ministries := [], db_members := []\<rparr>"

definition sample_application :: application_command where
  "sample_application = \<lparr>ac_owner_position_id = deacon_position_id, ac_ministry_type_id = None, ac_target_audience_ids = [],
     ac_has_priority_booking = True,
     ac_translations = [\<lparr>tr_locale_id = EN_LOCALE_ID, tr_name = ''Choir'', tr_description = None, tr_remark = None, tr_schedule_note = None\<rparr>],
     ac_members = [\<lparr>me_user_id = member_id, me_role = MR_PRIMARY, me_remark = None, me_contact_email = None\<rparr>,
                   \<lparr>me_user_id = steward_id, me_role = MR_SECONDARY, me_remark = None, me_contact_email = None\<rparr>]\<rparr>"

definition applied :: db where
  "applied = serve_ministry (sample_env member_id (moment 2026 1 5 9 0)) (Apply sample_application) before_ministries"

definition declined :: db where
  "declined = serve_ministry (sample_env steward_id (moment 2026 1 6 9 0)) (Reject_As_Incumbent 1000 ''Add a budget'' None) applied"

lemma applied_pending: "map mi_status (db_ministries applied) = [MS_PENDING_APPROVAL] \<and> map ma_status (approvals_of applied) = [AP_PENDING]"
  by code_simp

lemma declined_rejected: "map mi_status (db_ministries declined) = [MS_REJECTED] \<and> map ma_status (approvals_of declined) = [AP_REJECTED]"
  by code_simp

lemma applied_found: "map_option (\<lambda>m. (mi_id m, mi_is_deleted m)) (find_ministry applied 1000) = Some (1000, False)"
  by code_simp

lemma applied_served: "served_ministries applied"
  unfolding applied_def
  by (rule served_ministries.served [OF served_ministries.none_yet])
    (simp_all add: before_ministries_def sample_db_def sample_org_def ministry_kept_def)

lemma declined_served: "served_ministries declined"
  unfolding declined_def
  by (rule served_ministries.served [OF applied_served]) (use applied_found in \<open>auto simp: ministry_kept_def\<close>)

text \<open>C9. In every state reached by requests about ministries that are not deleted, ids are distinct, a ministry has one pending
  approval while its application is pending and none otherwise, and a ministry that has left its draft was submitted and keeps
  exactly one primary and some secondary steward, with the instant of its approval or rejection beside its status.\<close>

theorem ministry_register_invariant:
  assumes "served_ministries s" shows "register_ok s"
  using assms by (rule served_register)

theorem ministry_register_invariant_witness:
  "register_ok declined \<and> map mi_status (db_ministries declined) = [MS_REJECTED]"
  using ministry_register_invariant [OF declined_served] declined_rejected by simp

text \<open>C0 outside: a deleted ministry is submitted without changing its status, and its register then has a request too many.\<close>

lemma deleted_ministry_submitted:
  "inr_sat (submit_ministry 1000 (sample_env member_id (moment 2026 1 7 9 0)) (ministry_delete_soft 1000 declined))
     (\<lambda>(_, s). map mi_status (db_ministries s) = [MS_REJECTED] \<and> map ma_status (approvals_of s) = [AP_REJECTED, AP_PENDING])"
  by code_simp

theorem incumbent_decides_witness:
  "\<exists>u. en_user_id (sample_env steward_id (moment 2026 1 6 9 0)) = Some u \<and>
       (\<forall>m\<in>set_option (find_ministry applied 1000). is_incumbent_of_ministry applied m u \<and> mi_status m = MS_PENDING_APPROVAL)"
proof -
  obtain m where m: "find_ministry applied 1000 = Some m" using applied_found by (cases "find_ministry applied 1000") auto
  obtain m' where m': "find_ministry declined 1000 = Some m'" "mi_status m' = MS_REJECTED"
  proof -
    have "map_option mi_status (find_ministry declined 1000) = Some MS_REJECTED" by code_simp
    then show thesis using that by (cases "find_ministry declined 1000") auto
  qed
  have "mi_status m = MS_PENDING_APPROVAL" using applied_pending find_ministry_in [OF m] by (cases "db_ministries applied") auto
  then have "\<exists>u. en_user_id (sample_env steward_id (moment 2026 1 6 9 0)) = Some u \<and> is_incumbent_of_ministry applied m u \<and>
      mi_status m = MS_PENDING_APPROVAL"
    using incumbent_decides [OF served_register [OF applied_served] _ m, of "Reject_As_Incumbent 1000 ''Add a budget'' None"
      "sample_env steward_id (moment 2026 1 6 9 0)" m'] m' by (simp add: declined_def)
  then show ?thesis by (simp add: m)
qed

section \<open>No application is stuck\<close>

lemma unique_ministry:
  assumes "register_ok s" "find_ministry s i = Some m" "m' \<in> set (db_ministries s)" "mi_id m' = i" shows "m' = m"
  using assms find_ministry_in [OF assms(2)] by (auto simp: register_ok_def distinct_map dest: inj_onD)

lemma update_rows_ok:
  assumes "register_ok s" "find_ministry s i = Some m" "ministry_constraints s (f m)"
    and f: "\<And>m. mi_id (f m) = mi_id m" "\<And>m. mi_is_deleted (f m) = mi_is_deleted m"
  shows "\<exists>n. update_ministry_rows i f s = Inr (n, s\<lparr>db_ministries := update_where (live_ministry i) f (db_ministries s)\<rparr>)"
proof -
  have "ministry_constraints s m'" if m': "m' \<in> set (update_where (live_ministry i) f (db_ministries s))" "live_ministry i m'" for m'
  proof -
    obtain x where x: "x \<in> set (db_ministries s)" "m' = (if live_ministry i x then f x else x)" using m'(1) by (auto simp: update_where_def)
    then have "mi_id x = i" "live_ministry i x" using m'(2) f by (auto simp: live_ministry_def split: if_splits)
    with unique_ministry [OF assms(1,2) x(1)] x(2) assms(3) show ?thesis by simp
  qed
  then show ?thesis by (simp add: update_ministry_rows_Inr list_all_iff)
qed

lemma staffed_submits: "staffed (db_members s) i \<Longrightarrow> find_ministry s i \<noteq> None \<Longrightarrow> validate_members_for_submit i e s = Inr ()"
  by (simp add: validate_members_for_submit_def list_members_def guard_simps roles_listed staffed_def)

lemma by_submission_set: "set (by_submission ms) = set ms"
  by (auto simp: by_submission_def)

lemma rejected_resubmits:
  assumes ok: "register_ok s" and m: "find_ministry s i = Some m" "mi_status m = MS_REJECTED" "\<not> mi_is_deleted m"
    and refs: "ministry_constraints s m" and owner: "mi_owner_position_id m = Some p" "get_current_incumbent_user_id s p = Some v"
    and users: "mi_submitted_by_id m = Some u" "en_user_id e = Some u"
  shows "\<exists>s1. resubmit_ministry i e s = Inr ((), s1) \<and> register_ok s1 \<and> find_ministry s1 i = Some (mark_submitted e m) \<and>
    ministry_constraints s1 (mark_submitted e m) \<and> db_users s1 = db_users s \<and> is_incumbent_of_ministry s1 (mark_submitted e m) v"
proof -
  have live: "live_ministry i m" using m(3) find_ministry_in [OF m(1)] by (simp add: live_ministry_def)
  have staff: "staffed (db_members s) i" using ok find_ministry_in [OF m(1)] m(2) by (auto simp: register_ok_def application_ok_def)
  define s1 where "s1 = s\<lparr>db_ministries := update_where (live_ministry i) (mark_submitted e) (db_ministries s), db_next_uuid := db_next_uuid s + 1,
    db_org := (db_org s)\<lparr>og_approvals := approvals_of s @ [new_approval e (db_next_uuid s) i p]\<rparr>\<rparr>"
  have cs: "ministry_constraints s (mark_submitted e m)"
    using refs users by (simp add: ministry_constraints_def mark_submitted_def fk_def)
  then obtain n where rows: "update_ministry_rows i (mark_submitted e) s =
      Inr (n, s\<lparr>db_ministries := update_where (live_ministry i) (mark_submitted e) (db_ministries s)\<rparr>)"
    using update_rows_ok [OF ok m(1), of "mark_submitted e"] by (auto simp: mark_submitted_def)
  have m1: "find_ministry s1 i = Some (mark_submitted e m)"
    using m(1) live by (simp add: s1_def find_ministry_def find_moved mark_submitted_def)
  have "list_ex (\<lambda>m. mi_id m = i) (db_ministries s1)" using find_ministry_in [OF m1] by (auto simp: list_ex_iff)
  then have sub: "submit_ministry i e s = Inr ((), s1)"
    using m owner rows refs(1) users staffed_submits [OF staff, of e]
    by (simp add: submit_ministry_def require_ministry_def require_owner_position_incumbent_def insert_approval_def fresh_uuid_def
        new_approval_def ministry_constraints_def fk_def s1_def bindE_def raise_if_def)
  then have "resubmit_ministry i e s = Inr ((), s1)"
    using m users by (simp add: resubmit_ministry_def require_ministry_def require_applicant_or_steward_def require_authenticated_user_def bindE_def raise_if_def)
  moreover have "register_ok s1" by (rule submit_register [OF sub ok]) (simp add: ministry_kept_def m)
  moreover have "is_incumbent_of_ministry s1 (mark_submitted e m) v"
    using owner by (simp add: is_incumbent_of_ministry_def mark_submitted_def s1_def get_current_incumbent_user_id_def current_assignments_def)
  moreover have "ministry_constraints s1 (mark_submitted e m)" using cs by (simp add: ministry_constraints_def s1_def)
  moreover have "db_users s1 = db_users s" by (simp add: s1_def)
  ultimately show ?thesis using m1 by (intro exI [of _ s1]) simp
qed

lemma pending_activates:
  assumes ok: "register_ok s" and m: "find_ministry s i = Some m" "mi_status m = MS_PENDING_APPROVAL" "\<not> mi_is_deleted m"
    and refs: "ministry_constraints s m" "v \<in> us_id ` set (db_users s)"
    and inc: "is_incumbent_of_ministry s m v" "en_user_id e = Some v"
  shows "\<exists>s' m'. approve_ministry_as_incumbent i remark e s = Inr ((), s') \<and> find_ministry s' i = Some m' \<and> mi_status m' = MS_ACTIVE \<and>
    mi_is_active m' \<and> filter (awaiting i) (approvals_of s') = []"
proof -
  have live: "live_ministry i m" using m(3) find_ministry_in [OF m(1)] by (simp add: live_ministry_def)
  define s' where "s' = update_approval i AP_APPROVED (en_user_id e) (en_now_utc e) remark
    (s\<lparr>db_ministries := update_where (live_ministry i) (mark_approved e) (db_ministries s)\<rparr>)"
  have "ministry_constraints s (mark_approved e m)"
    using refs inc(2) by (auto simp: ministry_constraints_def mark_approved_def fk_def list_ex_iff)
  then obtain n where "update_ministry_rows i (mark_approved e) s =
      Inr (n, s\<lparr>db_ministries := update_where (live_ministry i) (mark_approved e) (db_ministries s)\<rparr>)"
    using update_rows_ok [OF ok m(1), of "mark_approved e"] by (auto simp: mark_approved_def)
  then have "approve_ministry_as_incumbent i remark e s = Inr ((), s')"
    using m inc
    by (simp add: approve_ministry_as_incumbent_def approve_ministry_def require_ministry_def require_incumbent_def require_authenticated_user_def
        s'_def bindE_def raise_if_def)
  moreover have "find_ministry s' i = Some (mark_approved e m)"
    using m(1) live by (simp add: s'_def find_ministry_def find_moved mark_approved_def)
  moreover have "filter (awaiting i) (approvals_of s') = []" by (simp add: s'_def no_longer_pending)
  ultimately show ?thesis by (auto simp: mark_approved_def)
qed

lemma pending_listed:
  assumes "find_ministry s i = Some m" "mi_status m = MS_PENDING_APPROVAL" "\<not> mi_is_deleted m" "is_incumbent_of_ministry s m v" "en_user_id e = Some v"
  shows "\<exists>ids. list_pending_for_incumbent e s = Inr ids \<and> i \<in> set ids"
  using assms find_ministry_in [OF assms(1)]
  by (auto simp: list_pending_for_incumbent_def require_authenticated_user_def by_submission_set intro!: image_eqI [where x = m])

text \<open>C11. No application is stuck: a rejected one that is not deleted can be resubmitted by its applicant, it then appears in the
  list of the incumbent of its owner position, and the incumbent can activate it, which closes the request.\<close>

theorem rejected_application_activates:
  assumes "register_ok s" "find_ministry s i = Some m" "mi_status m = MS_REJECTED" "\<not> mi_is_deleted m"
    and "ministry_constraints s m" "v \<in> us_id ` set (db_users s)"
    and "mi_owner_position_id m = Some p" "get_current_incumbent_user_id s p = Some v"
    and "mi_submitted_by_id m = Some u" "en_user_id e = Some u" "en_user_id e' = Some v"
  shows "\<exists>s1 s2 ids m2. resubmit_ministry i e s = Inr ((), s1) \<and> list_pending_for_incumbent e' s1 = Inr ids \<and> i \<in> set ids \<and>
    approve_ministry_as_incumbent i remark e' s1 = Inr ((), s2) \<and> find_ministry s2 i = Some m2 \<and> mi_status m2 = MS_ACTIVE \<and>
    mi_is_active m2 \<and> filter (awaiting i) (approvals_of s2) = []"
proof -
  obtain s1 where s1: "resubmit_ministry i e s = Inr ((), s1)" "register_ok s1" "find_ministry s1 i = Some (mark_submitted e m)"
    "ministry_constraints s1 (mark_submitted e m)" "db_users s1 = db_users s" "is_incumbent_of_ministry s1 (mark_submitted e m) v"
    using rejected_resubmits [OF assms(1-5,7-10)] by metis
  have st: "mi_status (mark_submitted e m) = MS_PENDING_APPROVAL" "\<not> mi_is_deleted (mark_submitted e m)"
    using assms(4) by (simp_all add: mark_submitted_def)
  have "v \<in> us_id ` set (db_users s1)" using assms(6) s1(5) by simp
  from pending_activates [OF s1(2,3) st s1(4) this s1(6) assms(11)] pending_listed [OF s1(3) st s1(6) assms(11)] s1(1)
  show ?thesis by metis
qed

lemma declined_application:
  "map_option (\<lambda>m. (mi_status m, mi_is_deleted m, mi_owner_position_id m, mi_submitted_by_id m, ministry_constraints declined m))
     (find_ministry declined 1000) = Some (MS_REJECTED, False, Some deacon_position_id, Some member_id, True)"
  by code_simp

lemma declined_incumbent: "get_current_incumbent_user_id declined deacon_position_id = Some steward_id \<and> steward_id \<in> us_id ` set (db_users declined)"
  by code_simp

theorem rejected_application_activates_witness:
  "\<exists>s1 s2 ids. resubmit_ministry 1000 (sample_env member_id 0) declined = Inr ((), s1) \<and>
     list_pending_for_incumbent (sample_env steward_id 1) s1 = Inr ids \<and> 1000 \<in> set ids \<and>
     approve_ministry_as_incumbent 1000 None (sample_env steward_id 1) s1 = Inr ((), s2) \<and> filter (awaiting 1000) (approvals_of s2) = []"
proof -
  obtain m where m: "find_ministry declined 1000 = Some m" using declined_application by (cases "find_ministry declined 1000") auto
  note facts = declined_application [unfolded m, simplified]
  have users: "en_user_id (sample_env member_id 0) = Some member_id" "en_user_id (sample_env steward_id 1) = Some steward_id"
    by (simp_all add: sample_env_def)
  show ?thesis
    using rejected_application_activates [OF served_register [OF declined_served] m _ _ _ _ _ _ _ users, of deacon_position_id None]
      facts declined_incumbent by metis
qed

end
