(* ===== verification/Positions.thy ===== *)
theory Positions imports Ministry_Register begin

text \<open>
  Leadership positions (\<open>position_service.py\<close>, the writes of \<open>position_repository.py\<close>): the catalog of positions with its unique
  code and soft deletion, and the history of assignments whose open row names the incumbent, who decides the applications of
  the ministries the position owns.
\<close>

section \<open>Commands\<close>

datatype position_team = PT_ELDER_AND_DEACON | PT_PASTORAL_TEAM
datatype position_office = PO_ELDER | PO_DEACON | PO_PASTOR | PO_STAFF

fun position_team_value :: "position_team \<Rightarrow> string" where
  "position_team_value PT_ELDER_AND_DEACON = ''elder_and_deacon''"
| "position_team_value PT_PASTORAL_TEAM = ''pastoral_team''"

fun position_office_value :: "position_office \<Rightarrow> string" where
  "position_office_value PO_ELDER = ''elder''"
| "position_office_value PO_DEACON = ''deacon''"
| "position_office_value PO_PASTOR = ''pastor''"
| "position_office_value PO_STAFF = ''staff''"

definition position_office_can_own_ministry :: "string \<Rightarrow> bool" where
  "position_office_can_own_ministry office \<longleftrightarrow>
     office \<in> {position_office_value PO_ELDER, position_office_value PO_DEACON, position_office_value PO_PASTOR}"

text \<open>Descriptions and remarks of a translation, which nothing here reads, are left out.\<close>

record position_name =
  pn_locale_id :: uuid
  pn_name :: string

record create_position_command =
  kp_code :: string
  kp_team :: position_team
  kp_office :: position_office
  kp_can_own_ministry :: bool
  kp_is_active :: bool
  kp_sequence :: "dec option"
  kp_translations :: "position_name list option"

text \<open>The code of a position never changes.\<close>

record update_position_command =
  lp_team :: position_team
  lp_office :: position_office
  lp_can_own_ministry :: bool
  lp_is_active :: bool
  lp_sequence :: "dec option"
  lp_translations :: "position_name list option"

section \<open>The repository\<close>

definition mark_position :: "bool \<Rightarrow> position \<Rightarrow> position" where "mark_position b p = p\<lparr>po_is_deleted := b\<rparr>"

interpretation positions: register po_id po_is_deleted po_code mark_position
  by unfold_locales (simp_all add: mark_position_def)

abbreviation positions_of :: "db \<Rightarrow> position list" where "positions_of s \<equiv> og_positions (db_org s)"
abbreviation assignments_of :: "db \<Rightarrow> position_assignment list" where "assignments_of s \<equiv> og_assignments (db_org s)"

definition with_positions :: "position list \<Rightarrow> db \<Rightarrow> db" where
  "with_positions ps s = s\<lparr>db_org := (db_org s)\<lparr>og_positions := ps\<rparr>\<rparr>"

definition find_position :: "db \<Rightarrow> uuid \<Rightarrow> position option" where
  "find_position s i = find_row po_id i (positions_of s)"

definition get_current_incumbent_user_id_by_code :: "db \<Rightarrow> string \<Rightarrow> uuid option" where
  "get_current_incumbent_user_id_by_code s code =
     (case List.find (\<lambda>p. po_code p = code \<and> \<not> po_is_deleted p) (positions_of s) of
        None \<Rightarrow> None | Some p \<Rightarrow> get_current_incumbent_user_id s (po_id p))"

definition insert_position :: "position \<Rightarrow> db \<Rightarrow> exn + db" where
  "insert_position p s = bindE (insert_unique po_code p (positions_of s)) (\<lambda>rows. Inr (with_positions rows s))"

definition update_position_rows :: "uuid \<Rightarrow> (position \<Rightarrow> position) \<Rightarrow> db \<Rightarrow> nat \<times> db" where
  "update_position_rows i f s = (case update_live po_id po_is_deleted i f (positions_of s) of (n, rows) \<Rightarrow> (n, with_positions rows s))"

definition upsert_position_translation :: "position_translation \<Rightarrow> position_translation list \<Rightarrow> position_translation list" where
  "upsert_position_translation t trs =
     (if list_ex (\<lambda>x. pt_locale_id x = pt_locale_id t) trs
      then update_where (\<lambda>x. pt_locale_id x = pt_locale_id t) (\<lambda>_. t) trs else trs @ [t])"

definition upsert_position_translations :: "uuid \<Rightarrow> position_translation list \<Rightarrow> db \<Rightarrow> exn + db" where
  "upsert_position_translations i rows s =
     raise_if (\<not> distinct (map pt_locale_id rows)) integrity
       (Inr (with_positions (update_where (\<lambda>p. po_id p = i)
          (\<lambda>p. p\<lparr>po_translations := fold upsert_position_translation rows (po_translations p)\<rparr>) (positions_of s)) s))"

text \<open>The open row of a position is closed and the new one opened.\<close>

definition assign_incumbent :: "uuid \<Rightarrow> uuid \<Rightarrow> instant option \<Rightarrow> env \<Rightarrow> db \<Rightarrow> exn + db" where
  "assign_incumbent position_id user_id start_at e s =
     (let now = (case start_at of None \<Rightarrow> en_now_utc e | Some t \<Rightarrow> t);
          closed = update_where (\<lambda>a. pa_position_id a = position_id \<and> pa_end_at a = None) (\<lambda>a. a\<lparr>pa_end_at := Some now\<rparr>) (assignments_of s)
      in raise_if (\<not> (fk po_id (positions_of s) (Some position_id) \<and> fk us_id (db_users s) (Some user_id))) integrity
           (Inr (s\<lparr>db_org := (db_org s)\<lparr>og_assignments := closed @
              [\<lparr>pa_position_id = position_id, pa_user_id = user_id, pa_start_at = now, pa_end_at = None\<rparr>]\<rparr>\<rparr>)))"

definition set_position_deleted :: "bool \<Rightarrow> uuid \<Rightarrow> db \<Rightarrow> db" where
  "set_position_deleted b i s = with_positions (set_deleted po_id (mark_position b) i (positions_of s)) s"

text \<open>Ministries and approvals lose the reference to their owner position (\<open>ON DELETE SET NULL\<close>).\<close>

definition position_delete_hard :: "uuid \<Rightarrow> db \<Rightarrow> db" where
  "position_delete_hard i s =
     s\<lparr>db_ministries := map (\<lambda>m. m\<lparr>mi_owner_position_id := unlink i (mi_owner_position_id m)\<rparr>) (db_ministries s),
       db_org := (db_org s)\<lparr>og_positions := filter (\<lambda>p. po_id p \<noteq> i) (positions_of s),
                            og_assignments := filter (\<lambda>a. pa_position_id a \<noteq> i) (assignments_of s),
                            og_approvals := map (\<lambda>a. a\<lparr>ma_owner_position_id := unlink i (ma_owner_position_id a)\<rparr>) (approvals_of s)\<rparr>\<rparr>"

section \<open>The service\<close>

definition translation_payloads :: "position_team \<Rightarrow> position_office \<Rightarrow> position_name list option \<Rightarrow> position_translation list" where
  "translation_payloads team office names =
     map (\<lambda>n. \<lparr>pt_locale_id = pn_locale_id n, pt_team = position_team_value team, pt_office = position_office_value office, pt_name = pn_name n\<rparr>)
       (case names of None \<Rightarrow> [] | Some ns \<Rightarrow> ns)"

definition checked_position_translations :: "uuid \<Rightarrow> position_translation list \<Rightarrow> db \<Rightarrow> exn + db" where
  "checked_position_translations i rows s =
     (if rows = [] then Inr s
      else let locale_ids = map pt_locale_id rows
           in raise_if (card (fetch_active_locale_ids s locale_ids) \<noteq> card (set locale_ids)) bad_request_plain
                (upsert_position_translations i rows s))"

definition position_code_exists :: exn where
  "position_code_exists = raise_exn Conflict (Some (OCode POSITION_CODE_EXISTS)) CtxNone"

definition position_not_found :: "uuid \<Rightarrow> exn" where
  "position_not_found i = raise_exn NotFound (Some (OCode POSITION_NOT_FOUND)) (CtxId i)"

definition new_position :: "env \<Rightarrow> create_position_command \<Rightarrow> uuid \<Rightarrow> position" where
  "new_position e command i =
     \<lparr>po_id = i, po_code = kp_code command, po_can_own_ministry = kp_can_own_ministry command, po_is_active = kp_is_active command,
      po_sequence = (case kp_sequence command of None \<Rightarrow> default_sequence e | Some q \<Rightarrow> q), po_translations = [], po_is_deleted = False\<rparr>"

definition create_position :: "create_position_command \<Rightarrow> uuid handler" where
  "create_position command e s =
     (case fresh_uuid s of (i, s0) \<Rightarrow>
      let payloads = translation_payloads (kp_team command) (kp_office command) (kp_translations command)
      in raise_if (payloads = []) bad_request_plain
           (on_unique position_code_exists
             (bindE (insert_position (new_position e command i) s0) (\<lambda>s1.
              bindE (checked_position_translations i payloads s1) (\<lambda>s2. Inr (i, s2))))))"

definition update_position :: "uuid \<Rightarrow> update_position_command \<Rightarrow> unit handler" where
  "update_position i command e s =
     raise_if (find_position s i = None) (position_not_found i)
       (case update_position_rows i (\<lambda>p. p\<lparr>po_can_own_ministry := lp_can_own_ministry command, po_is_active := lp_is_active command,
               po_sequence := (case lp_sequence command of None \<Rightarrow> po_sequence p | Some q \<Rightarrow> q)\<rparr>) s of (affected, s1) \<Rightarrow>
        raise_if (affected = 0) (position_not_found i)
          (bindE (checked_position_translations i (translation_payloads (lp_team command) (lp_office command) (lp_translations command)) s1)
             (\<lambda>s2. Inr ((), s2))))"

definition delete_position :: "uuid \<Rightarrow> bool \<Rightarrow> unit handler" where
  "delete_position i permanent e s =
     raise_if (find_position s i = None) (position_not_found i)
       (Inr ((), if permanent then position_delete_hard i s else set_position_deleted True i s))"

definition restore_positions :: "uuid list \<Rightarrow> unit handler" where
  "restore_positions ids e s = raise_if (ids = []) bad_request_plain (Inr ((), fold (set_position_deleted False) ids s))"

definition assign_position :: "uuid \<Rightarrow> uuid \<Rightarrow> instant option \<Rightarrow> unit handler" where
  "assign_position i user_id start_at e s =
     raise_if (find_position s i = None) (position_not_found i)
       (bindE (assign_incumbent i user_id start_at e s) (\<lambda>s1. Inr ((), s1)))"

section \<open>Incumbents\<close>

definition open_of :: "uuid \<Rightarrow> position_assignment \<Rightarrow> bool" where
  "open_of i a \<longleftrightarrow> pa_position_id a = i \<and> pa_end_at a = None"

definition history_of :: "position_assignment list \<Rightarrow> (uuid \<times> uuid \<times> instant) list" where
  "history_of = map (\<lambda>a. (pa_position_id a, pa_user_id a, pa_start_at a))"

lemma assign_incumbent_Inr:
  assumes "assign_position i u start e s = Inr (v, s')"
  obtains t where "find_position s i \<noteq> None"
    "s' = s\<lparr>db_org := (db_org s)\<lparr>og_assignments := update_where (open_of i) (\<lambda>a. a\<lparr>pa_end_at := Some t\<rparr>) (assignments_of s) @
            [\<lparr>pa_position_id = i, pa_user_id = u, pa_start_at = t, pa_end_at = None\<rparr>]\<rparr>\<rparr>"
  using assms by (auto simp: assign_position_def assign_incumbent_def Let_def guard_simps open_of_def [abs_def] update_where_def)

lemma closed_open: "filter (open_of j) (update_where (open_of i) (\<lambda>a. a\<lparr>pa_end_at := Some t\<rparr>) xs) = (if j = i then [] else filter (open_of j) xs)"
  unfolding open_of_def by (induction xs) (auto simp: update_where_def)

lemma current_of_open: "current_assignments s i = sort_key (\<lambda>a. - pa_start_at a) (filter (open_of i) (assignments_of s))"
  by (simp add: current_assignments_def open_of_def [abs_def])

text \<open>C39. Assigning a position makes the given user its incumbent at once, whatever start is given: the position has exactly one open
  assignment afterwards, every earlier assignment stays in the history, and no other position changes hands.\<close>

theorem assigned_position_incumbent:
  assumes "assign_position i u start e s = Inr (v, s')"
  shows "get_current_incumbent_user_id s' i = Some u \<and> length (filter (open_of i) (assignments_of s')) = 1 \<and>
    (\<forall>j. j \<noteq> i \<longrightarrow> get_current_incumbent_user_id s' j = get_current_incumbent_user_id s j) \<and>
    history_of (assignments_of s') = history_of (assignments_of s) @ [(i, u, case start of None \<Rightarrow> en_now_utc e | Some t \<Rightarrow> t)]"
proof -
  define t where "t = (case start of None \<Rightarrow> en_now_utc e | Some t \<Rightarrow> t)"
  let ?new = "\<lparr>pa_position_id = i, pa_user_id = u, pa_start_at = t, pa_end_at = None\<rparr>"
  have a: "assignments_of s' = update_where (open_of i) (\<lambda>a. a\<lparr>pa_end_at := Some t\<rparr>) (assignments_of s) @ [?new]"
    using assms by (auto simp: assign_position_def assign_incumbent_def Let_def guard_simps open_of_def [abs_def] update_where_def t_def)
  have opens: "filter (open_of j) (assignments_of s') = (if j = i then [?new] else filter (open_of j) (assignments_of s))" for j
    unfolding a by (simp add: closed_open) (simp add: open_of_def)
  have "history_of (assignments_of s') = history_of (assignments_of s) @ [(i, u, t)]"
    unfolding a history_of_def by (simp add: map_update_keeps)
  then show ?thesis
    by (simp add: opens get_current_incumbent_user_id_def current_of_open t_def)
qed

lemma deacon_reassigned: "inr_sat (assign_position deacon_position_id member_id None (sample_env steward_id 0) sample_db) (\<lambda>_. True)"
  by code_simp

theorem assigned_position_incumbent_witness:
  "\<exists>s'. assign_position deacon_position_id member_id None (sample_env steward_id 0) sample_db = Inr ((), s') \<and>
     get_current_incumbent_user_id s' deacon_position_id = Some member_id \<and> length (assignments_of s') = 2"
proof -
  obtain s' where s': "assign_position deacon_position_id member_id None (sample_env steward_id 0) sample_db = Inr ((), s')"
    using deacon_reassigned by (auto simp: inr_sat_eq)
  note end' = assigned_position_incumbent [OF this]
  have "length (history_of (assignments_of s')) = 2" using end' by (simp add: history_of_def sample_db_def sample_org_def)
  then have "length (assignments_of s') = 2" by (simp add: history_of_def)
  with end' s' show ?thesis by blast
qed

section \<open>The catalog of positions\<close>

definition positions_ok :: "db \<Rightarrow> bool" where
  "positions_ok s \<longleftrightarrow> distinct (map po_code (positions_of s)) \<and>
     (\<forall>a\<in>set (assignments_of s). pa_position_id a \<in> po_id ` set (positions_of s)) \<and>
     (\<forall>i. length (filter (open_of i) (assignments_of s)) \<le> 1)"

datatype position_request =
    Create_Position create_position_command
  | Update_Position uuid update_position_command
  | Delete_Position uuid bool
  | Restore_Positions "uuid list"
  | Assign_Position uuid uuid "instant option"

fun serve_position :: "env \<Rightarrow> position_request \<Rightarrow> db \<Rightarrow> db" where
  "serve_position e (Create_Position command) s = after (create_position command e s) s"
| "serve_position e (Update_Position i command) s = after (update_position i command e s) s"
| "serve_position e (Delete_Position i permanent) s = after (delete_position i permanent e s) s"
| "serve_position e (Restore_Positions ids) s = after (restore_positions ids e s) s"
| "serve_position e (Assign_Position i user_id start_at) s = after (assign_position i user_id start_at e s) s"

lemma positions_same:
  assumes "positions_ok s" "distinct (map po_code (positions_of s'))" "po_id ` set (positions_of s) \<subseteq> po_id ` set (positions_of s')"
    and "assignments_of s' = assignments_of s"
  shows "positions_ok s'"
  using assms by (auto simp: positions_ok_def)

lemma position_translations_Inr:
  assumes "checked_position_translations i rows s = Inr s'"
  shows "\<exists>p f. s' = with_positions (update_where p f (positions_of s)) s \<and> (\<forall>x. po_id (f x) = po_id x \<and> po_code (f x) = po_code x)"
proof (cases "rows = []")
  case True
  with assms show ?thesis
    by (intro exI [of _ "\<lambda>_. False"] exI [of _ "\<lambda>x. x"]) (simp add: checked_position_translations_def update_where_def with_positions_def)
next
  case False
  let ?f = "\<lambda>p. p\<lparr>po_translations := fold upsert_position_translation rows (po_translations p)\<rparr>"
  show ?thesis
    by (intro exI [of _ "\<lambda>p. po_id p = i"] exI [of _ ?f])
      (use assms False in \<open>auto simp: checked_position_translations_def upsert_position_translations_def Let_def guard_simps\<close>)
qed

lemma position_translations_keep:
  assumes "checked_position_translations i rows s = Inr s'" "positions_ok s" shows "positions_ok s'"
proof -
  obtain p f where "s' = with_positions (update_where p f (positions_of s)) s" "\<And>x. po_id (f x) = po_id x" "\<And>x. po_code (f x) = po_code x"
    using position_translations_Inr [OF assms(1)] by metis
  with assms(2) show ?thesis
    by (intro positions_same [OF assms(2)]) (simp_all add: with_positions_def map_update_keeps image_update_keeps positions_ok_def)
qed

lemma position_writes_keep:
  assumes ok: "positions_ok s"
  shows "create_position c1 e s = Inr (i, s') \<Longrightarrow> positions_ok s'"
    and "update_position i c2 e s = Inr (u, s') \<Longrightarrow> positions_ok s'"
proof -
  { assume "create_position c1 e s = Inr (i, s')"
    then obtain payloads s1 where s1: "insert_position (new_position e c1 i) (s\<lparr>db_next_uuid := db_next_uuid s + 1\<rparr>) = Inr s1"
      "checked_position_translations i payloads s1 = Inr s'"
      by (auto simp: create_position_def fresh_uuid_def Let_def guard_simps)
    then obtain rows where rows: "insert_unique po_code (new_position e c1 i) (positions_of s) = Inr rows"
      "s1 = with_positions rows (s\<lparr>db_next_uuid := db_next_uuid s + 1\<rparr>)"
      by (auto simp: insert_position_def guard_simps)
    have "positions_ok s1"
      by (intro positions_same [OF ok])
        (use ok rows positions.insert_unique_distinct [OF rows(1)] in \<open>auto simp: with_positions_def positions_ok_def insert_unique_def guard_simps\<close>)
    then show "positions_ok s'" by (rule position_translations_keep [OF s1(2)]) }
  { assume "update_position i c2 e s = Inr (u, s')"
    then obtain payloads where s1: "checked_position_translations i payloads
        (with_positions (update_where (live_row po_id po_is_deleted i) (\<lambda>p. p\<lparr>po_can_own_ministry := lp_can_own_ministry c2,
           po_is_active := lp_is_active c2, po_sequence := (case lp_sequence c2 of None \<Rightarrow> po_sequence p | Some q \<Rightarrow> q)\<rparr>) (positions_of s)) s) = Inr s'"
      by (auto simp: update_position_def update_position_rows_def update_live_def guard_simps)
    show "positions_ok s'"
      by (rule position_translations_keep [OF s1], intro positions_same [OF ok])
        (use ok in \<open>simp_all add: with_positions_def map_update_keeps image_update_keeps positions_ok_def\<close>) }
qed

lemma deleted_open: "length (filter (open_of j) (filter P xs)) \<le> length (filter (open_of j) xs)"
  by (induction xs) auto

lemma position_marks_keep:
  assumes ok: "positions_ok s"
  shows "positions_ok (set_position_deleted b i s)" and "positions_ok (position_delete_hard i s)"
proof -
  have "po_id ` set (set_deleted po_id (mark_position b) i (positions_of s)) = po_id ` set (positions_of s)"
    by (metis list.set_map positions.ids_set_deleted)
  then show "positions_ok (set_position_deleted b i s)"
    by (intro positions_same [OF ok]) (use ok in \<open>simp_all add: set_position_deleted_def with_positions_def positions.codes_set_deleted positions_ok_def\<close>)
  show "positions_ok (position_delete_hard i s)"
    using ok deleted_open [of _ "\<lambda>a. pa_position_id a \<noteq> i" "assignments_of s"]
    by (auto simp: positions_ok_def position_delete_hard_def distinct_map_filter simp del: filter_filter intro: order_trans)
qed

lemma position_drops_keep:
  assumes ok: "positions_ok s"
  shows "delete_position i permanent e s = Inr (u, s') \<Longrightarrow> positions_ok s'"
    and "restore_positions ids e s = Inr (v, s') \<Longrightarrow> positions_ok s'"
proof -
  have "positions_ok (fold (set_position_deleted False) ids s)" for ids
    using ok by (induction ids arbitrary: s) (auto intro: position_marks_keep)
  then show "restore_positions ids e s = Inr (v, s') \<Longrightarrow> positions_ok s'" by (auto simp: restore_positions_def guard_simps)
  show "delete_position i permanent e s = Inr (u, s') \<Longrightarrow> positions_ok s'"
    using position_marks_keep [OF ok] by (auto simp: delete_position_def guard_simps)
qed

lemma assign_keeps:
  assumes "assign_position i u start e s = Inr (v, s')" and ok: "positions_ok s" shows "positions_ok s'"
proof -
  obtain t where t: "find_position s i \<noteq> None"
    "s' = s\<lparr>db_org := (db_org s)\<lparr>og_assignments := update_where (open_of i) (\<lambda>a. a\<lparr>pa_end_at := Some t\<rparr>) (assignments_of s) @
            [\<lparr>pa_position_id = i, pa_user_id = u, pa_start_at = t, pa_end_at = None\<rparr>]\<rparr>\<rparr>"
    using assign_incumbent_Inr [OF assms(1)] by metis
  have "i \<in> po_id ` set (positions_of s)" using t(1) by (auto simp: find_position_def dest: find_row_some)
  moreover have "\<forall>a\<in>set (update_where (open_of i) (\<lambda>a. a\<lparr>pa_end_at := Some t\<rparr>) (assignments_of s)). pa_position_id a \<in> po_id ` set (positions_of s)"
    using ok by (auto simp: positions_ok_def update_where_def)
  ultimately show ?thesis using ok by (auto simp: positions_ok_def t(2) closed_open open_of_def)
qed

lemmas position_keeps = position_writes_keep [rotated] position_drops_keep [rotated] assign_keeps

text \<open>
  Whatever requests about positions are served, codes stay unique, deleted positions included, every assignment names a
  position of the catalog, and no position has two incumbents.\<close>

lemma positions_kept:
  assumes ok: "positions_ok s" shows "positions_ok (serve_position e r s)"
  by (cases r; simp only: serve_position.simps; rule after_cases [of positions_ok, OF ok]; erule position_keeps; rule ok)

lemma sample_positions: "positions_ok sample_db"
  by (auto simp: positions_ok_def sample_db_def sample_org_def open_of_def)

text \<open>Deleting a position for good leaves the applications of its ministries to the staff: nobody decides them on the member
  routes any more.\<close>

lemma orphaned_application:
  assumes "find_ministry s i = Some m" "mi_owner_position_id m = Some p"
  shows "\<exists>x. approve_ministry_as_incumbent i remark e (position_delete_hard p s) = Inl x"
proof -
  let ?f = "\<lambda>m :: ministry. m\<lparr>mi_owner_position_id := unlink p (mi_owner_position_id m)\<rparr>"
  have "List.find (\<lambda>m. mi_id m = i) (map ?f ms) = map_option ?f (List.find (\<lambda>m. mi_id m = i) ms)" for ms by (induction ms) auto
  then have "find_ministry (position_delete_hard p s) i = Some (m\<lparr>mi_owner_position_id := None\<rparr>)"
    using assms by (simp add: find_ministry_def position_delete_hard_def unlink_def)
  then show ?thesis
    by (auto simp: approve_ministry_as_incumbent_def require_ministry_def require_incumbent_def require_authenticated_user_def
        is_incumbent_of_ministry_def raise_if_def bindE_def split: option.splits)
qed

end
