(* ===== verification/Rental_Admin.thy ===== *)
theory Rental_Admin imports Admin_Register Room_Hours begin

text \<open>
  Administration of prices (\<open>rental_rate_template_service.py\<close>, \<open>rental_rate_service.py\<close>, \<open>rental_catalog_service.py\<close> and
  the writes of \<open>rental_repository.py\<close>): rate templates, their bindings to rooms, discount rules and surcharges.
\<close>

section \<open>Commands\<close>

text \<open>The create and update commands of an entity have the same fields. \<open>xt_applicability\<close> is what \<open>parse_applicability\<close>
  makes of the submitted rule, \<open>None\<close> when it refuses it; \<open>xt_billing_unit\<close> is the value of the enumeration.\<close>

record rate_template_command =
  xt_name :: string
  xt_billing_unit :: string
  xt_applicability :: "applicability option option"
  xt_unit_amount :: dec
  xt_currency :: string
  xt_is_default :: bool
  xt_is_active :: bool

record rate_command =
  xr_facility_id :: uuid
  xr_template_id :: uuid
  xr_is_active :: bool

record discount_rule_command =
  xd_code :: string
  xd_percent_off :: dec
  xd_is_active :: bool
  xd_description :: "string option"

record surcharge_command =
  xs_code :: string
  xs_charge_type :: string
  xs_unit_amount :: dec
  xs_currency :: string
  xs_is_active :: bool
  xs_applies_to_booking_type :: "string option"
  xs_remark :: "string option"

section \<open>The repository\<close>

abbreviation live_template :: "uuid \<Rightarrow> rate_template \<Rightarrow> bool" where "live_template \<equiv> live_row rt_id rt_is_deleted"
abbreviation live_rate :: "uuid \<Rightarrow> rate_binding \<Rightarrow> bool" where "live_rate \<equiv> live_row rb_id rb_is_deleted"

definition binding_key :: "rate_binding \<Rightarrow> uuid \<times> uuid" where
  "binding_key r = (rb_facility_id r, rb_template_id r)"

definition get_template_by_id :: "db \<Rightarrow> uuid \<Rightarrow> rate_template option" where
  "get_template_by_id s i = List.find (live_template i) (db_rate_templates s)"

definition count_rates_for_template :: "db \<Rightarrow> uuid \<Rightarrow> nat" where
  "count_rates_for_template s i = length (filter (\<lambda>r. rb_template_id r = i \<and> \<not> rb_is_deleted r) (db_rate_bindings s))"

text \<open>A check constraint is tested before the unique index.\<close>

definition insert_template :: "rate_template \<Rightarrow> db \<Rightarrow> exn + db" where
  "insert_template t s =
     raise_if (rt_unit_amount t < 0) integrity
       (bindE (insert_unique rt_name t (db_rate_templates s)) (\<lambda>rows. Inr (s\<lparr>db_rate_templates := rows\<rparr>)))"

definition update_template_rows :: "uuid \<Rightarrow> (rate_template \<Rightarrow> rate_template) \<Rightarrow> db \<Rightarrow> exn + (nat \<times> db)" where
  "update_template_rows i f s =
     raise_if (list_ex (\<lambda>t. live_template i t \<and> rt_unit_amount (f t) < 0) (db_rate_templates s)) integrity
       (bindE (update_live_unique rt_id rt_is_deleted rt_name i f (db_rate_templates s)) (\<lambda>(n, rows).
          Inr (n, s\<lparr>db_rate_templates := rows\<rparr>)))"

definition mark_template :: "bool \<Rightarrow> rate_template \<Rightarrow> rate_template" where "mark_template b t = t\<lparr>rt_is_deleted := b\<rparr>"
definition mark_rate :: "bool \<Rightarrow> rate_binding \<Rightarrow> rate_binding" where "mark_rate b r = r\<lparr>rb_is_deleted := b\<rparr>"
definition mark_discount_rule :: "bool \<Rightarrow> discount_rule \<Rightarrow> discount_rule" where "mark_discount_rule b r = r\<lparr>dr_is_deleted := b\<rparr>"
definition mark_surcharge :: "bool \<Rightarrow> surcharge \<Rightarrow> surcharge" where "mark_surcharge b r = r\<lparr>su_is_deleted := b\<rparr>"

definition set_template_deleted :: "bool \<Rightarrow> uuid \<Rightarrow> db \<Rightarrow> db" where
  "set_template_deleted b i s = s\<lparr>db_rate_templates := set_deleted rt_id (mark_template b) i (db_rate_templates s)\<rparr>"

text \<open>\<open>get_rate_by_id\<close> joins the template and shows deleted bindings too.\<close>

definition get_rate_by_id :: "db \<Rightarrow> uuid \<Rightarrow> rate_binding option" where
  "get_rate_by_id s i =
     List.find (\<lambda>r. rb_id r = i \<and> list_ex (\<lambda>t. rt_id t = rb_template_id r) (db_rate_templates s)) (db_rate_bindings s)"

definition insert_rate :: "rate_binding \<Rightarrow> db \<Rightarrow> exn + db" where
  "insert_rate r s = bindE (insert_unique binding_key r (db_rate_bindings s)) (\<lambda>rows. Inr (s\<lparr>db_rate_bindings := rows\<rparr>))"

definition update_rate_rows :: "uuid \<Rightarrow> (rate_binding \<Rightarrow> rate_binding) \<Rightarrow> db \<Rightarrow> exn + (nat \<times> db)" where
  "update_rate_rows i f s =
     bindE (update_live_unique rb_id rb_is_deleted binding_key i f (db_rate_bindings s)) (\<lambda>(n, rows). Inr (n, s\<lparr>db_rate_bindings := rows\<rparr>))"

definition set_rate_deleted :: "bool \<Rightarrow> uuid \<Rightarrow> db \<Rightarrow> db" where
  "set_rate_deleted b i s = s\<lparr>db_rate_bindings := set_deleted rb_id (mark_rate b) i (db_rate_bindings s)\<rparr>"

definition delete_rate_hard :: "uuid \<Rightarrow> db \<Rightarrow> db" where
  "delete_rate_hard i s = s\<lparr>db_rate_bindings := filter (\<lambda>r. rb_id r \<noteq> i) (db_rate_bindings s)\<rparr>"

definition get_discount_rule_by_id :: "db \<Rightarrow> uuid \<Rightarrow> discount_rule option" where
  "get_discount_rule_by_id s i = List.find (live_row dr_id dr_is_deleted i) (db_discount_rules s)"

definition get_surcharge_by_id :: "db \<Rightarrow> uuid \<Rightarrow> surcharge option" where
  "get_surcharge_by_id s i = List.find (live_row su_id su_is_deleted i) (db_surcharges s)"

section \<open>Rate templates\<close>

abbreviation rental_not_found :: "facility_error_code \<Rightarrow> uuid \<Rightarrow> exn" where
  "rental_not_found c i \<equiv> not_found c (CtxId i)"

definition name_exists :: "string \<Rightarrow> exn" where
  "name_exists name = raise_exn Conflict (Some (FCode RENTAL_RATE_TEMPLATE_NAME_EXISTS)) (CtxText name)"

text \<open>An update re-raises what is not a unique violation.\<close>

definition on_unique_reraise :: "exn \<Rightarrow> exn + 'a \<Rightarrow> exn + 'a" where
  "on_unique_reraise conflict m = (case m of Inl x \<Rightarrow> Inl (if x = unique_violation then conflict else x) | Inr y \<Rightarrow> Inr y)"

lemma on_unique_reraise_Inr [guard_simps]: "on_unique_reraise c m = Inr y \<longleftrightarrow> m = Inr y"
  by (simp add: on_unique_reraise_def split: sum.splits)

definition applicability_for_storage :: "applicability option option \<Rightarrow> exn + applicability option" where
  "applicability_for_storage parsed = (case parsed of None \<Rightarrow> Inl bad_request_plain | Some a \<Rightarrow> Inr a)"

definition currency_or_cad :: "string \<Rightarrow> string" where
  "currency_or_cad x = (if x = [] then ''CAD'' else x)"

definition template_of_command :: "rate_template_command \<Rightarrow> applicability option \<Rightarrow> uuid \<Rightarrow> bool \<Rightarrow> rate_template" where
  "template_of_command command a i b =
     \<lparr>rt_id = i, rt_name = xt_name command, rt_billing_unit = xt_billing_unit command, rt_applicability = a,
      rt_unit_amount = xt_unit_amount command, rt_currency = currency_or_cad (xt_currency command),
      rt_is_default = xt_is_default command, rt_is_active = xt_is_active command, rt_is_deleted = b\<rparr>"

definition create_rate_template :: "rate_template_command \<Rightarrow> uuid handler" where
  "create_rate_template command e s =
     (case fresh_uuid s of (i, s0) \<Rightarrow>
      on_unique (name_exists (xt_name command))
        (bindE (applicability_for_storage (xt_applicability command)) (\<lambda>a.
         bindE (insert_template (template_of_command command a i False) s0) (\<lambda>s1. Inr (i, s1)))))"

definition update_rate_template :: "uuid \<Rightarrow> rate_template_command \<Rightarrow> unit handler" where
  "update_rate_template i command e s =
     raise_if (get_template_by_id s i = None) (rental_not_found RENTAL_RATE_TEMPLATE_NOT_FOUND i)
       (on_unique_reraise (name_exists (xt_name command))
         (bindE (applicability_for_storage (xt_applicability command)) (\<lambda>a.
          bindE (update_template_rows i (\<lambda>t. template_of_command command a (rt_id t) (rt_is_deleted t)) s) (\<lambda>(affected, s1).
          raise_if (affected = 0) (rental_not_found RENTAL_RATE_TEMPLATE_NOT_FOUND i) (Inr ((), s1))))))"

definition delete_rate_template :: "uuid \<Rightarrow> bool \<Rightarrow> unit handler" where
  "delete_rate_template i permanent e s =
     raise_if (get_template_by_id s i = None) (rental_not_found RENTAL_RATE_TEMPLATE_NOT_FOUND i)
     (raise_if (0 < count_rates_for_template s i) (raise_exn BadRequest (Some (FCode RENTAL_RATE_TEMPLATE_IN_USE)) (CtxId i))
     (raise_if permanent bad_request_plain
       (Inr ((), set_template_deleted True i s))))"

definition restore_rate_template :: "uuid \<Rightarrow> unit handler" where
  "restore_rate_template i e s = Inr ((), set_template_deleted False i s)"

section \<open>Bindings of templates to rooms\<close>

definition validate_template_for_bind :: "db \<Rightarrow> uuid \<Rightarrow> exn + unit" where
  "validate_template_for_bind s i =
     (case get_template_by_id s i of
        None \<Rightarrow> Inl (rental_not_found RENTAL_RATE_TEMPLATE_NOT_FOUND i)
      | Some t \<Rightarrow> raise_if (\<not> rt_is_active t) bad_request_plain (Inr ()))"

definition validate_facility :: "db \<Rightarrow> uuid \<Rightarrow> exn + unit" where
  "validate_facility s i = raise_if (\<not> room_exists_by_id s i) (not_found ROOM_NOT_FOUND (CtxId i)) (Inr ())"

text \<open>The handler of a broken unique constraint names \<open>FacilityErrorCode.RENTAL_RATE_BINDING_EXISTS\<close>, which the enumeration
  does not have: evaluating it raises an \<open>AttributeError\<close>.\<close>

definition attribute_error :: exn where "attribute_error = raise_exn AttributeErr None CtxNone"

definition create_rate :: "rate_command \<Rightarrow> uuid handler" where
  "create_rate command e s =
     bindE (validate_facility s (xr_facility_id command)) (\<lambda>_.
     bindE (validate_template_for_bind s (xr_template_id command)) (\<lambda>_.
     case fresh_uuid s of (i, s0) \<Rightarrow>
     on_unique attribute_error
       (bindE (insert_rate \<lparr>rb_id = i, rb_facility_id = xr_facility_id command, rb_template_id = xr_template_id command,
                            rb_is_active = xr_is_active command, rb_is_deleted = False\<rparr> s0) (\<lambda>s1. Inr (i, s1)))))"

definition update_rate :: "uuid \<Rightarrow> rate_command \<Rightarrow> unit handler" where
  "update_rate i command e s =
     raise_if (get_rate_by_id s i = None) (rental_not_found RENTAL_RATE_NOT_FOUND i)
     (bindE (validate_facility s (xr_facility_id command)) (\<lambda>_.
      bindE (validate_template_for_bind s (xr_template_id command)) (\<lambda>_.
      bindE (on_unique_reraise attribute_error
              (update_rate_rows i (\<lambda>r. r\<lparr>rb_facility_id := xr_facility_id command, rb_template_id := xr_template_id command,
                                        rb_is_active := xr_is_active command\<rparr>) s)) (\<lambda>(affected, s1).
      raise_if (affected = 0) (rental_not_found RENTAL_RATE_NOT_FOUND i) (Inr ((), s1))))))"

definition delete_rate :: "uuid \<Rightarrow> bool \<Rightarrow> unit handler" where
  "delete_rate i permanent e s =
     raise_if (get_rate_by_id s i = None) (rental_not_found RENTAL_RATE_NOT_FOUND i)
       (Inr ((), if permanent then delete_rate_hard i s else set_rate_deleted True i s))"

definition restore_rate :: "uuid \<Rightarrow> unit handler" where
  "restore_rate i e s = Inr ((), set_rate_deleted False i s)"

section \<open>Discount rules and surcharges\<close>

abbreviation plain_not_found :: exn where "plain_not_found \<equiv> raise_exn NotFound None CtxNone"
abbreviation plain_conflict :: exn where "plain_conflict \<equiv> raise_exn Conflict None CtxNone"

definition rule_of_command :: "discount_rule_command \<Rightarrow> uuid \<Rightarrow> bool \<Rightarrow> discount_rule" where
  "rule_of_command command i b =
     \<lparr>dr_id = i, dr_code = xd_code command, dr_percent_off = xd_percent_off command, dr_description = xd_description command,
      dr_is_active = xd_is_active command, dr_is_deleted = b\<rparr>"

definition surcharge_of_command :: "surcharge_command \<Rightarrow> uuid \<Rightarrow> bool \<Rightarrow> surcharge" where
  "surcharge_of_command command i b =
     \<lparr>su_id = i, su_code = xs_code command, su_charge_type = xs_charge_type command, su_unit_amount = xs_unit_amount command,
      su_currency = xs_currency command, su_applies_to_booking_type = xs_applies_to_booking_type command,
      su_remark = xs_remark command, su_is_active = xs_is_active command, su_is_deleted = b\<rparr>"

definition create_discount_rule :: "discount_rule_command \<Rightarrow> uuid handler" where
  "create_discount_rule command e s =
     (case fresh_uuid s of (i, s0) \<Rightarrow>
      on_unique plain_conflict
        (bindE (insert_unique dr_code (rule_of_command command i False) (db_discount_rules s0)) (\<lambda>rows.
         Inr (i, s0\<lparr>db_discount_rules := rows\<rparr>))))"

definition update_discount_rule :: "uuid \<Rightarrow> discount_rule_command \<Rightarrow> unit handler" where
  "update_discount_rule i command e s =
     bindE (update_live_unique dr_id dr_is_deleted dr_code i (\<lambda>r. rule_of_command command (dr_id r) (dr_is_deleted r))
              (db_discount_rules s)) (\<lambda>(affected, rows).
     raise_if (affected = 0) plain_not_found (Inr ((), s\<lparr>db_discount_rules := rows\<rparr>)))"

definition delete_discount_rule :: "uuid \<Rightarrow> unit handler" where
  "delete_discount_rule i e s =
     raise_if (get_discount_rule_by_id s i = None) plain_not_found
       (Inr ((), s\<lparr>db_discount_rules := set_deleted dr_id (mark_discount_rule True) i (db_discount_rules s)\<rparr>))"

definition create_surcharge :: "surcharge_command \<Rightarrow> uuid handler" where
  "create_surcharge command e s =
     (case fresh_uuid s of (i, s0) \<Rightarrow>
      on_unique plain_conflict
        (bindE (insert_unique su_code (surcharge_of_command command i False) (db_surcharges s0)) (\<lambda>rows.
         Inr (i, s0\<lparr>db_surcharges := rows\<rparr>))))"

definition update_surcharge :: "uuid \<Rightarrow> surcharge_command \<Rightarrow> unit handler" where
  "update_surcharge i command e s =
     bindE (update_live_unique su_id su_is_deleted su_code i (\<lambda>r. surcharge_of_command command (su_id r) (su_is_deleted r))
              (db_surcharges s)) (\<lambda>(affected, rows).
     raise_if (affected = 0) plain_not_found (Inr ((), s\<lparr>db_surcharges := rows\<rparr>)))"

definition delete_surcharge :: "uuid \<Rightarrow> unit handler" where
  "delete_surcharge i e s =
     raise_if (get_surcharge_by_id s i = None) plain_not_found
       (Inr ((), s\<lparr>db_surcharges := set_deleted su_id (mark_surcharge True) i (db_surcharges s)\<rparr>))"

section \<open>The tables are registers\<close>

interpretation templates: register rt_id rt_is_deleted rt_name mark_template
  by unfold_locales (simp_all add: mark_template_def)

interpretation rates: register rb_id rb_is_deleted binding_key mark_rate
  by unfold_locales (simp_all add: mark_rate_def binding_key_def)

interpretation discount_rules: register dr_id dr_is_deleted dr_code mark_discount_rule
  by unfold_locales (simp_all add: mark_discount_rule_def)

interpretation surcharges: register su_id su_is_deleted su_code mark_surcharge
  by unfold_locales (simp_all add: mark_surcharge_def)

end
