(* ===== verification/Room_Admin.thy ===== *)
theory Room_Admin imports Ministries Availability begin

text \<open>
  Administration of rooms (\<open>room_service.py\<close>, the writes of \<open>room_repository.py\<close>) with their translations and their photo
  gallery (the associations of \<open>file_repository.py\<close>).
\<close>

section \<open>Commands\<close>

record create_room_command =
  xm_code :: string
  xm_room_number :: "string option"
  xm_capacity :: "int option"
  xm_is_active :: bool
  xm_sequence :: "dec option"
  xm_translations :: "translation list"
  xm_file_ids :: "uuid list option"

text \<open>The code of a room never changes.\<close>

record update_room_command =
  um_room_number :: "string option"
  um_capacity :: "int option"
  um_is_active :: bool
  um_sequence :: "dec option"
  um_translations :: "translation list option"
  um_file_ids :: "uuid list option"

section \<open>The repositories\<close>

definition mark_room :: "bool \<Rightarrow> room_row \<Rightarrow> room_row" where "mark_room b r = r\<lparr>rm_is_deleted := b\<rparr>"

interpretation rooms: register rm_id rm_is_deleted rm_code mark_room
  by unfold_locales (simp_all add: mark_room_def)

definition find_room :: "db \<Rightarrow> uuid \<Rightarrow> room_row option" where
  "find_room s i = find_row rm_id i (db_rooms s)"

definition insert_room :: "room_row \<Rightarrow> db \<Rightarrow> exn + db" where
  "insert_room r s = bindE (insert_unique rm_code r (db_rooms s)) (\<lambda>rows. Inr (s\<lparr>db_rooms := rows\<rparr>))"

definition update_room_rows :: "uuid \<Rightarrow> (room_row \<Rightarrow> room_row) \<Rightarrow> db \<Rightarrow> nat \<times> db" where
  "update_room_rows i f s = (case update_live rm_id rm_is_deleted i f (db_rooms s) of (n, rows) \<Rightarrow> (n, s\<lparr>db_rooms := rows\<rparr>))"

definition upsert_room_translations :: "uuid \<Rightarrow> translation list \<Rightarrow> db \<Rightarrow> exn + db" where
  "upsert_room_translations i rows s =
     raise_if (\<not> distinct (map tr_locale_id rows)) integrity
       (Inr (s\<lparr>db_rooms := update_where (\<lambda>r. rm_id r = i)
                 (\<lambda>r. r\<lparr>rm_translations := fold upsert_translation rows (rm_translations r)\<rparr>) (db_rooms s)\<rparr>))"

definition set_room_deleted :: "bool \<Rightarrow> uuid \<Rightarrow> db \<Rightarrow> db" where
  "set_room_deleted b i s = s\<lparr>db_rooms := set_deleted rm_id (mark_room b) i (db_rooms s)\<rparr>"

text \<open>Bookings, their lines and slots, override logs and drafts refer to a room and keep it (\<open>NO ACTION\<close>); slot templates,
  Blackouts and rate bindings go with it (\<open>CASCADE\<close>).\<close>

definition room_referenced :: "db \<Rightarrow> uuid \<Rightarrow> bool" where
  "room_referenced s i \<longleftrightarrow>
     list_ex (\<lambda>b. bk_facility_id b = Some i) (db_bookings s) \<or> list_ex (\<lambda>l. rl_facility_id l = i) (db_lines s) \<or>
     list_ex (\<lambda>sl. sl_facility_id sl = i) (db_slots s) \<or> list_ex (\<lambda>o'. ol_facility_id o' = i) (db_override_logs s) \<or>
     list_ex (\<lambda>l. dl_facility_id l = i) (db_draft_lines s) \<or> list_ex (\<lambda>r. dm_facility_id r = i) (db_series_draft_rooms s)"

definition room_delete_hard :: "uuid \<Rightarrow> db \<Rightarrow> exn + db" where
  "room_delete_hard i s =
     raise_if (room_referenced s i) integrity
       (Inr (s\<lparr>db_rooms := filter (\<lambda>r. rm_id r \<noteq> i) (db_rooms s),
               db_slot_templates := filter (\<lambda>t. st_facility_id t \<noteq> i) (db_slot_templates s),
               db_blackouts := filter (\<lambda>b. bo_facility_id b \<noteq> Some i) (db_blackouts s),
               db_rate_bindings := filter (\<lambda>r. rb_facility_id r \<noteq> i) (db_rate_bindings s)\<rparr>))"

definition list_active_files_by_ids :: "db \<Rightarrow> uuid list \<Rightarrow> file_row list" where
  "list_active_files_by_ids s ids =
     (if ids = [] then [] else filter (\<lambda>f. fi_id f \<in> set ids \<and> \<not> fi_is_deleted f) (db_files s))"

definition replace_associations :: "uuid \<Rightarrow> string \<Rightarrow> uuid list \<Rightarrow> db \<Rightarrow> db" where
  "replace_associations i resource_kind ids s =
     s\<lparr>db_file_associations := filter (\<lambda>a. \<not> (fa_resource_id a = i \<and> fa_resource_name a = resource_kind)) (db_file_associations s) @
         map (\<lambda>(k, f). \<lparr>fa_file_id = f, fa_resource_id = i, fa_resource_name = resource_kind, fa_sequence = k\<rparr>) (enumerate 0 ids)\<rparr>"

text \<open>The gallery of a room: its live files by sequence.\<close>

definition ROOM_RESOURCE :: string where "ROOM_RESOURCE = ''facility.room''"

definition files_of_room :: "db \<Rightarrow> uuid \<Rightarrow> uuid list" where
  "files_of_room s i =
     map fa_file_id (filter (\<lambda>a. list_ex (\<lambda>f. fi_id f = fa_file_id a \<and> \<not> fi_is_deleted f) (db_files s))
       (sort_key fa_sequence (filter (\<lambda>a. fa_resource_id a = i \<and> fa_resource_name a = ROOM_RESOURCE) (db_file_associations s))))"

section \<open>The service\<close>

definition upsert_room_translations_checked :: "uuid \<Rightarrow> translation list \<Rightarrow> db \<Rightarrow> exn + db" where
  "upsert_room_translations_checked i rows s =
     (if rows = [] then Inr s
      else let locale_ids = map tr_locale_id rows
           in raise_if (card (fetch_active_locale_ids s locale_ids) \<noteq> card (set locale_ids)) bad_request_plain
                (upsert_room_translations i rows s))"

definition is_image :: "file_row \<Rightarrow> bool" where
  "is_image f \<longleftrightarrow> (case fi_content_type f of None \<Rightarrow> False | Some t \<Rightarrow> take 6 t = ''image/'')"

definition replace_gallery :: "uuid \<Rightarrow> uuid list option \<Rightarrow> db \<Rightarrow> exn + db" where
  "replace_gallery i file_ids s =
     (case file_ids of None \<Rightarrow> Inr s
      | Some ids \<Rightarrow>
          raise_if (ROOM_GALLERY_MAX_FILES < length ids) bad_request_plain
          (raise_if (length ids \<noteq> card (set ids)) bad_request_plain
          (let active = list_active_files_by_ids s ids
           in raise_if (ids \<noteq> [] \<and> \<not> list_all (\<lambda>f. f \<in> set (map fi_id active)) ids) bad_request_plain
             (raise_if (ids \<noteq> [] \<and> list_ex (\<lambda>f. \<not> is_image f) active) bad_request_plain
               (Inr (replace_associations i ROOM_RESOURCE ids s))))))"

definition room_code_exists :: "string \<Rightarrow> exn" where
  "room_code_exists code = raise_exn Conflict (Some (FCode ROOM_CODE_EXISTS)) (CtxText code)"

definition new_room :: "env \<Rightarrow> create_room_command \<Rightarrow> uuid \<Rightarrow> room_row" where
  "new_room e command i =
     \<lparr>rm_id = i, rm_code = xm_code command, rm_room_number = xm_room_number command, rm_capacity = xm_capacity command,
      rm_sequence = (case xm_sequence command of None \<Rightarrow> default_sequence e | Some q \<Rightarrow> q), rm_translations = [],
      rm_is_active = xm_is_active command, rm_is_deleted = False\<rparr>"

definition create_room :: "create_room_command \<Rightarrow> uuid handler" where
  "create_room command e s =
     (case fresh_uuid s of (i, s0) \<Rightarrow>
      raise_if (xm_translations command = []) bad_request_plain
        (on_unique (room_code_exists (xm_code command))
          (bindE (insert_room (new_room e command i) s0) (\<lambda>s1.
           bindE (upsert_room_translations_checked i (xm_translations command) s1) (\<lambda>s2.
           bindE (replace_gallery i (xm_file_ids command) s2) (\<lambda>s3. Inr (i, s3)))))))"

definition no_such_room :: "uuid \<Rightarrow> exn" where "no_such_room i = not_found ROOM_NOT_FOUND (CtxId i)"

definition update_room :: "uuid \<Rightarrow> update_room_command \<Rightarrow> unit handler" where
  "update_room i command e s =
     raise_if (find_room s i = None) (no_such_room i)
       (case update_room_rows i (\<lambda>r. r\<lparr>rm_room_number := um_room_number command, rm_capacity := um_capacity command,
               rm_is_active := um_is_active command,
               rm_sequence := (case um_sequence command of None \<Rightarrow> rm_sequence r | Some q \<Rightarrow> q)\<rparr>) s of (affected, s1) \<Rightarrow>
        raise_if (affected = 0) (no_such_room i)
          (bindE (upsert_room_translations_checked i (case um_translations command of None \<Rightarrow> [] | Some trs \<Rightarrow> trs) s1) (\<lambda>s2.
           bindE (replace_gallery i (um_file_ids command) s2) (\<lambda>s3. Inr ((), s3)))))"

definition delete_room :: "uuid \<Rightarrow> bool \<Rightarrow> unit handler" where
  "delete_room i permanent e s =
     raise_if (find_room s i = None) (no_such_room i)
       (if permanent then bindE (room_delete_hard i s) (\<lambda>s1. Inr ((), s1)) else Inr ((), set_room_deleted True i s))"

definition restore_rooms :: "uuid list \<Rightarrow> unit handler" where
  "restore_rooms ids e s = raise_if (ids = []) bad_request_plain (Inr ((), fold (set_room_deleted False) ids s))"

end
