(* ===== verification/Admin_Safety.thy ===== *)
theory Admin_Safety imports Rental_Admin Room_Admin Series_Drafts begin

text \<open>
  What the administration of rooms and prices guarantees: codes, names and bindings stay unique and live bindings name live
  templates, a deleted room is given back whole and keeps its code meanwhile, and a gallery reads back as it was set.
\<close>

section \<open>Requests\<close>

datatype admin_request =
    New_Rate_Template rate_template_command
  | Edit_Rate_Template uuid rate_template_command
  | Drop_Rate_Template uuid bool
  | Restore_Rate_Template uuid
  | New_Rate rate_command
  | Edit_Rate uuid rate_command
  | Drop_Rate uuid bool
  | Restore_Rate uuid
  | New_Discount_Rule discount_rule_command
  | Edit_Discount_Rule uuid discount_rule_command
  | Drop_Discount_Rule uuid
  | New_Surcharge surcharge_command
  | Edit_Surcharge uuid surcharge_command
  | Drop_Surcharge uuid
  | New_Room create_room_command
  | Edit_Room uuid update_room_command
  | Drop_Room uuid bool
  | Restore_Rooms "uuid list"

fun serve_admin :: "env \<Rightarrow> admin_request \<Rightarrow> db \<Rightarrow> db" where
  "serve_admin e (New_Rate_Template command) s = after (create_rate_template command e s) s"
| "serve_admin e (Edit_Rate_Template i command) s = after (update_rate_template i command e s) s"
| "serve_admin e (Drop_Rate_Template i permanent) s = after (delete_rate_template i permanent e s) s"
| "serve_admin e (Restore_Rate_Template i) s = after (restore_rate_template i e s) s"
| "serve_admin e (New_Rate command) s = after (create_rate command e s) s"
| "serve_admin e (Edit_Rate i command) s = after (update_rate i command e s) s"
| "serve_admin e (Drop_Rate i permanent) s = after (delete_rate i permanent e s) s"
| "serve_admin e (Restore_Rate i) s = after (restore_rate i e s) s"
| "serve_admin e (New_Discount_Rule command) s = after (create_discount_rule command e s) s"
| "serve_admin e (Edit_Discount_Rule i command) s = after (update_discount_rule i command e s) s"
| "serve_admin e (Drop_Discount_Rule i) s = after (delete_discount_rule i e s) s"
| "serve_admin e (New_Surcharge command) s = after (create_surcharge command e s) s"
| "serve_admin e (Edit_Surcharge i command) s = after (update_surcharge i command e s) s"
| "serve_admin e (Drop_Surcharge i) s = after (delete_surcharge i e s) s"
| "serve_admin e (New_Room command) s = after (create_room command e s) s"
| "serve_admin e (Edit_Room i command) s = after (update_room i command e s) s"
| "serve_admin e (Drop_Room i permanent) s = after (delete_room i permanent e s) s"
| "serve_admin e (Restore_Rooms ids) s = after (restore_rooms ids e s) s"

section \<open>The catalog\<close>

definition template_is_live :: "rate_template list \<Rightarrow> uuid \<Rightarrow> bool" where
  "template_is_live ts i \<longleftrightarrow> (\<exists>t\<in>set ts. rt_id t = i \<and> \<not> rt_is_deleted t)"

definition bindings_live :: "rate_template list \<Rightarrow> rate_binding list \<Rightarrow> bool" where
  "bindings_live ts rs \<longleftrightarrow> (\<forall>r\<in>set rs. \<not> rb_is_deleted r \<longrightarrow> template_is_live ts (rb_template_id r))"

definition catalog_ok :: "db \<Rightarrow> bool" where
  "catalog_ok s \<longleftrightarrow>
     distinct (map rm_code (db_rooms s)) \<and> distinct (map rt_name (db_rate_templates s)) \<and>
     distinct (map binding_key (db_rate_bindings s)) \<and> distinct (map dr_code (db_discount_rules s)) \<and>
     distinct (map su_code (db_surcharges s)) \<and> (\<forall>t\<in>set (db_rate_templates s). 0 \<le> rt_unit_amount t) \<and>
     bindings_live (db_rate_templates s) (db_rate_bindings s)"

text \<open>Restoring a binding does not look at its template; this request is fine when the template is there.\<close>

fun restorable :: "db \<Rightarrow> admin_request \<Rightarrow> bool" where
  "restorable s (Restore_Rate i) \<longleftrightarrow> (\<forall>r\<in>set (db_rate_bindings s). rb_id r = i \<longrightarrow> template_is_live (db_rate_templates s) (rb_template_id r))"
| "restorable s _ \<longleftrightarrow> True"

lemma all_updated: "(\<And>x. x \<in> set xs \<Longrightarrow> P (if p x then f x else x)) \<Longrightarrow> \<forall>x\<in>set (update_where p f xs). P x"
  by (induction xs) (simp_all add: update_where_def)

lemma template_updated_live:
  assumes "template_is_live ts i" "\<And>t. p t \<Longrightarrow> rt_id (f t) = rt_id t" "\<And>t. p t \<Longrightarrow> \<not> rt_is_deleted t \<Longrightarrow> rt_id t = i \<Longrightarrow> \<not> rt_is_deleted (f t)"
  shows "template_is_live (update_where p f ts) i"
proof -
  obtain t where t: "t \<in> set ts" "rt_id t = i" "\<not> rt_is_deleted t" using assms(1) by (auto simp: template_is_live_def)
  let ?t = "if p t then f t else t"
  have "?t \<in> set (update_where p f ts)" using t(1) by (auto simp: update_where_def)
  moreover have "rt_id ?t = i \<and> \<not> rt_is_deleted ?t" using t(2,3) assms(2,3) by simp
  ultimately show ?thesis unfolding template_is_live_def by blast
qed

lemma bindings_live_mono:
  "bindings_live ts rs \<Longrightarrow> (\<And>i. template_is_live ts i \<Longrightarrow> template_is_live ts' i) \<Longrightarrow> set rs' \<subseteq> set rs \<Longrightarrow> bindings_live ts' rs'"
  by (auto simp: bindings_live_def)

section \<open>One lemma per operation\<close>

lemma template_of_command_fields [simp]:
  "rt_id (template_of_command command a i b) = i" "rt_is_deleted (template_of_command command a i b) = b"
  "rt_unit_amount (template_of_command command a i b) = xt_unit_amount command"
  by (simp_all add: template_of_command_def)

lemma insert_unique_Inr: "insert_unique code r rows = Inr rows' \<longleftrightarrow> \<not> list_ex (\<lambda>x. code x = code r) rows \<and> rows' = rows @ [r]"
  by (auto simp: insert_unique_def guard_simps)

lemma update_live_unique_Inr:
  "update_live_unique id_of deleted code i f rows = Inr (n, rows') \<longleftrightarrow>
     n = length (filter (live_row id_of deleted i) rows) \<and> rows' = update_where (live_row id_of deleted i) f rows \<and> distinct (map code rows')"
  by (auto simp: update_live_unique_def update_live_def guard_simps)

lemma create_template_keeps:
  assumes "create_rate_template command e s = Inr (i, s')" and ok: "catalog_ok s" shows "catalog_ok s'"
proof -
  obtain a rows where rows: "0 \<le> xt_unit_amount command" "s' = s\<lparr>db_next_uuid := db_next_uuid s + 1, db_rate_templates := rows\<rparr>"
      "insert_unique rt_name (template_of_command command a (db_next_uuid s) False) (db_rate_templates s) = Inr rows"
    using assms(1) unfolding create_rate_template_def fresh_uuid_def insert_template_def
    by (simp only: guard_simps prod.case) (elim exE conjE, rule that, simp_all add: not_less)
  have "rows = db_rate_templates s @ [template_of_command command a (db_next_uuid s) False]" using rows(3) by (simp add: insert_unique_Inr)
  with ok rows(1) templates.insert_unique_distinct [OF rows(3)] show ?thesis
    by (auto simp: catalog_ok_def rows(2) bindings_live_def template_is_live_def)
qed

lemma update_template_keeps:
  assumes "update_rate_template i command e s = Inr (u, s')" and ok: "catalog_ok s" shows "catalog_ok s'"
proof -
  obtain a n rows where rows: "\<not> list_ex (\<lambda>t. live_template i t \<and> xt_unit_amount command < 0) (db_rate_templates s)"
      "s' = s\<lparr>db_rate_templates := rows\<rparr>"
      "update_live_unique rt_id rt_is_deleted rt_name i (\<lambda>t. template_of_command command a (rt_id t) (rt_is_deleted t)) (db_rate_templates s)
         = Inr (n, rows)"
    using assms(1) unfolding update_rate_template_def update_template_rows_def
    by (simp only: guard_simps split_paired_Ex prod.case) (elim exE conjE, rule that, simp_all)
  let ?f = "\<lambda>t. template_of_command command a (rt_id t) (rt_is_deleted t)"
  have r: "rows = update_where (live_template i) ?f (db_rate_templates s)" using rows(3) by (simp add: update_live_unique_Inr)
  have "\<forall>t\<in>set rows. 0 \<le> rt_unit_amount t"
    unfolding r by (rule all_updated) (use ok rows(1) in \<open>auto simp: catalog_ok_def list_ex_iff not_less\<close>)
  moreover have "bindings_live rows (db_rate_bindings s)"
    using ok unfolding catalog_ok_def r by (elim conjE, elim bindings_live_mono) (auto intro!: template_updated_live)
  ultimately show ?thesis using ok templates.update_unique_distinct [OF rows(3)] by (simp add: catalog_ok_def rows(2))
qed

lemma amounts_marked: "\<forall>t\<in>set ts. 0 \<le> rt_unit_amount t \<Longrightarrow> \<forall>t\<in>set (set_deleted rt_id (mark_template b) i ts). 0 \<le> rt_unit_amount t"
  by (auto simp: set_deleted_def update_where_def mark_template_def)

lemma mark_template_keeps:
  assumes ok: "catalog_ok s" and unused: "b \<Longrightarrow> count_rates_for_template s i = 0"
  shows "catalog_ok (set_template_deleted b i s)"
proof -
  have live: "template_is_live (set_deleted rt_id (mark_template b) i (db_rate_templates s)) j"
    if "template_is_live (db_rate_templates s) j" "b \<longrightarrow> j \<noteq> i" for j
    unfolding set_deleted_def by (rule template_updated_live [OF that(1)]) (use that(2) in \<open>auto simp: mark_template_def\<close>)
  have "bindings_live (set_deleted rt_id (mark_template b) i (db_rate_templates s)) (db_rate_bindings s)"
    unfolding bindings_live_def
  proof (intro ballI impI)
    fix r assume r: "r \<in> set (db_rate_bindings s)" "\<not> rb_is_deleted r"
    then have "template_is_live (db_rate_templates s) (rb_template_id r)" using ok by (simp add: catalog_ok_def bindings_live_def)
    moreover have "b \<longrightarrow> rb_template_id r \<noteq> i" using unused r by (auto simp: count_rates_for_template_def filter_empty_conv)
    ultimately show "template_is_live (set_deleted rt_id (mark_template b) i (db_rate_templates s)) (rb_template_id r)" by (rule live)
  qed
  with ok show ?thesis by (simp add: catalog_ok_def set_template_deleted_def templates.codes_set_deleted) (elim conjE, erule amounts_marked)
qed

lemma drop_template_keeps:
  assumes ok: "catalog_ok s"
  shows "delete_rate_template i permanent e s = Inr (u, s') \<Longrightarrow> catalog_ok s'"
    and "restore_rate_template i e s = Inr (u, s') \<Longrightarrow> catalog_ok s'"
  using mark_template_keeps [OF ok, of True] mark_template_keeps [OF ok, of False]
  by (auto simp: delete_rate_template_def restore_rate_template_def guard_simps)

text \<open>Bindings.\<close>

lemma bindable_live: "validate_template_for_bind s i = Inr () \<Longrightarrow> template_is_live (db_rate_templates s) i"
  by (auto simp: validate_template_for_bind_def get_template_by_id_def template_is_live_def live_row_def split: option.splits dest!: find_Some_set)

lemma create_rate_keeps:
  assumes "create_rate command e s = Inr (i, s')" and ok: "catalog_ok s" shows "catalog_ok s'"
proof -
  let ?r = "\<lparr>rb_id = db_next_uuid s, rb_facility_id = xr_facility_id command, rb_template_id = xr_template_id command,
     rb_is_active = xr_is_active command, rb_is_deleted = False\<rparr>"
  obtain rows where rows: "validate_template_for_bind s (xr_template_id command) = Inr ()"
      "s' = s\<lparr>db_next_uuid := db_next_uuid s + 1, db_rate_bindings := rows\<rparr>" "insert_unique binding_key ?r (db_rate_bindings s) = Inr rows"
    using assms(1) unfolding create_rate_def fresh_uuid_def insert_rate_def
    by (simp only: guard_simps prod.case) (elim exE conjE, rule that, simp_all)
  have "rows = db_rate_bindings s @ [?r]" using rows(3) by (simp add: insert_unique_Inr)
  with ok bindable_live [OF rows(1)] rates.insert_unique_distinct [OF rows(3)] show ?thesis
    by (simp add: catalog_ok_def rows(2) bindings_live_def)
qed

lemma update_rate_keeps:
  assumes "update_rate i command e s = Inr (u, s')" and ok: "catalog_ok s" shows "catalog_ok s'"
proof -
  let ?f = "\<lambda>r. r\<lparr>rb_facility_id := xr_facility_id command, rb_template_id := xr_template_id command, rb_is_active := xr_is_active command\<rparr>"
  obtain n rows where rows: "validate_template_for_bind s (xr_template_id command) = Inr ()"
      "s' = s\<lparr>db_rate_bindings := rows\<rparr>" "update_live_unique rb_id rb_is_deleted binding_key i ?f (db_rate_bindings s) = Inr (n, rows)"
    using assms(1) unfolding update_rate_def update_rate_rows_def
    by (simp only: guard_simps split_paired_Ex prod.case) (elim exE conjE, rule that, simp_all)
  have r: "rows = update_where (live_rate i) ?f (db_rate_bindings s)" using rows(3) by (simp add: update_live_unique_Inr)
  have "bindings_live (db_rate_templates s) rows"
    unfolding bindings_live_def r
    by (rule all_updated) (use ok bindable_live [OF rows(1)] in \<open>auto simp: catalog_ok_def bindings_live_def\<close>)
  with ok rates.update_unique_distinct [OF rows(3)] show ?thesis by (simp add: catalog_ok_def rows(2))
qed

lemma mark_rate_keeps:
  assumes ok: "catalog_ok s"
    and live: "\<not> b \<Longrightarrow> \<forall>r\<in>set (db_rate_bindings s). rb_id r = i \<longrightarrow> template_is_live (db_rate_templates s) (rb_template_id r)"
  shows "catalog_ok (set_rate_deleted b i s)"
proof -
  have "bindings_live (db_rate_templates s) (set_deleted rb_id (mark_rate b) i (db_rate_bindings s))"
    unfolding bindings_live_def set_deleted_def
    by (rule all_updated) (use ok live in \<open>auto simp: catalog_ok_def bindings_live_def mark_rate_def\<close>)
  with ok show ?thesis by (simp add: catalog_ok_def set_rate_deleted_def rates.codes_set_deleted)
qed

lemma fewer_rates_keep:
  assumes ok: "catalog_ok s" shows "catalog_ok (s\<lparr>db_rate_bindings := filter P (db_rate_bindings s)\<rparr>)"
proof -
  have "distinct (map binding_key (filter P (db_rate_bindings s)))" using ok by (simp add: catalog_ok_def distinct_map_filter)
  with ok show ?thesis by (auto simp: catalog_ok_def bindings_live_def)
qed

lemma drop_rate_keeps:
  assumes ok: "catalog_ok s"
  shows "delete_rate i permanent e s = Inr (u, s') \<Longrightarrow> catalog_ok s'"
    and "restore_rate i e s = Inr (u, s') \<Longrightarrow> restorable s (Restore_Rate i) \<Longrightarrow> catalog_ok s'"
  using mark_rate_keeps [OF ok, of True] mark_rate_keeps [OF ok, of False] fewer_rates_keep [OF ok]
  by (auto simp: delete_rate_def restore_rate_def delete_rate_hard_def guard_simps)

text \<open>Discount rules and surcharges.\<close>

lemma discount_rules_keep:
  assumes ok: "catalog_ok s"
  shows "create_discount_rule c1 e s = Inr (i, s') \<Longrightarrow> catalog_ok s'"
    and "update_discount_rule i c2 e s = Inr (u, s') \<Longrightarrow> catalog_ok s'"
    and "delete_discount_rule i e s = Inr (u, s') \<Longrightarrow> catalog_ok s'"
  using ok
  by (auto simp: create_discount_rule_def update_discount_rule_def delete_discount_rule_def fresh_uuid_def guard_simps catalog_ok_def
      discount_rules.codes_set_deleted dest: discount_rules.insert_unique_distinct discount_rules.update_unique_distinct)

lemma surcharges_keep:
  assumes ok: "catalog_ok s"
  shows "create_surcharge c1 e s = Inr (i, s') \<Longrightarrow> catalog_ok s'"
    and "update_surcharge i c2 e s = Inr (u, s') \<Longrightarrow> catalog_ok s'"
    and "delete_surcharge i e s = Inr (u, s') \<Longrightarrow> catalog_ok s'"
  using ok
  by (auto simp: create_surcharge_def update_surcharge_def delete_surcharge_def fresh_uuid_def guard_simps catalog_ok_def
      surcharges.codes_set_deleted dest: surcharges.insert_unique_distinct surcharges.update_unique_distinct)

text \<open>Rooms: everything but the tables of rooms and associations stays.\<close>

lemma room_codes_keep:
  assumes "catalog_ok s" "distinct (map rm_code (db_rooms s'))" "db_rate_templates s' = db_rate_templates s"
    "db_rate_bindings s' = db_rate_bindings s" "db_discount_rules s' = db_discount_rules s" "db_surcharges s' = db_surcharges s"
  shows "catalog_ok s'"
  using assms by (simp add: catalog_ok_def)

lemma translations_Inr:
  assumes "upsert_room_translations_checked i rows s = Inr s'"
  shows "\<exists>p f. s' = s\<lparr>db_rooms := update_where p f (db_rooms s)\<rparr> \<and> (\<forall>r. rm_code (f r) = rm_code r \<and> rm_id (f r) = rm_id r)"
proof (cases "rows = []")
  case True
  with assms show ?thesis
    by (intro exI [of _ "\<lambda>_. False"] exI [of _ "\<lambda>r. r"]) (simp add: upsert_room_translations_checked_def update_where_def)
next
  case False
  let ?f = "\<lambda>r. r\<lparr>rm_translations := fold upsert_translation rows (rm_translations r)\<rparr>"
  show ?thesis
    by (intro exI [of _ "\<lambda>r. rm_id r = i"] exI [of _ ?f])
      (use assms False in \<open>auto simp: upsert_room_translations_checked_def upsert_room_translations_def Let_def guard_simps\<close>)
qed

lemma gallery_Inr: "replace_gallery i ids s = Inr s' \<Longrightarrow> \<exists>x. s' = s\<lparr>db_file_associations := x\<rparr>"
  by (cases ids) (auto simp: replace_gallery_def guard_simps Let_def replace_associations_def intro: exI [of _ "db_file_associations s"])

lemma rooms_written_keep:
  assumes ok: "catalog_ok s" and trs: "upsert_room_translations_checked i rows s1 = Inr s2" and gal: "replace_gallery i ids s2 = Inr s'"
    and s1: "distinct (map rm_code (db_rooms s1))" "db_rate_templates s1 = db_rate_templates s" "db_rate_bindings s1 = db_rate_bindings s"
      "db_discount_rules s1 = db_discount_rules s" "db_surcharges s1 = db_surcharges s"
  shows "catalog_ok s'"
proof -
  obtain p f x where "s2 = s1\<lparr>db_rooms := update_where p f (db_rooms s1)\<rparr>" "\<And>r. rm_code (f r) = rm_code r"
    "s' = s2\<lparr>db_file_associations := x\<rparr>"
    using translations_Inr [OF trs] gallery_Inr [OF gal] by metis
  with s1 show ?thesis by (intro room_codes_keep [OF ok]) (simp_all add: map_update_keeps)
qed

lemma create_room_keeps:
  assumes "create_room command e s = Inr (i, s')" and ok: "catalog_ok s" shows "catalog_ok s'"
proof -
  obtain s1 s2 where w: "insert_room (new_room e command i) (s\<lparr>db_next_uuid := db_next_uuid s + 1\<rparr>) = Inr s1"
    "upsert_room_translations_checked i (xm_translations command) s1 = Inr s2" "replace_gallery i (xm_file_ids command) s2 = Inr s'"
    using assms(1) by (auto simp: create_room_def fresh_uuid_def guard_simps)
  obtain rows where rows: "insert_unique rm_code (new_room e command i) (db_rooms s) = Inr rows"
    "s1 = s\<lparr>db_next_uuid := db_next_uuid s + 1, db_rooms := rows\<rparr>"
    using w(1) by (auto simp: insert_room_def guard_simps)
  show ?thesis
    by (rule rooms_written_keep [OF ok w(2,3)]) (use ok rooms.insert_unique_distinct [OF rows(1)] in \<open>simp_all add: rows(2) catalog_ok_def\<close>)
qed

lemma update_room_keeps:
  assumes "update_room i command e s = Inr (u, s')" and ok: "catalog_ok s" shows "catalog_ok s'"
proof -
  let ?f = "\<lambda>r. r\<lparr>rm_room_number := um_room_number command, rm_capacity := um_capacity command, rm_is_active := um_is_active command,
    rm_sequence := (case um_sequence command of None \<Rightarrow> rm_sequence r | Some q \<Rightarrow> q)\<rparr>"
  obtain s2 where w: "upsert_room_translations_checked i (case um_translations command of None \<Rightarrow> [] | Some trs \<Rightarrow> trs)
      (s\<lparr>db_rooms := update_where (live_row rm_id rm_is_deleted i) ?f (db_rooms s)\<rparr>) = Inr s2"
    "replace_gallery i (um_file_ids command) s2 = Inr s'"
    using assms(1) by (auto simp: update_room_def update_room_rows_def update_live_def guard_simps)
  show ?thesis by (rule rooms_written_keep [OF ok w]) (use ok in \<open>simp_all add: catalog_ok_def map_update_keeps\<close>)
qed

lemma set_room_deleted_keeps: "catalog_ok s \<Longrightarrow> catalog_ok (set_room_deleted b i s)"
  by (simp add: catalog_ok_def set_room_deleted_def rooms.codes_set_deleted)

lemma drop_room_keeps:
  assumes ok: "catalog_ok s"
  shows "delete_room i permanent e s = Inr (u, s') \<Longrightarrow> catalog_ok s'"
    and "restore_rooms ids e s = Inr (u, s') \<Longrightarrow> catalog_ok s'"
proof -
  have "catalog_ok t" if "room_delete_hard i s = Inr t" for t
    using fewer_rates_keep [OF ok, of "\<lambda>r. rb_facility_id r \<noteq> i"] that by (auto simp: room_delete_hard_def guard_simps catalog_ok_def distinct_map_filter)
  then show "delete_room i permanent e s = Inr (u, s') \<Longrightarrow> catalog_ok s'"
    using set_room_deleted_keeps [OF ok] by (auto simp: delete_room_def guard_simps split: if_splits)
  have "catalog_ok (fold (set_room_deleted False) ids s)" for ids
    using ok by (induction ids arbitrary: s) (auto intro: set_room_deleted_keeps)
  then show "restore_rooms ids e s = Inr (u, s') \<Longrightarrow> catalog_ok s'" by (auto simp: restore_rooms_def guard_simps)
qed

section \<open>The catalog stays in order\<close>

lemmas admin_keeps = create_template_keeps update_template_keeps drop_template_keeps [rotated] create_rate_keeps update_rate_keeps
  drop_rate_keeps [rotated] discount_rules_keep [rotated] surcharges_keep [rotated] create_room_keeps update_room_keeps drop_room_keeps [rotated]


lemma sample_catalog: "catalog_ok sample_db"
  by code_simp

lemma sample_binding: "map rb_template_id (db_rate_bindings (serve_admin (sample_env steward_id 0)
    (New_Rate \<lparr>xr_facility_id = hall_id, xr_template_id = 30, xr_is_active = True\<rparr>) sample_db)) = [30]"
  by code_simp


text \<open>A binding and then its template are deleted; restoring the binding leaves a live binding of a deleted template.\<close>

definition dangling :: db where
  "dangling = fold (\<lambda>r. serve_admin (sample_env steward_id 0) r)
     [New_Rate \<lparr>xr_facility_id = hall_id, xr_template_id = 30, xr_is_active = True\<rparr>, Drop_Rate 1000 False, Drop_Rate_Template 30 False,
      Restore_Rate 1000] sample_db"

lemma restored_binding_dangles:
  "map rb_is_deleted (db_rate_bindings dangling) = [False] \<and> \<not> catalog_ok dangling"
  by code_simp

section \<open>Deleting and restoring a room\<close>

lemma find_row_listed: "find_row id_of i rows = Some r \<Longrightarrow> r \<in> set rows \<and> id_of r = i"
  by (rule find_row_some)

text \<open>C38. Soft deletion of a room is undone by restoring it: every table is as before. Until then the room is gone for the
  administration of opening hours and rates, but its code stays taken, so that no new room can have it.\<close>

theorem room_deletion_undone:
  assumes "room_exists_by_id s i" "\<forall>r\<in>set (db_rooms s). rm_id r = i \<longrightarrow> \<not> rm_is_deleted r"
  shows "\<exists>s1. delete_room i False e s = Inr ((), s1) \<and> restore_rooms [i] e s1 = Inr ((), s) \<and> \<not> room_exists_by_id s1 i \<and>
    (\<forall>command e'. xm_translations command \<noteq> [] \<longrightarrow> xm_code command \<in> rm_code ` set (db_rooms s) \<longrightarrow>
       create_room command e' s1 = Inl (room_code_exists (xm_code command)))"
proof -
  let ?s = "set_room_deleted True i s"
  have "find_room s i \<noteq> None" using assms(1) by (auto simp: room_exists_by_id_def find_room_def find_row_def find_None_iff list_ex_iff)
  then have "delete_room i False e s = Inr ((), ?s)" by (simp add: delete_room_def raise_if_def)
  moreover have "restore_rooms [i] e ?s = Inr ((), s)"
    using rooms.delete_restore [OF assms(2)] by (simp add: restore_rooms_def raise_if_def set_room_deleted_def)
  moreover have "\<not> room_exists_by_id ?s i"
    using rooms.deleted_gone [of i "db_rooms s"] by (simp add: room_exists_by_id_def set_room_deleted_def live_row_def [abs_def])
  moreover have "create_room command e' ?s = Inl (room_code_exists (xm_code command))"
    if trs: "xm_translations command \<noteq> []" and taken: "xm_code command \<in> rm_code ` set (db_rooms s)" for command e'
  proof -
    have "set (map rm_code (db_rooms ?s)) = set (map rm_code (db_rooms s))" by (simp add: set_room_deleted_def rooms.codes_set_deleted del: set_map list.set_map)
    with taken have "rm_code (new_room e' command k) \<in> rm_code ` set (db_rooms ?s)" for k by (simp add: new_room_def)
    then have "insert_unique rm_code (new_room e' command k) (db_rooms ?s) = Inl unique_violation" for k
      by (metis imageE rooms.insert_taken)
    then have "insert_room (new_room e' command k) (?s\<lparr>db_next_uuid := n\<rparr>) = Inl unique_violation" for k n
      by (simp add: insert_room_def)
    with trs show ?thesis by (simp add: create_room_def fresh_uuid_def raise_if_def unique_violation_hidden)
  qed
  ultimately show ?thesis by blast
qed

theorem room_deletion_undone_witness:
  "\<exists>s1. delete_room hall_id False (sample_env steward_id 0) sample_db = Inr ((), s1) \<and>
     restore_rooms [hall_id] (sample_env steward_id 0) s1 = Inr ((), sample_db) \<and> \<not> room_exists_by_id s1 hall_id"
proof -
  have "room_exists_by_id sample_db hall_id" "\<forall>r\<in>set (db_rooms sample_db). rm_id r = hall_id \<longrightarrow> \<not> rm_is_deleted r" by code_simp+
  from room_deletion_undone [OF this] show ?thesis by blast
qed

section \<open>Galleries\<close>

lemma own_associations:
  "filter (\<lambda>a. fa_resource_id a = j \<and> fa_resource_name a = ROOM_RESOURCE) (db_file_associations (replace_associations i ROOM_RESOURCE ids s)) =
   (if j = i then map (\<lambda>(k, f). \<lparr>fa_file_id = f, fa_resource_id = i, fa_resource_name = ROOM_RESOURCE, fa_sequence = k\<rparr>) (enumerate 0 ids)
    else filter (\<lambda>a. fa_resource_id a = j \<and> fa_resource_name a = ROOM_RESOURCE) (db_file_associations s))"
proof -
  have "filter (\<lambda>a. fa_resource_id a = j \<and> fa_resource_name a = ROOM_RESOURCE)
      (map (\<lambda>(k, f). \<lparr>fa_file_id = f, fa_resource_id = i, fa_resource_name = ROOM_RESOURCE, fa_sequence = k\<rparr>) xs) =
    (if j = i then map (\<lambda>(k, f). \<lparr>fa_file_id = f, fa_resource_id = i, fa_resource_name = ROOM_RESOURCE, fa_sequence = k\<rparr>) xs else [])"
    for xs :: "(nat \<times> uuid) list"
    by (induction xs) auto
  then show ?thesis by (auto simp: replace_associations_def filter_empty_conv intro!: filter_cong)
qed

lemma gallery_read:
  assumes "replace_gallery i (Some ids) s = Inr s'"
  shows "files_of_room s' j = (if j = i then ids else files_of_room s j)"
proof -
  have s': "s' = replace_associations i ROOM_RESOURCE ids s" and live: "\<forall>f\<in>set ids. list_ex (\<lambda>x. fi_id x = f \<and> \<not> fi_is_deleted x) (db_files s)"
    using assms by (auto simp: replace_gallery_def guard_simps Let_def list_active_files_by_ids_def list_all_iff list_ex_iff split: if_splits)
  have files: "db_files s' = db_files s" by (simp add: s' replace_associations_def)
  let ?mk = "\<lambda>(k, f). \<lparr>fa_file_id = f, fa_resource_id = i, fa_resource_name = ROOM_RESOURCE, fa_sequence = k\<rparr>"
  have mk: "map fa_sequence (map ?mk (enumerate 0 ids)) = [0..<length ids]" "map fa_file_id (map ?mk (enumerate 0 ids)) = ids"
    by (simp_all add: comp_def case_prod_unfold)
  then have "sort_key fa_sequence (map ?mk (enumerate 0 ids)) = map ?mk (enumerate 0 ids)"
    by (intro sort_key_id_if_sorted) simp
  moreover have "filter (\<lambda>a. list_ex (\<lambda>f. fi_id f = fa_file_id a \<and> \<not> fi_is_deleted f) (db_files s)) (map ?mk (enumerate 0 ids)) = map ?mk (enumerate 0 ids)"
    using live by (auto simp: filter_id_conv dest!: in_set_enumerate_eq [THEN iffD1] nth_mem)
  ultimately show ?thesis using mk(2) own_associations [of j i ids s] by (simp add: files_of_room_def files s' [symmetric])
qed

lemma gallery_checked:
  assumes "replace_gallery i (Some ids) s = Inr s'"
  shows "length ids \<le> ROOM_GALLERY_MAX_FILES \<and> distinct ids \<and>
    (\<forall>f\<in>set ids. list_ex (\<lambda>x. fi_id x = f \<and> \<not> fi_is_deleted x \<and> is_image x) (db_files s))"
proof (cases "ids = []")
  case False
  let ?active = "filter (\<lambda>f. fi_id f \<in> set ids \<and> \<not> fi_is_deleted f) (db_files s)"
  have *: "length ids \<le> ROOM_GALLERY_MAX_FILES" "length ids = card (set ids)" "\<forall>f\<in>set ids. \<exists>x\<in>set ?active. fi_id x = f"
    "\<forall>x\<in>set ?active. is_image x"
    using assms False by (auto simp: replace_gallery_def guard_simps Let_def list_active_files_by_ids_def list_all_iff list_ex_iff image_iff)
  from *(3,4) have "\<forall>f\<in>set ids. list_ex (\<lambda>x. fi_id x = f \<and> \<not> fi_is_deleted x \<and> is_image x) (db_files s)"
    by (fastforce simp: list_ex_iff)
  with * show ?thesis by (simp add: card_distinct)
qed simp

text \<open>
  After a room is edited with a gallery of its own, its gallery is exactly the files that were sent, in their order, at most
  ten different images that are not deleted, and no other room's gallery has changed. Without a gallery in the command none changes.\<close>

lemma gallery_reads_back:
  assumes "update_room i command e s = Inr ((), s')"
  shows "case um_file_ids command of
      None \<Rightarrow> \<forall>j. files_of_room s' j = files_of_room s j
    | Some ids \<Rightarrow> files_of_room s' i = ids \<and> (\<forall>j. j \<noteq> i \<longrightarrow> files_of_room s' j = files_of_room s j) \<and>
        length ids \<le> ROOM_GALLERY_MAX_FILES \<and> distinct ids \<and>
        (\<forall>f\<in>set ids. list_ex (\<lambda>x. fi_id x = f \<and> \<not> fi_is_deleted x \<and> is_image x) (db_files s))"
proof -
  obtain s2 where w: "upsert_room_translations_checked i (case um_translations command of None \<Rightarrow> [] | Some trs \<Rightarrow> trs)
      (snd (update_room_rows i (\<lambda>r. r\<lparr>rm_room_number := um_room_number command, rm_capacity := um_capacity command,
         rm_is_active := um_is_active command, rm_sequence := (case um_sequence command of None \<Rightarrow> rm_sequence r | Some q \<Rightarrow> q)\<rparr>) s)) = Inr s2"
    "replace_gallery i (um_file_ids command) s2 = Inr s'"
    using assms by (auto simp: update_room_def guard_simps split: prod.splits)
  have same: "files_of_room s2 j = files_of_room s j \<and> db_files s2 = db_files s" for j
    using translations_Inr [OF w(1)] by (auto simp: files_of_room_def update_room_rows_def update_live_def)
  show ?thesis
  proof (cases "um_file_ids command")
    case None
    with w(2) same show ?thesis by (simp add: replace_gallery_def)
  next
    case (Some ids)
    with w(2) have "replace_gallery i (Some ids) s2 = Inr s'" by simp
    from gallery_read [OF this] gallery_checked [OF this] same Some show ?thesis by simp
  qed
qed

definition two_photos :: update_room_command where
  "two_photos = \<lparr>um_room_number = None, um_capacity = Some 90, um_is_active = True, um_sequence = None, um_translations = None,
     um_file_ids = Some [71, 70]\<rparr>"

definition with_files :: db where
  "with_files = sample_db\<lparr>db_files := [\<lparr>fi_id = 70, fi_content_type = Some ''image/png'', fi_is_deleted = False\<rparr>,
     \<lparr>fi_id = 71, fi_content_type = Some ''image/jpeg'', fi_is_deleted = False\<rparr>]\<rparr>"

lemma photos_accepted: "inr_sat (update_room hall_id two_photos (sample_env steward_id 0) with_files) (\<lambda>_. True)"
  by code_simp

end
