(* ===== verification/Schedule_Loop.thy ===== *)
theory Schedule_Loop imports Recurring_Domain "HOL-Library.While_Combinator" begin

text \<open>
  The loop of \<open>weekly_occurrence_dates\<close> (\<open>recurring.py\<close>) as it is written, with its two variables: it may not return in this
  form, and the theorem says that it always does, with the list the other theories use.
\<close>

definition weekly_occurrence_loop :: "date \<Rightarrow> date \<Rightarrow> (date \<times> date list) option" where
  "weekly_occurrence_loop first_occurrence_date last_occurrence_date =
     while_option (\<lambda>(current, dates). current \<le> last_occurrence_date) (\<lambda>(current, dates). (current + 7, dates @ [current]))
       (first_occurrence_date, [])"

lemma weekly_loop_from:
  "\<exists>c. while_option (\<lambda>(current, dates). current \<le> b) (\<lambda>(current, dates). (current + 7, dates @ [current])) (a, ds) =
     Some (c, ds @ weekly_occurrence_dates a b) \<and> b < c \<and> c = a + 7 * int (length (weekly_occurrence_dates a b))"
proof (induction a b arbitrary: ds rule: weekly_occurrence_dates.induct)
  case (1 a b)
  show ?case
  proof (cases "a \<le> b")
    case True
    from "1.IH" [OF True, of "ds @ [a]"] True show ?thesis
      by (subst while_option_unfold, subst (1 2) weekly_occurrence_dates.simps) (auto simp: algebra_simps)
  next
    case False
    then show ?thesis
      by (subst while_option_unfold, subst (1 2) weekly_occurrence_dates.simps) auto
  qed
qed

lemma length_weekly_occurrence_dates: "length (weekly_occurrence_dates a b) = nat ((b - a) div 7 + 1)"
proof (induction a b rule: weekly_occurrence_dates.induct)
  case (1 a b)
  show ?case
  proof (cases "a \<le> b")
    case True
    have "(b - (a + 7)) div 7 = (b - a) div 7 - 1" by linarith
    with True "1.IH" [OF True] show ?thesis by (subst weekly_occurrence_dates.simps) simp
  next
    case False
    then have "(b - a) div 7 < 0" by simp
    with False show ?thesis by (subst weekly_occurrence_dates.simps) simp
  qed
qed


end
