(* ===== verification/Spec2Isabelle.thy ===== *)
theory Spec2Isabelle imports Booking_System Availability Series_Drafts Positions Admin_Safety Schedule_Loop begin

text \<open>
  The facility booking core of newlife-core-api.
\<close>

end
